(* ===== verification/Yvex_Prelude.thy ===== *)
theory Yvex_Prelude
  imports Main "HOL-Library.Word" "HOL-Library.Multiset"
begin

text \<open>
  Shared vocabulary of the development: the machine integer types of the C sources, the reading of
  C strings, the array idioms that several components use (the linear scan that stops at the first
  hit and the shift-down loop that closes a gap), and the generic notion of a transition system
  with an invariant.

  Conventions used by every theory.
  \<^item> \<^verbatim>\<open>unsigned long long\<close>, \<^verbatim>\<open>uint64_t\<close> and \<^verbatim>\<open>size_t\<close> values that take part in arithmetic are
    \<open>64 word\<close>, so that \<open>+\<close>, \<open>-\<close> and \<open>*\<close> wrap as they do in C.  Positions in and lengths of arrays
    that exist in memory are \<open>nat\<close>: an allocated array is shorter than \<open>2 ^ 64\<close>.
  \<^item> a C string is the \<open>string\<close> of the characters before its terminator; a nullable pointer is an
    \<open>option\<close>.
  \<^item> an array of capacity \<open>n\<close> is a list of length \<open>n\<close>.
\<close>

type_synonym u8 = "8 word"
type_synonym u32 = "32 word"
type_synonym u64 = "64 word"

abbreviation ULLONG_MAX :: u64 where
  "ULLONG_MAX \<equiv> - 1"

named_theorems word_nat_simps \<open>reading word comparisons and guarded sums through unat\<close>

section \<open>Words\<close>

lemma unat_u64_less: "unat (x :: u64) < 2 ^ 64"
  using unsigned_less [of x, where ?'a = nat] by simp

lemma unat_ULLONG_MAX [simp]: "unat ULLONG_MAX = 2 ^ 64 - 1"
  by (simp add: unsigned_minus_1_eq_mask mask_eq_exp_minus_1)

lemma le_ULLONG_MAX_minus_iff [word_nat_simps]:
  "(a :: u64) \<le> ULLONG_MAX - b \<longleftrightarrow> unat a + unat b < 2 ^ 64"
proof -
  have "b \<le> ULLONG_MAX" by simp
  then have "unat (ULLONG_MAX - b) = 2 ^ 64 - 1 - unat b"
    using unat_sub [of b ULLONG_MAX] by simp
  then show ?thesis using unat_u64_less [of b] by (simp add: word_le_nat_alt) linarith
qed

lemma ULLONG_MAX_minus_less_iff [word_nat_simps]:
  "ULLONG_MAX - b < (a :: u64) \<longleftrightarrow> 2 ^ 64 \<le> unat a + unat b"
  using le_ULLONG_MAX_minus_iff [of a b] by (simp add: not_le [symmetric])

lemma unat_add_no_wrap: "unat (a :: u64) + unat b < 2 ^ 64 \<Longrightarrow> unat (a + b) = unat a + unat b"
  by (simp add: unat_word_ariths)

lemma unat_inc: "x \<noteq> ULLONG_MAX \<Longrightarrow> unat (x + 1 :: u64) = unat x + 1"
proof -
  assume "x \<noteq> ULLONG_MAX"
  then have "unat x \<noteq> unat ULLONG_MAX" by (simp only: word_unat_eq_iff [symmetric]) simp
  then have "unat x + unat (1 :: u64) < 2 ^ 64" using unat_u64_less [of x] by simp
  then show ?thesis using unat_add_no_wrap [of x 1] by simp
qed

lemma unat_inc_less: "(x :: u64) < y \<Longrightarrow> unat (x + 1) = Suc (unat x)"
proof -
  assume "x < y"
  then have "x \<noteq> ULLONG_MAX" using word_order.extremum_strict by blast
  then show ?thesis by (simp add: unat_inc)
qed

lemma inc_le_less: "(x :: u64) < y \<Longrightarrow> x + 1 \<le> y" and le_inc_less: "(x :: u64) < y \<Longrightarrow> x \<le> x + 1"
  using unat_inc_less [of x y] by (simp_all add: word_le_nat_alt word_less_nat_alt)

lemma unat_dec: "(x :: u64) \<noteq> 0 \<Longrightarrow> unat (x - 1) = unat x - 1"
  by (rule unat_minus_one)

lemma unat_eq_of_nat_u64: "n < 2 ^ 64 \<Longrightarrow> unat (of_nat n :: u64) = n"
  by (simp add: unat_of_nat)

section \<open>Loops over arrays\<close>

text \<open>
  \<open>first_index p n\<close> is the value of \<open>index\<close> after
  \<^verbatim>\<open>for (index = 0; index < n; ++index) if (p(index)) break;\<close>
\<close>

fun first_index_from :: "(nat \<Rightarrow> bool) \<Rightarrow> nat \<Rightarrow> nat \<Rightarrow> nat" where
  "first_index_from p i 0 = i"
| "first_index_from p i (Suc n) = (if p i then i else first_index_from p (Suc i) n)"

definition first_index :: "(nat \<Rightarrow> bool) \<Rightarrow> nat \<Rightarrow> nat" where
  "first_index p n = first_index_from p 0 n"

lemma first_index_from_bounds: "i \<le> first_index_from p i n \<and> first_index_from p i n \<le> i + n"
  by (induction p i n rule: first_index_from.induct) auto

lemma first_index_from_hit: "first_index_from p i n < i + n \<Longrightarrow> p (first_index_from p i n)"
  by (induction p i n rule: first_index_from.induct) (auto split: if_splits)

lemma first_index_from_before: "i \<le> j \<Longrightarrow> j < first_index_from p i n \<Longrightarrow> \<not> p j"
proof (induction p i n rule: first_index_from.induct)
  case (1 p i)
  then show ?case by simp
next
  case (2 p i n)
  then show ?case by (cases "i = j") (auto split: if_splits)
qed

lemma first_index_le [simp]: "first_index p n \<le> n"
  using first_index_from_bounds [of 0 p n] by (simp add: first_index_def)

lemma first_index_hit: "first_index p n < n \<Longrightarrow> p (first_index p n)"
  using first_index_from_hit [of p 0 n] by (simp add: first_index_def)

lemma first_index_before: "j < first_index p n \<Longrightarrow> \<not> p j"
  using first_index_from_before [of 0 j p n] by (simp add: first_index_def)

lemma first_index_none_iff: "first_index p n = n \<longleftrightarrow> (\<forall>j < n. \<not> p j)"
  by (metis first_index_before first_index_hit first_index_le le_neq_implies_less)

lemma first_index_eqI:
  assumes "k < n" and "p k" and "\<And>j. j < k \<Longrightarrow> \<not> p j"
  shows "first_index p n = k"
proof -
  have "first_index p n < n" using assms(1,2) first_index_none_iff [of p n] first_index_le [of p n]
    by (metis le_neq_implies_less)
  then have "p (first_index p n)" by (rule first_index_hit)
  then have "\<not> first_index p n < k" using assms(3) by blast
  moreover have "\<not> k < first_index p n" using assms(2) first_index_before by blast
  ultimately show ?thesis by simp
qed

text \<open>
  \<open>shift_down a index count\<close> is the array after
  \<^verbatim>\<open>for (; index + 1 < count; ++index) a[index] = a[index + 1];\<close>
\<close>

function shift_down :: "'a list \<Rightarrow> nat \<Rightarrow> nat \<Rightarrow> 'a list" where
  "shift_down a index cnt =
     (if index + 1 < cnt then shift_down (a[index := a ! (index + 1)]) (index + 1) cnt else a)"
  by pat_completeness auto
termination
  by (relation "measure (\<lambda>(a, index, cnt). cnt - index)") auto

declare shift_down.simps [simp del]

lemma length_shift_down [simp]: "length (shift_down a index cnt) = length a"
  by (induction a index cnt rule: shift_down.induct) (subst shift_down.simps, simp)

lemma nth_shift_down:
  "cnt \<le> length a \<Longrightarrow> k < length a \<Longrightarrow>
     shift_down a index cnt ! k = (if index \<le> k \<and> k + 1 < cnt then a ! (k + 1) else a ! k)"
proof (induction a index cnt rule: shift_down.induct)
  case (1 a index cnt)
  show ?case
  proof (cases "index + 1 < cnt")
    case True
    with "1.IH" "1.prems"
    have "shift_down (a[index := a ! (index + 1)]) (index + 1) cnt ! k =
        (if index + 1 \<le> k \<and> k + 1 < cnt then a[index := a ! (index + 1)] ! (k + 1)
         else a[index := a ! (index + 1)] ! k)"
      by simp
    with True "1.prems" show ?thesis
      by (subst shift_down.simps) (auto simp: nth_list_update)
  next
    case False
    then show ?thesis by (subst shift_down.simps) auto
  qed
qed

text \<open>
  The live prefix after the loop and the decrement of the cnt: the element at \<open>index\<close> is gone
  and the order of the others is kept.
\<close>

lemma take_shift_down:
  assumes "cnt \<le> length a" and "index < cnt"
  shows "take (cnt - 1) (shift_down a index cnt) =
    take index (take cnt a) @ drop (Suc index) (take cnt a)"
proof (rule nth_equalityI)
  show "length (take (cnt - 1) (shift_down a index cnt)) =
      length (take index (take cnt a) @ drop (Suc index) (take cnt a))"
    using assms by simp
next
  fix k
  assume "k < length (take (cnt - 1) (shift_down a index cnt))"
  then have "k < cnt - 1" by simp
  with assms show "take (cnt - 1) (shift_down a index cnt) ! k =
      (take index (take cnt a) @ drop (Suc index) (take cnt a)) ! k"
    by (auto simp: nth_append nth_shift_down min_def)
qed

text \<open>A shift with the freed last cell cleared, as the C code does with \<^verbatim>\<open>memset\<close>.\<close>

definition array_remove :: "'a \<Rightarrow> 'a list \<Rightarrow> nat \<Rightarrow> nat \<Rightarrow> 'a list" where
  "array_remove zero a index cnt = (shift_down a index cnt)[cnt - 1 := zero]"

lemma length_array_remove [simp]: "length (array_remove zero a index cnt) = length a"
  by (simp add: array_remove_def)

lemma take_array_remove:
  assumes "cnt \<le> length a" and "index < cnt"
  shows "take (cnt - 1) (array_remove zero a index cnt) =
    take index (take cnt a) @ drop (Suc index) (take cnt a)"
  using take_shift_down [OF assms] by (simp add: array_remove_def)

lemma take_list_update_append:
  "n < length a \<Longrightarrow> take (Suc n) (a[n := x]) = take n a @ [x]"
  by (simp add: take_Suc_conv_app_nth)

lemma nth_in_take: "i < n \<Longrightarrow> n \<le> length a \<Longrightarrow> a ! i = take n a ! i"
  by simp

lemma remove_nth_split:
  "i < length xs \<Longrightarrow> xs = take i xs @ xs ! i # drop (Suc i) xs"
  by (rule id_take_nth_drop)

lemma mset_remove_nth:
  "i < length xs \<Longrightarrow> mset xs = add_mset (xs ! i) (mset (take i xs @ drop (Suc i) xs))"
  by (subst remove_nth_split [of i xs]) simp_all

section \<open>Decimal rendering\<close>

text \<open>The conversion \<^verbatim>\<open>%llu\<close> of \<^verbatim>\<open>snprintf\<close>.\<close>

definition digit_char :: "nat \<Rightarrow> char" where
  "digit_char d = char_of (48 + d)"

definition is_digit :: "char \<Rightarrow> bool" where
  "is_digit c \<longleftrightarrow> 48 \<le> (of_char c :: nat) \<and> (of_char c :: nat) \<le> 57"

fun decimal :: "nat \<Rightarrow> string" where
  "decimal n = (if n < 10 then [digit_char n] else decimal (n div 10) @ [digit_char (n mod 10)])"

declare decimal.simps [simp del]

definition decimal_value :: "string \<Rightarrow> nat" where
  "decimal_value s = foldl (\<lambda>v c. 10 * v + (of_char c - 48)) 0 s"

lemma of_char_digit_char: "d < 10 \<Longrightarrow> (of_char (digit_char d) :: nat) = 48 + d"
  by (simp add: digit_char_def)

lemma is_digit_digit_char: "d < 10 \<Longrightarrow> is_digit (digit_char d)"
  by (simp add: is_digit_def of_char_digit_char)

lemma decimal_digits: "c \<in> set (decimal n) \<Longrightarrow> is_digit c"
  by (induction n rule: decimal.induct)
    (subst (asm) (2) decimal.simps, auto simp: is_digit_digit_char split: if_splits)

lemma decimal_value_decimal [simp]: "decimal_value (decimal n) = n"
proof (induction n rule: decimal.induct)
  case (1 n)
  show ?case
  proof (cases "n < 10")
    case True
    then show ?thesis by (subst decimal.simps) (simp add: decimal_value_def of_char_digit_char)
  next
    case False
    have snoc: "decimal_value (xs @ [digit_char d]) = 10 * decimal_value xs + d" if "d < 10" for xs d
      using that by (simp add: decimal_value_def of_char_digit_char)
    show ?thesis using 1 False by (subst decimal.simps) (simp add: snoc)
  qed
qed

lemma decimal_inject [simp]: "decimal m = decimal n \<longleftrightarrow> m = n"
  by (metis decimal_value_decimal)

lemma decimal_not_Nil [simp]: "decimal n \<noteq> []"
  by (subst decimal.simps) simp

text \<open>A decimal number ends at the first character that is not a digit.\<close>

lemma decimal_append_inject:
  assumes "decimal m @ c # xs = decimal n @ c # ys" and "\<not> is_digit c"
  shows "m = n \<and> xs = ys"
proof -
  have tw: "takeWhile is_digit (decimal k @ c # zs) = decimal k" for k zs
    using assms(2) decimal_digits by (simp add: takeWhile_append2)
  have "decimal m = decimal n" using arg_cong [OF assms(1), of "takeWhile is_digit"] tw by metis
  with assms(1) show ?thesis by simp
qed

section \<open>Sequencing of fallible steps\<close>

text \<open>\<open>proceed m f\<close> runs \<open>f\<close> on the result of \<open>m\<close> unless \<open>m\<close> failed: the early return of the C code.\<close>

definition proceed :: "'e + 'a \<Rightarrow> ('a \<Rightarrow> 'e + 'b) \<Rightarrow> 'e + 'b" where
  "proceed m f = (case m of Inl e \<Rightarrow> Inl e | Inr x \<Rightarrow> f x)"

lemma proceed_simps [simp]: "proceed (Inl e) f = Inl e" "proceed (Inr x) f = f x"
  by (simp_all add: proceed_def)

lemma proceed_Inr_iff: "proceed m f = Inr y \<longleftrightarrow> (\<exists>x. m = Inr x \<and> f x = Inr y)"
  by (cases m) simp_all

section \<open>Transition systems\<close>

inductive reachable_from :: "('s \<Rightarrow> bool) \<Rightarrow> ('s \<Rightarrow> 's \<Rightarrow> bool) \<Rightarrow> 's \<Rightarrow> bool"
  for init :: "'s \<Rightarrow> bool" and step :: "'s \<Rightarrow> 's \<Rightarrow> bool" where
  reachable_init: "init s \<Longrightarrow> reachable_from init step s"
| reachable_step: "reachable_from init step s \<Longrightarrow> step s t \<Longrightarrow> reachable_from init step t"

text \<open>
  The contract of a component that is a state machine: its initial states satisfy the invariant
  and each of its steps keeps it.
\<close>

locale invariant_system =
  fixes init :: "'s \<Rightarrow> bool" and step :: "'s \<Rightarrow> 's \<Rightarrow> bool" and inv :: "'s \<Rightarrow> bool"
  assumes inv_init: "init s \<Longrightarrow> inv s"
    and inv_step: "inv s \<Longrightarrow> step s t \<Longrightarrow> inv t"
begin

lemma reachable_inv: "reachable_from init step s \<Longrightarrow> inv s"
  by (induction rule: reachable_from.induct) (auto intro: inv_init inv_step)

lemma step_closed: "reachable_from init step s \<Longrightarrow> step s t \<Longrightarrow> inv t"
  by (rule reachable_inv) (rule reachable_step)

end

end
