(* ===== verification/Core_Status.thy ===== *)
theory Core_Status
  imports Yvex_Prelude
begin

text \<open>
  The leaf services of \<^verbatim>\<open>src/core/status.c\<close>: the status vocabulary, the structured error that
  every refusing operation fills in, bounded text copies, checked 64-bit arithmetic, the
  per-thread allocation and observation counters and the clock reading.

  The error output parameter of an operation is a nullable pointer, so its model is a
  \<open>yvex_error option\<close> that is passed in and returned.  The components above return refusals as
  values (\<open>refusal\<close>, the left half of an \<open>outcome\<close>).
\<close>

section \<open>Status codes\<close>

datatype yvex_status =
    YVEX_OK | YVEX_ERR | YVEX_ERR_NOMEM | YVEX_ERR_IO | YVEX_ERR_FORMAT | YVEX_ERR_UNSUPPORTED
  | YVEX_ERR_BACKEND | YVEX_ERR_BOUNDS | YVEX_ERR_STATE | YVEX_ERR_CANCELLED
  | YVEX_ERR_INVALID_ARG | YVEX_ERR_TIMEOUT | YVEX_ERR_TOKEN_CAPACITY | YVEX_ERR_INPUT_CAPACITY
  | YVEX_ERR_OUTPUT_CAPACITY

fun yvex_status_name :: "yvex_status \<Rightarrow> string" where
  "yvex_status_name YVEX_OK = ''YVEX_OK''"
| "yvex_status_name YVEX_ERR = ''YVEX_ERR''"
| "yvex_status_name YVEX_ERR_NOMEM = ''YVEX_ERR_NOMEM''"
| "yvex_status_name YVEX_ERR_IO = ''YVEX_ERR_IO''"
| "yvex_status_name YVEX_ERR_FORMAT = ''YVEX_ERR_FORMAT''"
| "yvex_status_name YVEX_ERR_UNSUPPORTED = ''YVEX_ERR_UNSUPPORTED''"
| "yvex_status_name YVEX_ERR_BACKEND = ''YVEX_ERR_BACKEND''"
| "yvex_status_name YVEX_ERR_BOUNDS = ''YVEX_ERR_BOUNDS''"
| "yvex_status_name YVEX_ERR_STATE = ''YVEX_ERR_STATE''"
| "yvex_status_name YVEX_ERR_CANCELLED = ''YVEX_ERR_CANCELLED''"
| "yvex_status_name YVEX_ERR_INVALID_ARG = ''YVEX_ERR_INVALID_ARG''"
| "yvex_status_name YVEX_ERR_TIMEOUT = ''YVEX_ERR_TIMEOUT''"
| "yvex_status_name YVEX_ERR_TOKEN_CAPACITY = ''YVEX_ERR_TOKEN_CAPACITY''"
| "yvex_status_name YVEX_ERR_INPUT_CAPACITY = ''YVEX_ERR_INPUT_CAPACITY''"
| "yvex_status_name YVEX_ERR_OUTPUT_CAPACITY = ''YVEX_ERR_OUTPUT_CAPACITY''"

definition yvex_status_is_ok :: "yvex_status \<Rightarrow> bool" where
  "yvex_status_is_ok status \<longleftrightarrow> status = YVEX_OK"

definition yvex_status_is_error :: "yvex_status \<Rightarrow> bool" where
  "yvex_status_is_error status \<longleftrightarrow> status \<noteq> YVEX_OK"

section \<open>Bounded text and structured errors\<close>

abbreviation (input) YVEX_ERROR_WHERE_CAP :: nat where "YVEX_ERROR_WHERE_CAP \<equiv> 96"
abbreviation (input) YVEX_ERROR_MESSAGE_CAP :: nat where "YVEX_ERROR_MESSAGE_CAP \<equiv> 256"

text \<open>The destination is \<open>None\<close> for a null pointer and its old text otherwise.\<close>

definition yvex_core_text_copy :: "string option \<Rightarrow> nat \<Rightarrow> string option \<Rightarrow> string option" where
  "yvex_core_text_copy dst cap src =
     (if dst = None \<or> cap = 0 then dst
      else Some (take (cap - 1) (case src of None \<Rightarrow> [] | Some s \<Rightarrow> s)))"

record yvex_error =
  err_code :: yvex_status
  err_where :: string
  err_message :: string

definition yvex_error_clear :: "yvex_error option \<Rightarrow> yvex_error option" where
  "yvex_error_clear err =
     (case err of None \<Rightarrow> None
      | Some e \<Rightarrow> Some (e\<lparr>err_code := YVEX_OK, err_where := [], err_message := []\<rparr>))"

definition yvex_error_set ::
  "yvex_error option \<Rightarrow> yvex_status \<Rightarrow> string option \<Rightarrow> string option \<Rightarrow> yvex_error option" where
  "yvex_error_set err code loc message =
     (case err of None \<Rightarrow> None
      | Some e \<Rightarrow> Some (e\<lparr>err_code := code,
          err_where := the (yvex_core_text_copy (Some (err_where e)) YVEX_ERROR_WHERE_CAP
            (Some (case loc of None \<Rightarrow> ''unknown'' | Some w \<Rightarrow> w))),
          err_message := the (yvex_core_text_copy (Some (err_message e)) YVEX_ERROR_MESSAGE_CAP
            message)\<rparr>))"

definition yvex_error_is_set :: "yvex_error option \<Rightarrow> bool" where
  "yvex_error_is_set err = (case err of None \<Rightarrow> False | Some e \<Rightarrow> err_code e \<noteq> YVEX_OK)"

definition yvex_error_code :: "yvex_error option \<Rightarrow> yvex_status" where
  "yvex_error_code err = (case err of None \<Rightarrow> YVEX_OK | Some e \<Rightarrow> err_code e)"

definition yvex_error_where :: "yvex_error option \<Rightarrow> string" where
  "yvex_error_where err = (case err of None \<Rightarrow> [] | Some e \<Rightarrow> err_where e)"

definition yvex_error_message :: "yvex_error option \<Rightarrow> string" where
  "yvex_error_message err = (case err of None \<Rightarrow> [] | Some e \<Rightarrow> err_message e)"

text \<open>
  A refusal value: what the components return where the C code calls \<open>yvex_error_set\<close> on the
  caller's error and returns the status.
\<close>

definition refusal :: "yvex_status \<Rightarrow> string \<Rightarrow> string \<Rightarrow> yvex_error" where
  "refusal status loc reason =
     the (yvex_error_set (Some \<lparr>err_code = YVEX_OK, err_where = [], err_message = []\<rparr>) status
       (Some loc) (Some reason))"

type_synonym 'a outcome = "yvex_error + 'a"

fun outcome_status :: "'a outcome \<Rightarrow> yvex_status" where
  "outcome_status (Inl e) = err_code e"
| "outcome_status (Inr _) = YVEX_OK"

lemma err_code_refusal [simp]: "err_code (refusal status loc reason) = status"
  by (simp add: refusal_def yvex_error_set_def)

lemma text_copy_bounded:
  "cap > 0 \<Longrightarrow> yvex_core_text_copy (Some old) cap src = Some t \<Longrightarrow> length t < cap"
  by (auto simp: yvex_core_text_copy_def split: if_splits)

lemma yvex_status_name_inj: "yvex_status_name a = yvex_status_name b \<Longrightarrow> a = b"
  by (cases a; cases b) simp_all

section \<open>Checked 64-bit arithmetic\<close>

text \<open>The output pointer is \<open>None\<close> when null; \<open>Some\<close> of its old content otherwise.\<close>

definition yvex_core_u64_add :: "u64 \<Rightarrow> u64 \<Rightarrow> u64 option \<Rightarrow> bool \<times> u64 option" where
  "yvex_core_u64_add left right out =
     (if out = None \<or> left > ULLONG_MAX - right then (False, out) else (True, Some (left + right)))"

definition yvex_core_u64_mul :: "u64 \<Rightarrow> u64 \<Rightarrow> u64 option \<Rightarrow> bool \<times> u64 option" where
  "yvex_core_u64_mul left right out =
     (if out = None \<or> (left \<noteq> 0 \<and> right > ULLONG_MAX div left) then (False, out)
      else (True, Some (left * right)))"

text \<open>The way callers use them: a local output whose value matters only on success.\<close>

definition checked_add :: "u64 \<Rightarrow> u64 \<Rightarrow> u64 option" where
  "checked_add a b =
     (case yvex_core_u64_add a b (Some 0) of (True, r) \<Rightarrow> r | (False, _) \<Rightarrow> None)"

definition checked_mul :: "u64 \<Rightarrow> u64 \<Rightarrow> u64 option" where
  "checked_mul a b =
     (case yvex_core_u64_mul a b (Some 0) of (True, r) \<Rightarrow> r | (False, _) \<Rightarrow> None)"

lemma checked_add_eq:
  "checked_add a b = (if unat a + unat b < 2 ^ 64 then Some (a + b) else None)"
  by (simp add: checked_add_def yvex_core_u64_add_def word_nat_simps)

lemma mul_guard_iff:
  "(a :: u64) \<noteq> 0 \<Longrightarrow> b > ULLONG_MAX div a \<longleftrightarrow> 2 ^ 64 \<le> unat a * unat b"
proof -
  assume "a \<noteq> 0"
  then have pos: "0 < unat a" by (simp add: unat_gt_0)
  have "b > ULLONG_MAX div a \<longleftrightarrow> (2 ^ 64 - 1) div unat a < unat b"
    by (simp add: word_less_nat_alt unat_div)
  also have "\<dots> \<longleftrightarrow> 2 ^ 64 - 1 < unat b * unat a"
    using pos by (rule div_less_iff_less_mult)
  also have "\<dots> \<longleftrightarrow> 2 ^ 64 \<le> unat a * unat b" by (auto simp: mult.commute)
  finally show ?thesis .
qed

lemma checked_mul_eq:
  "checked_mul a b = (if unat a * unat b < 2 ^ 64 then Some (a * b) else None)"
  by (cases "a = 0") (auto simp: checked_mul_def yvex_core_u64_mul_def mul_guard_iff)

lemma checked_add_Some:
  "checked_add a b = Some c \<longleftrightarrow> unat a + unat b < 2 ^ 64 \<and> c = a + b"
  by (auto simp: checked_add_eq)

lemma unat_checked_add: "checked_add a b = Some c \<Longrightarrow> unat c = unat a + unat b"
  by (auto simp: checked_add_eq unat_add_no_wrap split: if_splits)

lemma unat_checked_mul: "checked_mul a b = Some c \<Longrightarrow> unat c = unat a * unat b"
  by (auto simp: checked_mul_eq unat_word_ariths split: if_splits)

text \<open>
  The contract of a checked binary operation: it answers exactly when the mathematical result is
  representable, and then with that result.  Folds of a checked operation inherit it.
\<close>

locale checked_arith =
  fixes op :: "u64 \<Rightarrow> u64 \<Rightarrow> u64 option" and mop :: "nat \<Rightarrow> nat \<Rightarrow> nat"
  assumes exact: "op a b = Some c \<Longrightarrow> unat c = mop (unat a) (unat b)"
    and defined: "(\<exists>c. op a b = Some c) \<longleftrightarrow> mop (unat a) (unat b) < 2 ^ 64"
begin

lemma refused_iff: "op a b = None \<longleftrightarrow> 2 ^ 64 \<le> mop (unat a) (unat b)"
  using defined [of a b] by (cases "op a b") auto

lemma characterised: "op a b = Some c \<longleftrightarrow> unat c = mop (unat a) (unat b)"
proof
  assume "unat c = mop (unat a) (unat b)"
  then have "mop (unat a) (unat b) < 2 ^ 64" using unat_u64_less [of c] by simp
  then obtain d where d: "op a b = Some d" using defined by blast
  then have "unat d = unat c" using exact \<open>unat c = _\<close> by simp
  then show "op a b = Some c" using d by (simp add: word_unat_eq_iff)
qed (rule exact)

end

interpretation add: checked_arith checked_add "(+)"
  by unfold_locales (auto simp: checked_add_eq unat_add_no_wrap split: if_splits)

interpretation mul: checked_arith checked_mul "(*)"
  by unfold_locales (auto simp: checked_mul_eq unat_word_ariths split: if_splits)

section \<open>Allocation epoch\<close>

record yvex_core_allocation_epoch =
  allocation_events :: u64
  reallocation_events :: u64
  release_events :: u64
  epoch_overflowed :: bool

datatype yvex_core_allocation_operation =
    YVEX_CORE_ALLOCATE_MALLOC | YVEX_CORE_ALLOCATE_CALLOC | YVEX_CORE_ALLOCATE_REALLOC
  | YVEX_CORE_ALLOCATE_FREE

text \<open>
  \<open>allocation_epoch_advance\<close> works on one counter of the record; \<open>get\<close> and \<open>put\<close> are that counter.
\<close>

definition allocation_epoch_advance ::
  "(yvex_core_allocation_epoch \<Rightarrow> u64) \<Rightarrow>
   ((u64 \<Rightarrow> u64) \<Rightarrow> yvex_core_allocation_epoch \<Rightarrow> yvex_core_allocation_epoch) \<Rightarrow>
   yvex_core_allocation_epoch \<Rightarrow> yvex_core_allocation_epoch" where
  "allocation_epoch_advance get put epoch =
     (if get epoch = ULLONG_MAX then epoch\<lparr>epoch_overflowed := True\<rparr>
      else put (\<lambda>c. c + 1) epoch)"

text \<open>
  \<open>granted\<close> is the answer of the C library's allocator; \<open>pointer\<close> and \<open>bytes\<close> are the arguments the
  bookkeeping looks at (is the pointer non-null, is the size nonzero).  The result says whether the
  caller receives a block.
\<close>

definition yvex_core_allocate ::
  "yvex_core_allocation_epoch \<Rightarrow> yvex_core_allocation_operation \<Rightarrow> bool \<Rightarrow> u64 \<Rightarrow> bool \<Rightarrow>
   yvex_core_allocation_epoch \<times> bool" where
  "yvex_core_allocate epoch operation pointer bytes granted =
     (case operation of
        YVEX_CORE_ALLOCATE_MALLOC \<Rightarrow>
          (if granted
           then allocation_epoch_advance allocation_events allocation_events_update epoch
           else epoch, granted)
      | YVEX_CORE_ALLOCATE_CALLOC \<Rightarrow>
          (if granted
           then allocation_epoch_advance allocation_events allocation_events_update epoch
           else epoch, granted)
      | YVEX_CORE_ALLOCATE_REALLOC \<Rightarrow>
          (if granted
           then allocation_epoch_advance reallocation_events reallocation_events_update epoch
           else if pointer \<and> bytes = 0
           then allocation_epoch_advance release_events release_events_update epoch
           else epoch, granted)
      | YVEX_CORE_ALLOCATE_FREE \<Rightarrow>
          (if pointer then allocation_epoch_advance release_events release_events_update epoch
           else epoch, False))"

section \<open>Execution observations\<close>

record yvex_core_execution_observation =
  source_headers_read :: u64
  source_payload_bytes_read :: u64
  transform_plans_built :: u64
  quant_plans_built :: u64
  writer_plans_built :: u64
  observation_overflowed :: bool

datatype yvex_core_execution_observation_kind =
    YVEX_CORE_OBSERVE_SOURCE_HEADER | YVEX_CORE_OBSERVE_SOURCE_PAYLOAD_BYTES
  | YVEX_CORE_OBSERVE_TRANSFORM_PLAN | YVEX_CORE_OBSERVE_QUANT_PLAN
  | YVEX_CORE_OBSERVE_WRITER_PLAN | YVEX_CORE_OBSERVE_COUNT

text \<open>The pointer the \<^verbatim>\<open>switch\<close> leaves in \<open>counter\<close>: the counter of a kind, null for an invalid kind.\<close>

fun observation_counter ::
  "yvex_core_execution_observation_kind \<Rightarrow> yvex_core_execution_observation \<Rightarrow> u64 option" where
  "observation_counter YVEX_CORE_OBSERVE_SOURCE_HEADER t = Some (source_headers_read t)"
| "observation_counter YVEX_CORE_OBSERVE_SOURCE_PAYLOAD_BYTES t = Some (source_payload_bytes_read t)"
| "observation_counter YVEX_CORE_OBSERVE_TRANSFORM_PLAN t = Some (transform_plans_built t)"
| "observation_counter YVEX_CORE_OBSERVE_QUANT_PLAN t = Some (quant_plans_built t)"
| "observation_counter YVEX_CORE_OBSERVE_WRITER_PLAN t = Some (writer_plans_built t)"
| "observation_counter YVEX_CORE_OBSERVE_COUNT t = None"

fun observation_counter_store ::
  "yvex_core_execution_observation_kind \<Rightarrow> u64 \<Rightarrow> yvex_core_execution_observation \<Rightarrow>
   yvex_core_execution_observation" where
  "observation_counter_store YVEX_CORE_OBSERVE_SOURCE_HEADER v t = t\<lparr>source_headers_read := v\<rparr>"
| "observation_counter_store YVEX_CORE_OBSERVE_SOURCE_PAYLOAD_BYTES v t =
     t\<lparr>source_payload_bytes_read := v\<rparr>"
| "observation_counter_store YVEX_CORE_OBSERVE_TRANSFORM_PLAN v t = t\<lparr>transform_plans_built := v\<rparr>"
| "observation_counter_store YVEX_CORE_OBSERVE_QUANT_PLAN v t = t\<lparr>quant_plans_built := v\<rparr>"
| "observation_counter_store YVEX_CORE_OBSERVE_WRITER_PLAN v t = t\<lparr>writer_plans_built := v\<rparr>"
| "observation_counter_store YVEX_CORE_OBSERVE_COUNT v t = t"






lemma counter_store_same [simp]:
  "observation_counter kind t \<noteq> None \<Longrightarrow>
     observation_counter kind (observation_counter_store kind v t) = Some v"
  by (cases kind) simp_all

lemma counter_store_other [simp]:
  "kind \<noteq> kind' \<Longrightarrow>
     observation_counter kind (observation_counter_store kind' v t) = observation_counter kind t"
  by (cases kind; cases kind') simp_all

lemma overflowed_store [simp]:
  "observation_overflowed (observation_counter_store kind v t) = observation_overflowed t"
  by (cases kind) simp_all

lemma counter_overflowed_update [simp]:
  "observation_counter kind (t\<lparr>observation_overflowed := b\<rparr>) = observation_counter kind t"
  by (cases kind) simp_all








section \<open>Clock readings\<close>

record timespec =
  tv_sec :: int
  tv_nsec :: int

text \<open>\<open>None\<close> is a failed \<^verbatim>\<open>clock_gettime\<close>.\<close>

definition yvex_core_monotonic_ns :: "timespec option \<Rightarrow> u64" where
  "yvex_core_monotonic_ns reading =
     (case reading of Some v \<Rightarrow> of_int (tv_sec v) * 1000000000 + of_int (tv_nsec v) | None \<Rightarrow> 0)"

section \<open>Names\<close>

datatype yvex_log_level = YVEX_LOG_ERROR | YVEX_LOG_WARN | YVEX_LOG_INFO | YVEX_LOG_DEBUG | YVEX_LOG_TRACE

datatype yvex_log_domain = YVEX_LOG_CORE | YVEX_LOG_CLI

fun yvex_log_level_name :: "yvex_log_level \<Rightarrow> string" where
  "yvex_log_level_name YVEX_LOG_ERROR = ''error''"
| "yvex_log_level_name YVEX_LOG_WARN = ''warn''"
| "yvex_log_level_name YVEX_LOG_INFO = ''info''"
| "yvex_log_level_name YVEX_LOG_DEBUG = ''debug''"
| "yvex_log_level_name YVEX_LOG_TRACE = ''trace''"

fun yvex_log_domain_name :: "yvex_log_domain \<Rightarrow> string" where
  "yvex_log_domain_name YVEX_LOG_CORE = ''core''"
| "yvex_log_domain_name YVEX_LOG_CLI = ''cli''"

end
