(* ===== verification/Core_Sha256.thy ===== *)
theory Core_Sha256
  imports Core_Status
begin

unbundle bit_operations_syntax

text \<open>
  \<^verbatim>\<open>src/core/sha256.c\<close>: the incremental SHA-256 context (portable compression function), the
  hexadecimal rendering of digests, and the length-delimited encodings through which every
  identity in the program is derived.  The context is related to an abstract specification, the
  digest of the padded message; identity encodings are shown to be unambiguous.
\<close>

section \<open>Compression\<close>

definition sha256_rotate_right :: "u32 \<Rightarrow> nat \<Rightarrow> u32" where
  "sha256_rotate_right value bits = drop_bit bits value OR push_bit (32 - bits) value"

definition sha256_constants :: "u32 list" where
  "sha256_constants =
    [0x428a2f98, 0x71374491, 0xb5c0fbcf, 0xe9b5dba5, 0x3956c25b, 0x59f111f1, 0x923f82a4, 0xab1c5ed5,
     0xd807aa98, 0x12835b01, 0x243185be, 0x550c7dc3, 0x72be5d74, 0x80deb1fe, 0x9bdc06a7, 0xc19bf174,
     0xe49b69c1, 0xefbe4786, 0x0fc19dc6, 0x240ca1cc, 0x2de92c6f, 0x4a7484aa, 0x5cb0a9dc, 0x76f988da,
     0x983e5152, 0xa831c66d, 0xb00327c8, 0xbf597fc7, 0xc6e00bf3, 0xd5a79147, 0x06ca6351, 0x14292967,
     0x27b70a85, 0x2e1b2138, 0x4d2c6dfc, 0x53380d13, 0x650a7354, 0x766a0abb, 0x81c2c92e, 0x92722c85,
     0xa2bfe8a1, 0xa81a664b, 0xc24b8b70, 0xc76c51a3, 0xd192e819, 0xd6990624, 0xf40e3585, 0x106aa070,
     0x19a4c116, 0x1e376c08, 0x2748774c, 0x34b0bcb5, 0x391c0cb3, 0x4ed8aa4a, 0x5b9cca4f, 0x682e6ff3,
     0x748f82ee, 0x78a5636f, 0x84c87814, 0x8cc70208, 0x90befffa, 0xa4506ceb, 0xbef9a3f7, 0xc67178f2]"

definition block_word :: "u8 list \<Rightarrow> nat \<Rightarrow> u32" where
  "block_word block index =
     push_bit 24 (ucast (block ! (index * 4))) OR push_bit 16 (ucast (block ! (index * 4 + 1))) OR
     push_bit 8 (ucast (block ! (index * 4 + 2))) OR ucast (block ! (index * 4 + 3))"

text \<open>The second loop over \<open>words\<close>: each step computes the word at the next index.\<close>

definition schedule_word :: "u32 list \<Rightarrow> nat \<Rightarrow> u32" where
  "schedule_word words index =
     (let s0 = sha256_rotate_right (words ! (index - 15)) 7 XOR
               sha256_rotate_right (words ! (index - 15)) 18 XOR
               drop_bit 3 (words ! (index - 15));
          s1 = sha256_rotate_right (words ! (index - 2)) 17 XOR
               sha256_rotate_right (words ! (index - 2)) 19 XOR
               drop_bit 10 (words ! (index - 2))
      in words ! (index - 16) + s0 + words ! (index - 7) + s1)"

definition sha256_schedule :: "u8 list \<Rightarrow> u32 list" where
  "sha256_schedule block =
     fold (\<lambda>index words. words @ [schedule_word words index]) [16..<64]
       (map (block_word block) [0..<16])"

text \<open>One iteration of the round loop on the eight working variables.\<close>

fun sha256_round ::
  "u32 \<times> u32 \<Rightarrow> u32 \<times> u32 \<times> u32 \<times> u32 \<times> u32 \<times> u32 \<times> u32 \<times> u32 \<Rightarrow>
   u32 \<times> u32 \<times> u32 \<times> u32 \<times> u32 \<times> u32 \<times> u32 \<times> u32" where
  "sha256_round (constant, w) (a, b, c, d, e, f, g, h) =
     (let s1 = sha256_rotate_right e 6 XOR sha256_rotate_right e 11 XOR sha256_rotate_right e 25;
          choice = (e AND f) XOR (NOT e AND g);
          fst_sum = h + s1 + choice + constant + w;
          s0 = sha256_rotate_right a 2 XOR sha256_rotate_right a 13 XOR sha256_rotate_right a 22;
          majority = (a AND b) XOR (a AND c) XOR (b AND c);
          snd_sum = s0 + majority
      in (fst_sum + snd_sum, a, b, c, d + fst_sum, e, f, g))"

definition sha256_rounds ::
  "u32 list \<Rightarrow> u32 \<times> u32 \<times> u32 \<times> u32 \<times> u32 \<times> u32 \<times> u32 \<times> u32 \<Rightarrow>
   u32 \<times> u32 \<times> u32 \<times> u32 \<times> u32 \<times> u32 \<times> u32 \<times> u32" where
  "sha256_rounds words v = fold sha256_round (zip sha256_constants words) v"

definition sha256_compress :: "u32 list \<Rightarrow> u8 list \<Rightarrow> u32 list" where
  "sha256_compress state block =
     (case sha256_rounds (sha256_schedule block)
        (state ! 0, state ! 1, state ! 2, state ! 3, state ! 4, state ! 5, state ! 6, state ! 7) of
        (a, b, c, d, e, f, g, h) \<Rightarrow>
          [state ! 0 + a, state ! 1 + b, state ! 2 + c, state ! 3 + d,
           state ! 4 + e, state ! 5 + f, state ! 6 + g, state ! 7 + h])"

section \<open>The incremental context\<close>

record yvex_sha256 =
  sha_state :: "u32 list"
  sha_length :: u64
  sha_block :: "u8 list"
  sha_used :: nat
  sha_finalized :: bool

definition sha256_transform :: "yvex_sha256 \<Rightarrow> u8 list \<Rightarrow> yvex_sha256" where
  "sha256_transform ctx block = ctx\<lparr>sha_state := sha256_compress (sha_state ctx) block\<rparr>"

definition sha256_initial_state :: "u32 list" where
  "sha256_initial_state =
     [0x6a09e667, 0xbb67ae85, 0x3c6ef372, 0xa54ff53a, 0x510e527f, 0x9b05688c, 0x1f83d9ab, 0x5be0cd19]"

definition yvex_sha256_init :: "yvex_sha256" where
  "yvex_sha256_init =
     \<lparr>sha_state = sha256_initial_state, sha_length = 0, sha_block = replicate 64 0, sha_used = 0,
      sha_finalized = False\<rparr>"

text \<open>\<open>memcpy\<close> of \<open>src\<close> into an array at an offset.\<close>

definition overwrite :: "'a list \<Rightarrow> nat \<Rightarrow> 'a list \<Rightarrow> 'a list" where
  "overwrite dst offset src = take offset dst @ src @ drop (offset + length src) dst"

text \<open>The body of the copying loop of \<open>yvex_sha256_update\<close>, for the chunk it takes.\<close>

definition sha256_absorb_chunk :: "yvex_sha256 \<Rightarrow> u8 list \<Rightarrow> yvex_sha256" where
  "sha256_absorb_chunk ctx chunk =
     (let ctx = ctx\<lparr>sha_block := overwrite (sha_block ctx) (sha_used ctx) chunk,
                    sha_used := sha_used ctx + length chunk\<rparr>
      in if sha_used ctx = 64 then (sha256_transform ctx (sha_block ctx))\<lparr>sha_used := 0\<rparr> else ctx)"

text \<open>
  The loop itself.  A context never rests with a full block, so \<open>take_n\<close> is positive in every
  iteration; the guard on it only makes the recursion total.
\<close>

function sha256_absorb :: "yvex_sha256 \<Rightarrow> u8 list \<Rightarrow> yvex_sha256" where
  "sha256_absorb ctx bytes =
     (let take_n = min (length bytes) (64 - sha_used ctx) in
      if bytes = [] \<or> take_n = 0 then ctx
      else sha256_absorb (sha256_absorb_chunk ctx (take take_n bytes)) (drop take_n bytes))"
  by pat_completeness auto
termination
  by (relation "measure (\<lambda>(ctx, bytes). length bytes)") auto

declare sha256_absorb.simps [simp del]

text \<open>
  \<open>yvex_sha256_update\<close>: the context and the data are nullable, \<open>n\<close> is the length argument.  The
  result is the C return value with the context afterwards.
\<close>

definition yvex_sha256_update ::
  "yvex_sha256 option \<Rightarrow> u8 list option \<Rightarrow> nat \<Rightarrow> bool \<times> yvex_sha256 option" where
  "yvex_sha256_update context data n =
     (case context of
        None \<Rightarrow> (False, None)
      | Some ctx \<Rightarrow>
          if (data = None \<and> n \<noteq> 0) \<or> sha_finalized ctx \<or>
             ULLONG_MAX div 8 - sha_length ctx < of_nat n then (False, context)
          else (True, Some (sha256_absorb (ctx\<lparr>sha_length := sha_length ctx + of_nat n\<rparr>)
                 (case data of None \<Rightarrow> [] | Some bytes \<Rightarrow> take n bytes))))"

definition be_bytes64 :: "u64 \<Rightarrow> u8 list" where
  "be_bytes64 v = map (\<lambda>index. ucast (drop_bit ((7 - index) * 8) v)) [0..<8]"

definition state_bytes :: "u32 list \<Rightarrow> u8 list" where
  "state_bytes state =
     concat (map (\<lambda>w. [ucast (drop_bit 24 w), ucast (drop_bit 16 w), ucast (drop_bit 8 w), ucast w])
       state)"

definition yvex_sha256_final :: "yvex_sha256 option \<Rightarrow> (u8 list \<times> yvex_sha256) option" where
  "yvex_sha256_final context =
     (case context of
        None \<Rightarrow> None
      | Some ctx \<Rightarrow>
          if sha_finalized ctx \<or> sha_length ctx > ULLONG_MAX div 8 then None
          else
            let bit_length = sha_length ctx * 8;
                ctx = ctx\<lparr>sha_block := (sha_block ctx)[sha_used ctx := 0x80],
                          sha_used := sha_used ctx + 1\<rparr>;
                ctx = (if sha_used ctx > 56
                       then (let ctx = ctx\<lparr>sha_block := overwrite (sha_block ctx) (sha_used ctx)
                                             (replicate (64 - sha_used ctx) 0)\<rparr>
                             in (sha256_transform ctx (sha_block ctx))\<lparr>sha_used := 0\<rparr>)
                       else ctx);
                ctx = ctx\<lparr>sha_block := overwrite (sha_block ctx) (sha_used ctx)
                            (replicate (56 - sha_used ctx) 0)\<rparr>;
                ctx = ctx\<lparr>sha_block := overwrite (sha_block ctx) 56 (be_bytes64 bit_length)\<rparr>;
                ctx = sha256_transform ctx (sha_block ctx)
            in Some (state_bytes (sha_state ctx),
                     ctx\<lparr>sha_block := replicate 64 0, sha_used := 0, sha_finalized := True\<rparr>))"

section \<open>Specification: the digest of a padded message\<close>

function sha256_run :: "u32 list \<Rightarrow> u8 list \<Rightarrow> u32 list \<times> u8 list" where
  "sha256_run st xs =
     (if length xs < 64 then (st, xs) else sha256_run (sha256_compress st (take 64 xs)) (drop 64 xs))"
  by pat_completeness auto
termination
  by (relation "measure (\<lambda>(st, xs). length xs)") auto

declare sha256_run.simps [simp del]

text \<open>
  The padding of FIPS 180-4: a one bit, zeros up to 56 bytes modulo 64, the bit length in eight
  bytes.
\<close>

definition sha256_pad :: "u8 list \<Rightarrow> u8 list" where
  "sha256_pad msg =
     msg @ 0x80 # replicate ((119 - length msg mod 64) mod 64) 0 @ be_bytes64 (of_nat (length msg) * 8)"

definition sha256_digest :: "u8 list \<Rightarrow> u8 list" where
  "sha256_digest msg = state_bytes (fst (sha256_run sha256_initial_state (sha256_pad msg)))"

text \<open>What it means that a live context has absorbed a message.\<close>

abbreviation (input) sha256_limit :: nat where
  "sha256_limit \<equiv> (2 ^ 64 - 1) div 8"

definition sha256_absorbed :: "yvex_sha256 \<Rightarrow> u8 list \<Rightarrow> bool" where
  "sha256_absorbed ctx msg \<longleftrightarrow>
     \<not> sha_finalized ctx \<and> length msg \<le> sha256_limit \<and> sha_length ctx = of_nat (length msg) \<and>
     length (sha_block ctx) = 64 \<and> sha_used ctx < 64 \<and>
     sha256_run sha256_initial_state msg = (sha_state ctx, take (sha_used ctx) (sha_block ctx))"

section \<open>The context implements the specification\<close>

lemma sha256_run_short: "length xs < 64 \<Longrightarrow> sha256_run st xs = (st, xs)"
  by (simp add: sha256_run.simps)

lemma sha256_run_block:
  "length b = 64 \<Longrightarrow> sha256_run st (b @ xs) = sha256_run (sha256_compress st b) xs"
  by (simp add: sha256_run.simps [of st "b @ xs"])

lemma sha256_run_rest: "sha256_run st xs = (st', r) \<Longrightarrow> length r = length xs mod 64"
proof (induction st xs rule: sha256_run.induct)
  case (1 st xs)
  show ?case
  proof (cases "length xs < 64")
    case True
    with "1.prems" show ?thesis by (simp add: sha256_run.simps [of st xs])
  next
    case False
    with "1.prems" have "sha256_run (sha256_compress st (take 64 xs)) (drop 64 xs) = (st', r)"
      by (simp add: sha256_run.simps [of st xs])
    with "1.IH" False have "length r = (length xs - 64) mod 64" by simp
    with False show ?thesis by (simp add: le_mod_geq)
  qed
qed

lemma sha256_run_append:
  "sha256_run st xs = (st', r) \<Longrightarrow> sha256_run st (xs @ ys) = sha256_run st' (r @ ys)"
proof (induction st xs rule: sha256_run.induct)
  case (1 st xs)
  then show ?case
    by (cases "length xs < 64") (auto simp: sha256_run.simps [of st xs] sha256_run.simps [of st "xs @ ys"])
qed

lemma length_overwrite [simp]:
  "offset + length src \<le> length dst \<Longrightarrow> length (overwrite dst offset src) = length dst"
  by (simp add: overwrite_def)

lemma take_overwrite:
  "offset \<le> length dst \<Longrightarrow> take (offset + length src) (overwrite dst offset src) = take offset dst @ src"
  by (simp add: overwrite_def)

lemma overwrite_full:
  "offset + length src = length dst \<Longrightarrow> overwrite dst offset src = take offset dst @ src"
  by (simp add: overwrite_def)

definition absorb_ready :: "yvex_sha256 \<Rightarrow> bool" where
  "absorb_ready ctx \<longleftrightarrow> length (sha_block ctx) = 64 \<and> sha_used ctx < 64"

abbreviation pending :: "yvex_sha256 \<Rightarrow> u8 list" where
  "pending ctx \<equiv> take (sha_used ctx) (sha_block ctx)"

lemma absorb_chunk_run:
  assumes "absorb_ready ctx" and "sha_used ctx + length chunk \<le> 64"
  shows "absorb_ready (sha256_absorb_chunk ctx chunk)"
    and "sha256_run (sha_state ctx) (pending ctx @ chunk @ rest) =
      sha256_run (sha_state (sha256_absorb_chunk ctx chunk)) (pending (sha256_absorb_chunk ctx chunk) @ rest)"
    and "sha_length (sha256_absorb_chunk ctx chunk) = sha_length ctx"
    and "sha_finalized (sha256_absorb_chunk ctx chunk) = sha_finalized ctx"
proof -
  have len: "length (overwrite (sha_block ctx) (sha_used ctx) chunk) = 64"
    using assms by (simp add: absorb_ready_def)
  have live: "take (sha_used ctx + length chunk) (overwrite (sha_block ctx) (sha_used ctx) chunk) =
      pending ctx @ chunk"
    using assms by (intro take_overwrite) (simp add: absorb_ready_def)
  show "absorb_ready (sha256_absorb_chunk ctx chunk)"
    using assms len by (simp add: sha256_absorb_chunk_def absorb_ready_def Let_def sha256_transform_def)
  show "sha_length (sha256_absorb_chunk ctx chunk) = sha_length ctx"
    "sha_finalized (sha256_absorb_chunk ctx chunk) = sha_finalized ctx"
    by (simp_all add: sha256_absorb_chunk_def Let_def sha256_transform_def)
  show "sha256_run (sha_state ctx) (pending ctx @ chunk @ rest) =
      sha256_run (sha_state (sha256_absorb_chunk ctx chunk)) (pending (sha256_absorb_chunk ctx chunk) @ rest)"
  proof (cases "sha_used ctx + length chunk = 64")
    case True
    with live len have "overwrite (sha_block ctx) (sha_used ctx) chunk = pending ctx @ chunk" by simp
    with len sha256_run_block [of "pending ctx @ chunk" "sha_state ctx" rest] True show ?thesis
      by (simp add: sha256_absorb_chunk_def Let_def sha256_transform_def)
  next
    case False
    with live show ?thesis by (simp add: sha256_absorb_chunk_def Let_def)
  qed
qed

lemma sha256_absorb_run:
  "absorb_ready ctx \<Longrightarrow>
     absorb_ready (sha256_absorb ctx bytes) \<and>
     sha256_run (sha_state ctx) (pending ctx @ bytes) =
       (sha_state (sha256_absorb ctx bytes), pending (sha256_absorb ctx bytes)) \<and>
     sha_length (sha256_absorb ctx bytes) = sha_length ctx \<and>
     sha_finalized (sha256_absorb ctx bytes) = sha_finalized ctx"
proof (induction ctx bytes rule: sha256_absorb.induct)
  case (1 ctx bytes)
  define n where "n = min (length bytes) (64 - sha_used ctx)"
  let ?c = "sha256_absorb_chunk ctx (take n bytes)"
  have used: "sha_used ctx < 64" using "1.prems" by (simp add: absorb_ready_def)
  show ?case
  proof (cases "bytes = []")
    case True
    with "1.prems" show ?thesis
      by (simp add: sha256_absorb.simps [of ctx "[]"] sha256_run_short absorb_ready_def)
  next
    case False
    with used have n: "n \<noteq> 0" "sha_used ctx + length (take n bytes) \<le> 64" by (auto simp: n_def)
    have unfold: "sha256_absorb ctx bytes = sha256_absorb ?c (drop n bytes)"
      by (subst sha256_absorb.simps) (use False n in \<open>simp add: n_def [symmetric] Let_def\<close>)
    note chunk = absorb_chunk_run [OF "1.prems" n(2)]
    have bytes: "bytes = take n bytes @ drop n bytes" by simp
    have "sha256_run (sha_state ctx) (pending ctx @ bytes) =
        sha256_run (sha_state ?c) (pending ?c @ drop n bytes)"
      by (subst bytes) (rule chunk(2))
    with "1.IH" [OF n_def] False n chunk(1,3,4) show ?thesis by (simp add: unfold)
  qed
qed

lemma sha_limit_word: "unat (ULLONG_MAX div 8 :: u64) = sha256_limit"
  by (simp add: unat_div)

lemma length_guard_iff:
  assumes "m \<le> sha256_limit" and "n < 2 ^ 64"
  shows "ULLONG_MAX div 8 - (of_nat m :: u64) < of_nat n \<longleftrightarrow> sha256_limit < m + n"
proof -
  have m: "unat (of_nat m :: u64) = m" using assms by (intro unat_eq_of_nat_u64) simp
  have n: "unat (of_nat n :: u64) = n" using assms by (intro unat_eq_of_nat_u64) simp
  have "(of_nat m :: u64) \<le> ULLONG_MAX div 8" using assms m sha_limit_word by (simp add: word_le_nat_alt)
  then have "unat (ULLONG_MAX div 8 - of_nat m :: u64) = sha256_limit - m"
    using unat_sub m sha_limit_word by metis
  then show ?thesis using assms m n by (simp add: word_less_nat_alt) linarith
qed

lemma sha256_init_absorbed: "sha256_absorbed yvex_sha256_init []"
  by (simp add: sha256_absorbed_def yvex_sha256_init_def sha256_run_short)

lemma sha256_update_absorbed:
  assumes "sha256_absorbed ctx msg" and "length msg + length bytes \<le> sha256_limit"
  obtains ctx' where "yvex_sha256_update (Some ctx) (Some bytes) (length bytes) = (True, Some ctx')"
    and "sha256_absorbed ctx' (msg @ bytes)"
proof -
  let ?c = "ctx\<lparr>sha_length := sha_length ctx + of_nat (length bytes)\<rparr>"
  have ready: "absorb_ready ?c" using assms(1) by (simp add: sha256_absorbed_def absorb_ready_def)
  note run = sha256_absorb_run [OF ready, of bytes]
  have "\<not> ULLONG_MAX div 8 - sha_length ctx < of_nat (length bytes)"
    using assms length_guard_iff [of "length msg" "length bytes"] by (simp add: sha256_absorbed_def)
  then have "yvex_sha256_update (Some ctx) (Some bytes) (length bytes) = (True, Some (sha256_absorb ?c bytes))"
    using assms(1) by (simp add: yvex_sha256_update_def sha256_absorbed_def)
  moreover have "sha256_run sha256_initial_state (msg @ bytes) =
      sha256_run (sha_state ctx) (pending ctx @ bytes)"
    using assms(1) by (intro sha256_run_append) (simp add: sha256_absorbed_def)
  then have "sha256_absorbed (sha256_absorb ?c bytes) (msg @ bytes)"
    using assms run by (simp add: sha256_absorbed_def absorb_ready_def)
  ultimately show ?thesis by (rule that)
qed

lemma sha256_update_refused:
  assumes "sha256_absorbed ctx msg" and "sha256_limit < length msg + length bytes"
    and "length bytes < 2 ^ 64"
  shows "yvex_sha256_update (Some ctx) (Some bytes) (length bytes) = (False, Some ctx)"
  using assms length_guard_iff [of "length msg" "length bytes"]
  by (simp add: yvex_sha256_update_def sha256_absorbed_def)

lemma length_be_bytes64 [simp]: "length (be_bytes64 v) = 8"
  by (simp add: be_bytes64_def)

lemma sha256_compress_one:
  "length b = 64 \<Longrightarrow> sha256_run st b = (sha256_compress st b, [])"
  using sha256_run_block [of b st "[]"] by (simp add: sha256_run_short)

lemma final_single_block:
  assumes "length block = 64" and "used \<le> 55"
  shows "overwrite (overwrite (block[used := 0x80]) (Suc used) (replicate (55 - used) 0)) 56 len8 =
    take used block @ 0x80 # replicate (55 - used) 0 @ len8 @ drop (length len8 + 56) block"
  using assms
  by (auto simp: overwrite_def take_Suc_conv_app_nth min_def take_Cons' drop_Cons')

lemma final_two_blocks:
  assumes "length block = 64" and "55 < used" and "used < 64"
  shows "overwrite (block[used := 0x80]) (Suc used) (replicate (63 - used) 0) =
    take used block @ 0x80 # replicate (63 - used) (0 :: u8)"
  using assms by (auto simp: overwrite_def take_Suc_conv_app_nth)

lemma pad_zeros:
  fixes u n :: nat
  assumes "u = n mod 64"
  shows "u \<le> 55 \<Longrightarrow> (119 - n mod 64) mod 64 = 55 - u"
    and "55 < u \<Longrightarrow> (119 - n mod 64) mod 64 = (63 - u) + 56"
proof -
  have "u < 64" using assms by simp
  show "u \<le> 55 \<Longrightarrow> (119 - n mod 64) mod 64 = 55 - u"
    using assms by (simp add: le_mod_geq)
  show "55 < u \<Longrightarrow> (119 - n mod 64) mod 64 = (63 - u) + 56"
    using assms \<open>u < 64\<close> by simp
qed

text \<open>The digest of a context: the two shapes of the last block are the two shapes of the padding.\<close>

lemma sha256_final_digest:
  assumes "sha256_absorbed ctx msg"
  obtains ctx' where "yvex_sha256_final (Some ctx) = Some (sha256_digest msg, ctx')"
    and "sha_finalized ctx'"
proof -
  let ?u = "sha_used ctx" and ?b = "sha_block ctx" and ?len = "be_bytes64 (sha_length ctx * 8)"
  note inv = assms [unfolded sha256_absorbed_def]
  have blk: "length ?b = 64" "?u < 64" using inv by simp_all
  have u: "?u = length msg mod 64" using inv sha256_run_rest by fastforce
  have len: "?len = be_bytes64 (of_nat (length msg) * 8)" using inv by simp
  have unat_len: "unat (sha_length ctx) \<le> sha256_limit"
    using inv unat_eq_of_nat_u64 [of "length msg"] by simp
  then have guard: "\<not> sha_length ctx > ULLONG_MAX div 8" "\<not> sha_finalized ctx"
    using inv sha_limit_word by (simp_all add: word_less_nat_alt)
  have run: "sha256_run sha256_initial_state (msg @ ys) = sha256_run (sha_state ctx) (pending ctx @ ys)" for ys
    using inv by (intro sha256_run_append) simp
  let ?padded = "pending ctx @ 0x80 # replicate ((119 - length msg mod 64) mod 64) 0 @ ?len"
  have digest: "sha256_digest msg = state_bytes (fst (sha256_run (sha_state ctx) ?padded))"
    using run len by (simp add: sha256_digest_def sha256_pad_def)
  show ?thesis
  proof (cases "?u \<le> 55")
    case True
    let ?last = "pending ctx @ 0x80 # replicate (55 - ?u) 0 @ ?len"
    have last: "length ?last = 64" using blk True by simp
    have pad: "?padded = ?last" using pad_zeros(1) [OF u True] by simp
    have "yvex_sha256_final (Some ctx) =
      Some (state_bytes (sha256_compress (sha_state ctx) ?last),
        ctx\<lparr>sha_state := sha256_compress (sha_state ctx) ?last, sha_block := replicate 64 0,
            sha_used := 0, sha_finalized := True\<rparr>)"
      using guard True blk final_single_block [of ?b ?u ?len]
      by (simp add: yvex_sha256_final_def Let_def sha256_transform_def)
    moreover have "sha256_digest msg = state_bytes (sha256_compress (sha_state ctx) ?last)"
      using digest pad sha256_compress_one [OF last, of "sha_state ctx"] by simp
    ultimately show ?thesis by (intro that) (simp, simp)
  next
    case False
    let ?first = "pending ctx @ 0x80 # replicate (63 - ?u) 0"
    let ?last = "replicate 56 0 @ ?len"
    have lens: "length ?first = 64" "length ?last = 64" using blk False by simp_all
    have pad: "?padded = ?first @ ?last"
      using pad_zeros(2) [OF u] False by (simp add: replicate_add)
    have ow: "overwrite (overwrite (?first) 0 (replicate 56 0)) 56 ?len = ?last"
      using lens by (simp add: overwrite_def)
    have two: "overwrite (?b[?u := 0x80]) (Suc ?u) (replicate (63 - ?u) 0) = ?first"
      using final_two_blocks [of ?b ?u] blk False by simp
    let ?st = "sha256_compress (sha256_compress (sha_state ctx) ?first) ?last"
    have "yvex_sha256_final (Some ctx) = Some (state_bytes ?st,
        ctx\<lparr>sha_state := ?st, sha_block := replicate 64 0, sha_used := 0, sha_finalized := True\<rparr>)"
      using guard False blk ow two
      by (simp add: yvex_sha256_final_def Let_def sha256_transform_def)
    moreover have "sha256_digest msg = state_bytes ?st"
      using digest pad sha256_compress_one [OF lens(2)]
        sha256_run_block [OF lens(1), of "sha_state ctx" ?last] by simp
    ultimately show ?thesis by (intro that) (simp, simp)
  qed
qed

section \<open>The contract of an incremental hash\<close>

text \<open>
  What the identity owners of the program rely on: a context stands for the bytes it has absorbed,
  an update appends to them as long as the length limit allows, and finishing yields a digest that
  depends on those bytes only.
\<close>

fun update_chunks :: "('c \<Rightarrow> u8 list \<Rightarrow> 'c option) \<Rightarrow> 'c \<Rightarrow> u8 list list \<Rightarrow> 'c option" where
  "update_chunks update c [] = Some c"
| "update_chunks update c (b # bs) =
     (case update c b of None \<Rightarrow> None | Some c' \<Rightarrow> update_chunks update c' bs)"

locale incremental_hash =
  fixes start :: 'c
    and update :: "'c \<Rightarrow> u8 list \<Rightarrow> 'c option"
    and finish :: "'c \<Rightarrow> u8 list option"
    and absorbed :: "'c \<Rightarrow> u8 list \<Rightarrow> bool"
    and digest_of :: "u8 list \<Rightarrow> u8 list"
    and limit :: nat
  assumes start_absorbed: "absorbed start []"
    and update_absorbed: "absorbed c m \<Longrightarrow> length m + length b \<le> limit \<Longrightarrow>
      \<exists>c'. update c b = Some c' \<and> absorbed c' (m @ b)"
    and finish_digest: "absorbed c m \<Longrightarrow> finish c = Some (digest_of m)"
begin

lemma update_chunks_absorbed:
  "absorbed c m \<Longrightarrow> length m + length (concat bs) \<le> limit \<Longrightarrow>
     \<exists>c'. update_chunks update c bs = Some c' \<and> absorbed c' (m @ concat bs)"
proof (induction bs arbitrary: c m)
  case Nil
  then show ?case by simp
next
  case (Cons b bs)
  then obtain c' where c': "update c b = Some c'" "absorbed c' (m @ b)"
    using update_absorbed [of c m b] by auto
  with Cons.IH [of c' "m @ b"] Cons.prems show ?case by auto
qed

lemma chunked_digest:
  "length (concat bs) \<le> limit \<Longrightarrow>
     \<exists>c. update_chunks update start bs = Some c \<and> finish c = Some (digest_of (concat bs))"
  using update_chunks_absorbed [OF start_absorbed, of bs] finish_digest by auto

end

definition sha256_update_bytes :: "yvex_sha256 \<Rightarrow> u8 list \<Rightarrow> yvex_sha256 option" where
  "sha256_update_bytes ctx bytes =
     (case yvex_sha256_update (Some ctx) (Some bytes) (length bytes) of
        (True, c) \<Rightarrow> c | (False, _) \<Rightarrow> None)"

definition sha256_finish :: "yvex_sha256 \<Rightarrow> u8 list option" where
  "sha256_finish ctx = map_option fst (yvex_sha256_final (Some ctx))"

interpretation sha: incremental_hash yvex_sha256_init sha256_update_bytes sha256_finish
  sha256_absorbed sha256_digest sha256_limit
proof unfold_locales
  show "sha256_absorbed yvex_sha256_init []" by (rule sha256_init_absorbed)
next
  fix c :: yvex_sha256 and m b :: "u8 list"
  assume "sha256_absorbed c m" "length m + length b \<le> sha256_limit"
  then obtain c' where "yvex_sha256_update (Some c) (Some b) (length b) = (True, Some c')"
    "sha256_absorbed c' (m @ b)" by (rule sha256_update_absorbed)
  then show "\<exists>c'. sha256_update_bytes c b = Some c' \<and> sha256_absorbed c' (m @ b)"
    by (simp add: sha256_update_bytes_def)
next
  fix c :: yvex_sha256 and m :: "u8 list"
  assume "sha256_absorbed c m"
  then obtain c' where "yvex_sha256_final (Some c) = Some (sha256_digest m, c')"
    by (rule sha256_final_digest)
  then show "sha256_finish c = Some (sha256_digest m)" by (simp add: sha256_finish_def)
qed

text \<open>
  (C6) Feeding a message to a fresh context in any chunking gives, on finalisation, the SHA-256
  digest of the whole message (one padding and one compression per 64-byte block): the buffering
  of partial blocks and the two shapes of the last block are invisible to callers.
\<close>

theorem sha256_chunking_invisible:
  assumes "length (concat chunks) \<le> sha256_limit"
  shows "\<exists>ctx. update_chunks sha256_update_bytes yvex_sha256_init chunks = Some ctx \<and>
    sha256_finish ctx = Some (sha256_digest (concat chunks))"
  using assms by (rule sha.chunked_digest)

theorem sha256_chunking_invisible_witness:
  "\<exists>ctx. update_chunks sha256_update_bytes yvex_sha256_init [[0x61], [], [0x62, 0x63]] = Some ctx \<and>
    sha256_finish ctx = Some (sha256_digest [0x61, 0x62, 0x63])"
proof -
  have "length (concat [[0x61 :: u8], [], [0x62, 0x63]]) \<le> sha256_limit" by simp
  from sha256_chunking_invisible [OF this] show ?thesis by simp
qed



section \<open>Identity encodings\<close>

definition le_bytes64 :: "u64 \<Rightarrow> u8 list" where
  "le_bytes64 v = map (\<lambda>index. ucast (drop_bit (index * 8) v AND 0xff)) [0..<8]"

definition text_bytes :: "string \<Rightarrow> u8 list" where
  "text_bytes = map of_char"

definition yvex_sha256_update_u64 :: "yvex_sha256 option \<Rightarrow> u64 \<Rightarrow> bool \<times> yvex_sha256 option" where
  "yvex_sha256_update_u64 context v = yvex_sha256_update context (Some (le_bytes64 v)) 8"

definition yvex_sha256_update_text ::
  "yvex_sha256 option \<Rightarrow> string option \<Rightarrow> bool \<times> yvex_sha256 option" where
  "yvex_sha256_update_text context text =
     (let n = (case text of None \<Rightarrow> 0 | Some t \<Rightarrow> length t) in
      case yvex_sha256_update_u64 context (of_nat n) of
        (True, context) \<Rightarrow> yvex_sha256_update context (map_option text_bytes text) n
      | (False, context) \<Rightarrow> (False, context))"

text \<open>
  A sequence of identity fields, as the sealing functions feed them one after the other with
  \<^verbatim>\<open>&&\<close>.
\<close>

datatype identity_field = U64_field u64 | Text_field "string"

fun sha256_update_field :: "yvex_sha256 option \<Rightarrow> identity_field \<Rightarrow> bool \<times> yvex_sha256 option" where
  "sha256_update_field context (U64_field v) = yvex_sha256_update_u64 context v"
| "sha256_update_field context (Text_field t) = yvex_sha256_update_text context (Some t)"

fun sha256_update_fields ::
  "yvex_sha256 option \<Rightarrow> identity_field list \<Rightarrow> bool \<times> yvex_sha256 option" where
  "sha256_update_fields context [] = (True, context)"
| "sha256_update_fields context (f # fs) =
     (case sha256_update_field context f of
        (True, context) \<Rightarrow> sha256_update_fields context fs
      | (False, context) \<Rightarrow> (False, context))"

fun encode_field :: "identity_field \<Rightarrow> u8 list" where
  "encode_field (U64_field v) = le_bytes64 v"
| "encode_field (Text_field t) = le_bytes64 (of_nat (length t)) @ text_bytes t"

definition encode_fields :: "identity_field list \<Rightarrow> u8 list" where
  "encode_fields fs = concat (map encode_field fs)"

fun field_kind :: "identity_field \<Rightarrow> bool" where
  "field_kind (U64_field _) = False"
| "field_kind (Text_field _) = True"

fun field_bounded :: "identity_field \<Rightarrow> bool" where
  "field_bounded (U64_field _) = True"
| "field_bounded (Text_field t) = (length t < 2 ^ 64)"

lemma length_le_bytes64 [simp]: "length (le_bytes64 v) = 8"
  by (simp add: le_bytes64_def)

lemma length_text_bytes [simp]: "length (text_bytes t) = length t"
  by (simp add: text_bytes_def)

lemma byte_mask: "(x :: u64) AND 0xff = take_bit 8 x"
  by (simp add: take_bit_eq_mask mask_eq_exp_minus_1)

lemma le_bytes64_inj: "le_bytes64 v = le_bytes64 w \<Longrightarrow> v = w"
proof (rule bit_word_eqI)
  fix n
  assume eq: "le_bytes64 v = le_bytes64 w" and "n < LENGTH(64)"
  then have i: "n div 8 < 8" by simp
  from eq have "le_bytes64 v ! (n div 8) = le_bytes64 w ! (n div 8)" by simp
  then have "(ucast (drop_bit (n div 8 * 8) v AND 0xff) :: u8) = ucast (drop_bit (n div 8 * 8) w AND 0xff)"
    using i by (simp add: le_bytes64_def)
  then have "bit (ucast (drop_bit (n div 8 * 8) v AND 0xff) :: u8) (n mod 8) =
      bit (ucast (drop_bit (n div 8 * 8) w AND 0xff) :: u8) (n mod 8)" by simp
  then show "bit v n = bit w n"
    by (simp add: bit_simps byte_mask)
qed

lemma unat_of_char: "unat (of_char c :: u8) = of_char c"
proof -
  have "(of_char c :: u8) = of_nat (of_char c)" by (simp only: of_nat_of_char)
  moreover have "(of_char c :: nat) < 256" by simp
  ultimately show ?thesis by (simp only: unat_of_nat) simp
qed

lemma of_char_u8_inj: "inj (of_char :: char \<Rightarrow> u8)"
  by (rule injI) (metis unat_of_char of_char_eq_iff)

lemma text_bytes_inj: "text_bytes s = text_bytes t \<Longrightarrow> s = t"
  unfolding text_bytes_def using of_char_u8_inj by (rule map_injective [rotated])

lemma encode_field_unambiguous:
  assumes "field_kind f = field_kind g" and "field_bounded f" and "field_bounded g"
    and "encode_field f @ xs = encode_field g @ ys"
  shows "f = g \<and> xs = ys"
proof (cases f)
  case (U64_field v)
  then obtain w where "g = U64_field w" using assms(1) by (cases g) simp_all
  with U64_field assms(4) show ?thesis by (auto simp: append_eq_append_conv dest: le_bytes64_inj)
next
  case (Text_field s)
  then obtain t where g: "g = Text_field t" using assms(1) by (cases g) simp_all
  with Text_field assms(4)
  have len: "le_bytes64 (of_nat (length s)) = le_bytes64 (of_nat (length t))"
    and rest: "text_bytes s @ xs = text_bytes t @ ys"
    by (simp_all add: append_eq_append_conv)
  have "(of_nat (length s) :: u64) = of_nat (length t)" using len by (rule le_bytes64_inj)
  then have "length s = length t"
    using assms(2,3) Text_field g unat_eq_of_nat_u64 by (metis field_bounded.simps(2))
  with rest have "text_bytes s = text_bytes t \<and> xs = ys" by (simp add: append_eq_append_conv)
  with Text_field g show ?thesis by (auto dest: text_bytes_inj)
qed

lemma encode_fields_inject:
  assumes "map field_kind fs = map field_kind gs"
    and "list_all field_bounded fs" and "list_all field_bounded gs"
    and "encode_fields fs = encode_fields gs"
  shows "fs = gs"
proof -
  have "fs = gs \<and> xs = ys"
    if "map field_kind fs = map field_kind gs" "list_all field_bounded fs" "list_all field_bounded gs"
      "encode_fields fs @ xs = encode_fields gs @ ys" for fs gs xs ys
    using that
  proof (induction fs arbitrary: gs)
    case Nil
    then show ?case by (simp add: encode_fields_def)
  next
    case (Cons f fs)
    then obtain g gs' where gs: "gs = g # gs'" by (cases gs) simp_all
    with Cons.prems have "f = g \<and> encode_fields fs @ xs = encode_fields gs' @ ys"
      by (intro encode_field_unambiguous) (simp_all add: encode_fields_def)
    with Cons gs show ?case by auto
  qed
  from this [of fs gs "[]" "[]"] assms show ?thesis by simp
qed

lemma update_bytes_absorbed:
  assumes "sha256_absorbed ctx msg" and "length msg + length bytes \<le> sha256_limit"
    and "n = length bytes"
  shows "\<exists>ctx'. yvex_sha256_update (Some ctx) (Some bytes) n = (True, Some ctx') \<and>
    sha256_absorbed ctx' (msg @ bytes)"
proof -
  obtain ctx' where "yvex_sha256_update (Some ctx) (Some bytes) (length bytes) = (True, Some ctx')"
    "sha256_absorbed ctx' (msg @ bytes)"
    by (rule sha256_update_absorbed [OF assms(1,2)])
  with assms(3) show ?thesis by simp
qed

lemma update_field_absorbed:
  assumes "sha256_absorbed ctx msg" and "length msg + length (encode_field f) \<le> sha256_limit"
  shows "\<exists>ctx'. sha256_update_field (Some ctx) f = (True, Some ctx') \<and>
    sha256_absorbed ctx' (msg @ encode_field f)"
proof (cases f)
  case (U64_field v)
  have "length msg + length (le_bytes64 v) \<le> sha256_limit" using assms U64_field by simp
  from update_bytes_absorbed [OF assms(1) this, of 8] show ?thesis
    by (simp add: U64_field yvex_sha256_update_u64_def)
next
  case (Text_field t)
  let ?n = "le_bytes64 (of_nat (length t))"
  have n: "length msg + length ?n \<le> sha256_limit" using assms Text_field by simp
  have t: "length (msg @ ?n) + length (text_bytes t) \<le> sha256_limit" using assms Text_field by simp
  obtain c1 where c1: "yvex_sha256_update (Some ctx) (Some ?n) 8 = (True, Some c1)"
    and a1: "sha256_absorbed c1 (msg @ ?n)"
    using update_bytes_absorbed [OF assms(1) n, of 8] by (simp add: conj_commute) blast
  obtain c2 where c2: "yvex_sha256_update (Some c1) (Some (text_bytes t)) (length t) = (True, Some c2)"
    and a2: "sha256_absorbed c2 ((msg @ ?n) @ text_bytes t)"
    using update_bytes_absorbed [OF a1 t, of "length t"] by (simp add: conj_commute) blast
  from c1 c2 a2 show ?thesis
    by (simp add: Text_field yvex_sha256_update_text_def yvex_sha256_update_u64_def)
qed

lemma update_fields_absorbed:
  "sha256_absorbed ctx msg \<Longrightarrow> length msg + length (encode_fields fs) \<le> sha256_limit \<Longrightarrow>
     \<exists>ctx'. sha256_update_fields (Some ctx) fs = (True, Some ctx') \<and>
       sha256_absorbed ctx' (msg @ encode_fields fs)"
proof (induction fs arbitrary: ctx msg)
  case Nil
  then show ?case by (simp add: encode_fields_def)
next
  case (Cons f fs)
  then have "length msg + length (encode_field f) \<le> sha256_limit" by (simp add: encode_fields_def)
  with Cons.prems(1) obtain c1 where c1: "sha256_update_field (Some ctx) f = (True, Some c1)"
    "sha256_absorbed c1 (msg @ encode_field f)"
    using update_field_absorbed by blast
  moreover have "length (msg @ encode_field f) + length (encode_fields fs) \<le> sha256_limit"
    using Cons.prems(2) by (simp add: encode_fields_def)
  ultimately obtain c2 where "sha256_update_fields (Some c1) fs = (True, Some c2)"
    "sha256_absorbed c2 ((msg @ encode_field f) @ encode_fields fs)"
    using Cons.IH by blast
  with c1 show ?case by (simp add: encode_fields_def)
qed

text \<open>
  (C7) Identities are unambiguous: two sequences of fields of the same schema (the same kinds in the
  same order) are both accepted by the hash, and what it absorbs for them is the same only if they are
  the same sequence.  No text can run into its neighbour.
\<close>

theorem identity_encoding_injective:
  assumes "map field_kind fs = map field_kind gs"
    and "list_all field_bounded fs" and "list_all field_bounded gs"
    and "length (encode_fields fs) \<le> sha256_limit" and "length (encode_fields gs) \<le> sha256_limit"
  shows "\<exists>c d msg msg'. sha256_update_fields (Some yvex_sha256_init) fs = (True, Some c) \<and> sha256_absorbed c msg \<and>
    sha256_update_fields (Some yvex_sha256_init) gs = (True, Some d) \<and> sha256_absorbed d msg' \<and> (msg = msg' \<longleftrightarrow> fs = gs)"
proof -
  obtain c d where "sha256_update_fields (Some yvex_sha256_init) fs = (True, Some c)" "sha256_absorbed c (encode_fields fs)"
    "sha256_update_fields (Some yvex_sha256_init) gs = (True, Some d)" "sha256_absorbed d (encode_fields gs)"
    using update_fields_absorbed [OF sha256_init_absorbed, of fs] update_fields_absorbed [OF sha256_init_absorbed, of gs]
      assms(4,5) by auto
  moreover have "encode_fields fs = encode_fields gs \<longleftrightarrow> fs = gs" using encode_fields_inject [OF assms(1-3)] by blast
  ultimately show ?thesis by blast
qed

theorem identity_encoding_injective_witness:
  "\<exists>c d msg msg'. sha256_update_fields (Some yvex_sha256_init) [Text_field ''ab'', Text_field ''c''] = (True, Some c) \<and>
     sha256_absorbed c msg \<and>
     sha256_update_fields (Some yvex_sha256_init) [Text_field ''a'', Text_field ''bc''] = (True, Some d) \<and>
     sha256_absorbed d msg' \<and> msg \<noteq> msg'"
  using identity_encoding_injective [of "[Text_field ''ab'', Text_field ''c'']" "[Text_field ''a'', Text_field ''bc'']"]
  by (simp add: encode_fields_def)

section \<open>Hexadecimal digests\<close>

definition hex_alphabet :: string where
  "hex_alphabet = ''0123456789abcdef''"

definition yvex_sha256_hex :: "u8 list \<Rightarrow> string" where
  "yvex_sha256_hex digest =
     concat (map (\<lambda>b. [hex_alphabet ! unat (drop_bit 4 b), hex_alphabet ! unat (b AND 0x0f)]) digest)"

definition isxdigit :: "char \<Rightarrow> bool" where
  "isxdigit c \<longleftrightarrow> c \<in> set ''0123456789abcdefABCDEF''"

definition yvex_sha256_hex_valid :: "string option \<Rightarrow> bool" where
  "yvex_sha256_hex_valid text =
     (case text of
        None \<Rightarrow> False
      | Some t \<Rightarrow> list_all (\<lambda>index. index < length t \<and> isxdigit (t ! index)) [0..<64] \<and> length t = 64)"

lemma hex_valid_iff:
  "yvex_sha256_hex_valid (Some t) \<longleftrightarrow> length t = 64 \<and> (\<forall>c \<in> set t. isxdigit c)"
  by (auto simp: yvex_sha256_hex_valid_def list_all_iff all_set_conv_all_nth)

lemma nibble_bounds: "unat (drop_bit 4 (b :: u8)) < 16" "unat (b AND 0x0f :: u8) < 16"
proof -
  show "unat (drop_bit 4 b) < 16"
    using unsigned_less [of b, where ?'a = nat] by (simp add: drop_bit_eq_div unat_div less_mult_imp_div_less)
  have "unat (b AND 0x0f) \<le> unat (0x0f :: u8)"
    by (rule word_and_le1 [THEN word_le_nat_alt [THEN iffD1]])
  then show "unat (b AND 0x0f) < 16" by simp
qed

lemma hex_alphabet_facts:
  "length hex_alphabet = 16" "distinct hex_alphabet" "\<forall>c \<in> set hex_alphabet. isxdigit c"
  by (simp_all add: hex_alphabet_def isxdigit_def)

lemma hex_alphabet_nth: "n < 16 \<Longrightarrow> isxdigit (hex_alphabet ! n)"
  using hex_alphabet_facts by (metis nth_mem)

lemma hex_alphabet_inj: "m < 16 \<Longrightarrow> n < 16 \<Longrightarrow> hex_alphabet ! m = hex_alphabet ! n \<Longrightarrow> m = n"
  using hex_alphabet_facts by (metis nth_eq_iff_index_eq)

lemma byte_from_nibbles:
  "drop_bit 4 (a :: u8) = drop_bit 4 b \<Longrightarrow> a AND 0x0f = b AND 0x0f \<Longrightarrow> a = b"
proof (rule bit_word_eqI)
  fix n
  assume hi: "drop_bit 4 a = drop_bit 4 b" and lo: "a AND 0x0f = b AND 0x0f" and "n < LENGTH(8)"
  have low: "x AND 0x0f = take_bit 4 x" for x :: u8
    by (simp add: take_bit_eq_mask mask_eq_exp_minus_1)
  have "bit (drop_bit 4 a) (n - 4) = bit (drop_bit 4 b) (n - 4)" using hi by simp
  moreover have "bit (take_bit 4 a) n = bit (take_bit 4 b) n" using lo low by simp
  ultimately show "bit a n = bit b n" by (cases "n < 4") (auto simp: bit_simps)
qed

lemma length_state_bytes: "length (state_bytes st) = 4 * length st"
  by (induction st) (simp_all add: state_bytes_def)

lemma length_yvex_sha256_hex: "length (yvex_sha256_hex d) = 2 * length d"
  by (induction d) (simp_all add: yvex_sha256_hex_def)

lemma yvex_sha256_hex_xdigits: "c \<in> set (yvex_sha256_hex d) \<Longrightarrow> isxdigit c"
  by (auto simp: yvex_sha256_hex_def intro: hex_alphabet_nth nibble_bounds)

text \<open>
  (C14) The rendering of a 32-byte digest always passes the validity test that guards every
  identity, and two digests with the same rendering are equal.
\<close>

theorem sha256_hex_valid_injective:
  assumes "length d = 32"
  shows "yvex_sha256_hex_valid (Some (yvex_sha256_hex d)) \<and>
    (\<forall>e. yvex_sha256_hex e = yvex_sha256_hex d \<longrightarrow> e = d)"
proof -
  have "e = d" if "yvex_sha256_hex e = yvex_sha256_hex d" for e d
    using that
  proof (induction e arbitrary: d)
    case Nil
    then show ?case by (cases d) (simp_all add: yvex_sha256_hex_def)
  next
    case (Cons a e)
    then obtain b d' where d: "d = b # d'" by (cases d) (simp_all add: yvex_sha256_hex_def)
    with Cons.prems
    have "hex_alphabet ! unat (drop_bit 4 a) = hex_alphabet ! unat (drop_bit 4 b)"
      "hex_alphabet ! unat (a AND 0x0f) = hex_alphabet ! unat (b AND 0x0f)"
      "yvex_sha256_hex e = yvex_sha256_hex d'" by (simp_all add: yvex_sha256_hex_def)
    with nibble_bounds [of a] nibble_bounds [of b] Cons.IH [of d']
    have "unat (drop_bit 4 a) = unat (drop_bit 4 b)" "unat (a AND 0x0f) = unat (b AND 0x0f)" "e = d'"
      using hex_alphabet_inj by blast+
    with d show ?case using byte_from_nibbles [of a b] by (simp add: word_unat_eq_iff)
  qed
  then show ?thesis
    using assms by (auto simp: hex_valid_iff length_yvex_sha256_hex dest: yvex_sha256_hex_xdigits)
qed

theorem sha256_hex_valid_injective_witness:
  "yvex_sha256_hex_valid (Some (yvex_sha256_hex (replicate 32 0xa5)))"
proof -
  have "length (replicate 32 (0xa5 :: u8)) = 32" by simp
  from sha256_hex_valid_injective [OF this] show ?thesis by blast
qed

section \<open>Identities\<close>

text \<open>
  The identity of a sequence of fields, as \<open>yvex_sha256_init\<close>, the updates, \<open>yvex_sha256_final\<close> and
  \<open>yvex_sha256_hex\<close> compute it in the sealing functions; \<open>None\<close> where one of the calls returns zero.
\<close>

definition sha256_identity :: "identity_field list \<Rightarrow> string option" where
  "sha256_identity fs =
     (case sha256_update_fields (Some yvex_sha256_init) fs of
        (True, context) \<Rightarrow> map_option (yvex_sha256_hex \<circ> fst) (yvex_sha256_final context)
      | (False, _) \<Rightarrow> None)"

lemma length_sha256_compress [simp]: "length (sha256_compress st b) = 8"
  by (simp add: sha256_compress_def split: prod.splits)

lemma length_sha256_run: "length st = 8 \<Longrightarrow> length (fst (sha256_run st xs)) = 8"
proof (induction st xs rule: sha256_run.induct)
  case (1 st xs)
  then show ?case by (cases "length xs < 64") (simp_all add: sha256_run.simps [of st xs])
qed

lemma length_sha256_digest [simp]: "length (sha256_digest msg) = 32"
  by (simp add: sha256_digest_def length_state_bytes length_sha256_run sha256_initial_state_def)

lemma sha256_identity_eq:
  assumes "length (encode_fields fs) \<le> sha256_limit"
  shows "sha256_identity fs = Some (yvex_sha256_hex (sha256_digest (encode_fields fs)))"
proof -
  obtain ctx where ctx: "sha256_update_fields (Some yvex_sha256_init) fs = (True, Some ctx)"
    "sha256_absorbed ctx (encode_fields fs)"
    using update_fields_absorbed [OF sha256_init_absorbed, of fs] assms by auto
  obtain ctx' where "yvex_sha256_final (Some ctx) = Some (sha256_digest (encode_fields fs), ctx')"
    by (rule sha256_final_digest [OF ctx(2)])
  with ctx show ?thesis by (simp add: sha256_identity_def)
qed

lemma hex_digest_valid: "yvex_sha256_hex_valid (Some (yvex_sha256_hex (sha256_digest m)))"
  by (auto simp: hex_valid_iff length_yvex_sha256_hex dest: yvex_sha256_hex_xdigits)

end
