(* ===== verification/Core_Shard_Index.thy ===== *)
theory Core_Shard_Index
  imports Core_Status
begin

text \<open>
  \<^verbatim>\<open>src/core/shard_index.c\<close>: admission of an immutable array of shard keys and its binary search.
  The index is shown to be a finite map from keys to positions: admission accepts exactly the
  strictly increasing, canonically numbered arrays, and the search finds a key exactly when it is
  present, within a logarithmic number of comparisons.
\<close>

section \<open>Byte order of C strings\<close>

text \<open>The sign of \<^verbatim>\<open>strcmp\<close>: lexicographic on unsigned characters.\<close>

definition char_code :: "char \<Rightarrow> nat" where
  "char_code c = of_char c"

lemma char_code_eq [simp]: "char_code a = char_code b \<longleftrightarrow> a = b"
  by (simp add: char_code_def)

fun strcmp :: "string \<Rightarrow> string \<Rightarrow> int" where
  "strcmp [] [] = 0"
| "strcmp [] (_ # _) = -1"
| "strcmp (_ # _) [] = 1"
| "strcmp (a # as) (b # bs) =
     (if char_code a < char_code b then -1
      else if char_code b < char_code a then 1 else strcmp as bs)"

lemma strcmp_Cons_less:
  "strcmp (a # as) (b # bs) < 0 \<longleftrightarrow> char_code a < char_code b \<or> (a = b \<and> strcmp as bs < 0)"
  using char_code_eq [of a b] by (auto simp del: char_code_eq)

lemma strcmp_refl [simp]: "strcmp s s = 0"
  by (induction s) simp_all

lemma strcmp_eq_0 [simp]: "strcmp s t = 0 \<longleftrightarrow> s = t"
proof
  show "strcmp s t = 0 \<Longrightarrow> s = t"
  proof (induction s t rule: strcmp.induct)
    case (4 a as b bs)
    then have "char_code a = char_code b" "strcmp as bs = 0" by (simp_all split: if_splits)
    with 4 show ?case by simp
  qed simp_all
qed simp

lemma strcmp_swap: "strcmp s t = - strcmp t s"
  by (induction s t rule: strcmp.induct) auto

lemma strcmp_less_trans: "strcmp s t < 0 \<Longrightarrow> strcmp t u < 0 \<Longrightarrow> strcmp s u < 0"
proof (induction s t arbitrary: u rule: strcmp.induct)
  case (2 b bs)
  then show ?case by (cases u) auto
next
  case (4 a as b bs)
  show ?case
  proof (cases u)
    case (Cons c cs)
    have "a = b \<Longrightarrow> strcmp as bs < 0 \<Longrightarrow> strcmp bs cs < 0 \<Longrightarrow> strcmp as cs < 0"
      using "4.IH" by simp
    moreover note "4.prems"
    ultimately show ?thesis
      unfolding Cons strcmp_Cons_less by (metis order.strict_trans)
  qed (use 4 in simp)
qed simp_all

lemma strcmp_total: "s \<noteq> t \<Longrightarrow> strcmp s t < 0 \<or> strcmp t s < 0"
  using strcmp_eq_0 [of s t] strcmp_swap [of s t] by linarith

section \<open>The index\<close>

record yvex_shard_index_entry =
  canonical_id :: nat
  canonical_key :: "string option"

datatype yvex_shard_index_result =
    YVEX_SHARD_INDEX_OK | YVEX_SHARD_INDEX_INVALID | YVEX_SHARD_INDEX_DUPLICATE_ID
  | YVEX_SHARD_INDEX_DUPLICATE_KEY | YVEX_SHARD_INDEX_NONCANONICAL_ORDER | YVEX_SHARD_INDEX_BUDGET

text \<open>The cleared index has a null entry array and count zero; an admitted one borrows the array.\<close>

record yvex_shard_index =
  idx_entries :: "yvex_shard_index_entry list option"
  idx_count :: nat

definition yvex_shard_index_reset :: "yvex_shard_index" where
  "yvex_shard_index_reset = \<lparr>idx_entries = None, idx_count = 0\<rparr>"

definition key_at :: "yvex_shard_index_entry list \<Rightarrow> nat \<Rightarrow> string" where
  "key_at entries i = the (canonical_key (entries ! i))"

text \<open>The checks of one iteration of the admission loop.\<close>

definition shard_entry_check :: "yvex_shard_index_entry list \<Rightarrow> nat \<Rightarrow> yvex_shard_index_result" where
  "shard_entry_check entries ordinal =
     (if canonical_key (entries ! ordinal) = None \<or> canonical_key (entries ! ordinal) = Some []
      then YVEX_SHARD_INDEX_INVALID
      else if canonical_id (entries ! ordinal) \<noteq> ordinal then YVEX_SHARD_INDEX_DUPLICATE_ID
      else if ordinal \<noteq> 0 then
        (let order = strcmp (key_at entries (ordinal - 1)) (key_at entries ordinal) in
         if order = 0 then YVEX_SHARD_INDEX_DUPLICATE_KEY
         else if order > 0 then YVEX_SHARD_INDEX_NONCANONICAL_ORDER
         else YVEX_SHARD_INDEX_OK)
      else YVEX_SHARD_INDEX_OK)"

fun shard_entries_check ::
  "yvex_shard_index_entry list \<Rightarrow> nat \<Rightarrow> nat \<Rightarrow> yvex_shard_index_result" where
  "shard_entries_check entries ordinal 0 = YVEX_SHARD_INDEX_OK"
| "shard_entries_check entries ordinal (Suc remaining) =
     (case shard_entry_check entries ordinal of
        YVEX_SHARD_INDEX_OK \<Rightarrow> shard_entries_check entries (Suc ordinal) remaining
      | refused \<Rightarrow> refused)"

text \<open>
  \<open>index\<close> says whether the output pointer is non-null; the returned index is what it holds
  afterwards (cleared on every refusal).
\<close>

definition yvex_shard_index_init ::
  "bool \<Rightarrow> yvex_shard_index_entry list option \<Rightarrow> nat \<Rightarrow> nat \<Rightarrow>
   yvex_shard_index_result \<times> yvex_shard_index" where
  "yvex_shard_index_init index entries n maximum_entries =
     (case entries of
        None \<Rightarrow> (YVEX_SHARD_INDEX_INVALID, yvex_shard_index_reset)
      | Some es \<Rightarrow>
          if \<not> index \<or> n = 0 \<or> maximum_entries = 0
          then (YVEX_SHARD_INDEX_INVALID, yvex_shard_index_reset)
          else if n > maximum_entries then (YVEX_SHARD_INDEX_BUDGET, yvex_shard_index_reset)
          else (case shard_entries_check es 0 n of
                  YVEX_SHARD_INDEX_OK \<Rightarrow>
                    (YVEX_SHARD_INDEX_OK, \<lparr>idx_entries = Some es, idx_count = n\<rparr>)
                | refused \<Rightarrow> (refused, yvex_shard_index_reset)))"

definition yvex_shard_index_at ::
  "yvex_shard_index option \<Rightarrow> nat \<Rightarrow> yvex_shard_index_entry option" where
  "yvex_shard_index_at index i =
     (case index of
        None \<Rightarrow> None
      | Some ix \<Rightarrow> (case idx_entries ix of
          None \<Rightarrow> None
        | Some es \<Rightarrow> if i < idx_count ix then Some (es ! i) else None))"

text \<open>The search loop; the last component counts comparisons.\<close>

function shard_search ::
  "yvex_shard_index_entry list \<Rightarrow> string \<Rightarrow> nat \<Rightarrow> nat \<Rightarrow> nat \<Rightarrow> nat option \<times> nat" where
  "shard_search entries key lower upper comparisons =
     (if lower < upper then
        let middle = lower + (upper - lower) div 2;
            order = strcmp (key_at entries middle) key
        in if order = 0 then (Some middle, comparisons + 1)
           else if order < 0 then shard_search entries key (middle + 1) upper (comparisons + 1)
           else shard_search entries key lower middle (comparisons + 1)
      else (None, comparisons))"
  by pat_completeness auto
termination
  by (relation "measure (\<lambda>(entries, key, lower, upper, comparisons). upper - lower)") auto

declare shard_search.simps [simp del]

definition yvex_shard_index_find ::
  "yvex_shard_index option \<Rightarrow> string option \<Rightarrow> yvex_shard_index_entry option \<times> nat" where
  "yvex_shard_index_find index sought =
     (case (index, sought) of
        (Some ix, Some key) \<Rightarrow>
          (case idx_entries ix of
             None \<Rightarrow> (None, 0)
           | Some es \<Rightarrow> (case shard_search es key 0 (idx_count ix) 0 of
               (Some i, c) \<Rightarrow> (Some (es ! i), c) | (None, c) \<Rightarrow> (None, c)))
      | _ \<Rightarrow> (None, 0))"

section \<open>Admission\<close>

definition keys_present :: "yvex_shard_index_entry list \<Rightarrow> nat \<Rightarrow> bool" where
  "keys_present entries n \<longleftrightarrow>
     (\<forall>i < n. canonical_id (entries ! i) = i \<and>
        (\<exists>k. canonical_key (entries ! i) = Some k \<and> k \<noteq> []))"

definition keys_increasing :: "yvex_shard_index_entry list \<Rightarrow> nat \<Rightarrow> bool" where
  "keys_increasing entries n \<longleftrightarrow>
     (\<forall>i j. i < j \<and> j < n \<longrightarrow> strcmp (key_at entries i) (key_at entries j) < 0)"

lemma shard_entry_check_ok:
  "shard_entry_check entries i = YVEX_SHARD_INDEX_OK \<longleftrightarrow>
     (\<exists>k. canonical_key (entries ! i) = Some k \<and> k \<noteq> []) \<and> canonical_id (entries ! i) = i \<and>
     (i \<noteq> 0 \<longrightarrow> strcmp (key_at entries (i - 1)) (key_at entries i) < 0)"
  using strcmp_eq_0 [of "key_at entries (i - 1)" "key_at entries i"]
  by (auto simp: shard_entry_check_def Let_def simp del: strcmp_eq_0)

lemma shard_entries_check_ok:
  "shard_entries_check entries i n = YVEX_SHARD_INDEX_OK \<longleftrightarrow>
     (\<forall>j. i \<le> j \<and> j < i + n \<longrightarrow> shard_entry_check entries j = YVEX_SHARD_INDEX_OK)"
proof (induction entries i n rule: shard_entries_check.induct)
  case (1 entries ordinal)
  then show ?case by auto
next
  case (2 entries ordinal remaining)
  have split: "(\<forall>j. ordinal \<le> j \<and> j < ordinal + Suc remaining \<longrightarrow> P j) \<longleftrightarrow>
      P ordinal \<and> (\<forall>j. Suc ordinal \<le> j \<and> j < Suc ordinal + remaining \<longrightarrow> P j)" for P
    by (auto simp: Suc_le_eq) (metis le_eq_less_or_eq)
  show ?case
    by (subst split) (cases "shard_entry_check entries ordinal"; use 2 in simp)
qed

lemma adjacent_increasing:
  assumes "\<forall>i < n. i \<noteq> 0 \<longrightarrow> strcmp (key_at entries (i - 1)) (key_at entries i) < 0"
  shows "keys_increasing entries n"
  unfolding keys_increasing_def
proof (intro allI impI)
  fix i j
  assume "i < j \<and> j < n"
  then show "strcmp (key_at entries i) (key_at entries j) < 0"
  proof (induction j)
    case 0
    then show ?case by simp
  next
    case (Suc j)
    have step: "strcmp (key_at entries j) (key_at entries (Suc j)) < 0"
      using assms Suc.prems by force
    show ?case
    proof (cases "i = j")
      case True
      with step show ?thesis by simp
    next
      case False
      with Suc have "strcmp (key_at entries i) (key_at entries j) < 0" by simp
      with step show ?thesis by (rule strcmp_less_trans [rotated])
    qed
  qed
qed

lemma shard_entries_check_iff:
  "shard_entries_check es 0 n = YVEX_SHARD_INDEX_OK \<longleftrightarrow> keys_present es n \<and> keys_increasing es n"
proof
  assume "shard_entries_check es 0 n = YVEX_SHARD_INDEX_OK"
  then show "keys_present es n \<and> keys_increasing es n"
    by (auto simp: shard_entries_check_ok shard_entry_check_ok keys_present_def
        intro!: adjacent_increasing)
next
  assume "keys_present es n \<and> keys_increasing es n"
  then show "shard_entries_check es 0 n = YVEX_SHARD_INDEX_OK"
    by (auto simp: shard_entries_check_ok shard_entry_check_ok keys_present_def keys_increasing_def)
qed

lemma shard_index_init_ok:
  "yvex_shard_index_init True (Some es) n m = (YVEX_SHARD_INDEX_OK, ix) \<longleftrightarrow>
     0 < n \<and> n \<le> m \<and> keys_present es n \<and> keys_increasing es n \<and>
     ix = \<lparr>idx_entries = Some es, idx_count = n\<rparr>"
  using shard_entries_check_iff [of es n]
  by (auto simp: yvex_shard_index_init_def split: yvex_shard_index_result.splits)

lemma shard_index_init_refused:
  "yvex_shard_index_init True (Some es) n m = (r, ix) \<Longrightarrow> r \<noteq> YVEX_SHARD_INDEX_OK \<Longrightarrow>
     ix = yvex_shard_index_reset"
  by (auto simp: yvex_shard_index_init_def split: if_splits yvex_shard_index_result.splits)

text \<open>
  (C10) Admission is exact: an index is admitted precisely when the array is nonempty, within budget,
  every entry carries a nonempty key and its own position as id, and keys increase strictly; the
  admitted index then borrows the whole array, and every refusal leaves a cleared index.
\<close>

theorem shard_index_init_exact:
  "yvex_shard_index_init True (Some es) n m = (r, ix) \<Longrightarrow>
     (r = YVEX_SHARD_INDEX_OK \<longleftrightarrow>
        0 < n \<and> n \<le> m \<and> keys_present es n \<and> keys_increasing es n) \<and>
     ix = (if r = YVEX_SHARD_INDEX_OK then \<lparr>idx_entries = Some es, idx_count = n\<rparr>
           else yvex_shard_index_reset)"
  using shard_index_init_ok [of es n m ix] shard_index_init_ok [of es n m] shard_index_init_refused
  by (cases "r = YVEX_SHARD_INDEX_OK") auto

theorem shard_index_init_exact_witness:
  "yvex_shard_index_init True
     (Some [\<lparr>canonical_id = 0, canonical_key = Some ''a''\<rparr>,
            \<lparr>canonical_id = 1, canonical_key = Some ''b''\<rparr>]) 2 8 =
     (YVEX_SHARD_INDEX_OK,
      \<lparr>idx_entries = Some [\<lparr>canonical_id = 0, canonical_key = Some ''a''\<rparr>,
         \<lparr>canonical_id = 1, canonical_key = Some ''b''\<rparr>], idx_count = 2\<rparr>) \<and>
   keys_increasing [\<lparr>canonical_id = 0, canonical_key = Some ''a''\<rparr>,
     \<lparr>canonical_id = 1, canonical_key = Some ''b''\<rparr>] 2"
proof -
  let ?es = "[\<lparr>canonical_id = 0, canonical_key = Some ''a''\<rparr>,
              \<lparr>canonical_id = 1, canonical_key = Some ''b''\<rparr>]"
  have run: "yvex_shard_index_init True (Some ?es) 2 8 =
      (YVEX_SHARD_INDEX_OK, \<lparr>idx_entries = Some ?es, idx_count = 2\<rparr>)"
    by code_simp
  with shard_index_init_exact [OF run] show ?thesis by simp
qed

section \<open>Search\<close>

lemma shard_search_done: "\<not> lower < upper \<Longrightarrow> shard_search entries key lower upper c = (None, c)"
  by (simp add: shard_search.simps)

lemma shard_search_step:
  assumes "lower < upper" and "middle = lower + (upper - lower) div 2"
  shows "shard_search entries key lower upper c =
     (if key_at entries middle = key then (Some middle, c + 1)
      else if strcmp (key_at entries middle) key < 0
      then shard_search entries key (middle + 1) upper (c + 1)
      else shard_search entries key lower middle (c + 1))"
  using assms by (subst shard_search.simps) (simp add: Let_def)

text \<open>What the loop returns: either a hit inside the window, or no position of the window matches.\<close>

lemma shard_search_correct:
  assumes "keys_increasing entries n" and "upper \<le> n"
  shows "case fst (shard_search entries key lower upper c) of
      Some i \<Rightarrow> lower \<le> i \<and> i < upper \<and> key_at entries i = key
    | None \<Rightarrow> \<forall>i. lower \<le> i \<and> i < upper \<longrightarrow> key_at entries i \<noteq> key"
  using assms
proof (induction entries key lower upper c rule: shard_search.induct)
  case (1 entries key lower upper c)
  define middle where "middle = lower + (upper - lower) div 2"
  show ?case
  proof (cases "lower < upper")
    case True
    then have mid: "lower \<le> middle" "middle < upper" by (auto simp: middle_def)
    have below: "key_at entries i \<noteq> key" if "strcmp (key_at entries middle) key < 0" "i \<le> middle" for i
    proof (cases "i = middle")
      case False
      with that mid 1(3,4) have "strcmp (key_at entries i) (key_at entries middle) < 0"
        by (auto simp: keys_increasing_def)
      with that(1) show ?thesis by (metis strcmp_less_trans less_irrefl strcmp_refl)
    qed (use that in auto)
    have above: "key_at entries i \<noteq> key"
      if "strcmp key (key_at entries middle) < 0" "middle \<le> i" "i < upper" for i
    proof (cases "i = middle")
      case False
      with that mid 1(3,4) have "strcmp (key_at entries middle) (key_at entries i) < 0"
        by (auto simp: keys_increasing_def)
      with that(1) show ?thesis by (metis strcmp_less_trans less_irrefl strcmp_refl)
    qed (use that in auto)
    note step = shard_search_step [OF True middle_def, of entries key c]
    consider "key_at entries middle = key" | "strcmp (key_at entries middle) key < 0"
      | "key_at entries middle \<noteq> key" "strcmp key (key_at entries middle) < 0"
      using strcmp_total by blast
    then show ?thesis
    proof cases
      case 1
      then show ?thesis using step mid by simp
    next
      case 2
      then have "key_at entries middle \<noteq> key" by auto
      with 2 show ?thesis
        using 1(1) [OF True middle_def refl] 1(3,4) step mid below
        by (auto split: option.splits) (metis not_less_eq_eq)
    next
      case 3
      then have "\<not> strcmp (key_at entries middle) key < 0"
        using strcmp_swap [of key "key_at entries middle"] by linarith
      with 3 show ?thesis
        using 1(2) [OF True middle_def refl] 1(3,4) step mid above
        by (auto split: option.splits) (metis not_le order.strict_trans)
    qed
  qed (auto simp: shard_search_done)
qed

lemma shard_search_cost:
  "c \<le> snd (shard_search entries key lower upper c) \<and>
   2 ^ (snd (shard_search entries key lower upper c) - c) \<le> max 1 (2 * (upper - lower))"
proof (induction entries key lower upper c rule: shard_search.induct)
  case (1 entries key lower upper c)
  define middle where "middle = lower + (upper - lower) div 2"
  show ?case
  proof (cases "lower < upper")
    case True
    note step = shard_search_step [OF True middle_def, of entries key c]
    have grow: "c \<le> t \<and> 2 ^ (t - c) \<le> max 1 (2 * (upper - lower))"
      if "c + 1 \<le> t" "2 ^ (t - (c + 1)) \<le> max 1 (2 * s)" "s \<le> (upper - lower) div 2" for t s
    proof -
      have "t - c = Suc (t - (c + 1))" using that(1) by simp
      then have "(2::nat) ^ (t - c) = 2 * 2 ^ (t - (c + 1))" by simp
      then show ?thesis using that True by auto
    qed
    have sizes: "upper - (middle + 1) \<le> (upper - lower) div 2" "middle - lower \<le> (upper - lower) div 2"
      using True by (auto simp: middle_def)
    consider "key_at entries middle = key"
      | "key_at entries middle \<noteq> key" "strcmp (key_at entries middle) key < 0"
      | "key_at entries middle \<noteq> key" "\<not> strcmp (key_at entries middle) key < 0" by blast
    then show ?thesis
    proof cases
      case 1
      then show ?thesis using step True by simp
    next
      case 2
      then show ?thesis
        using 1(1) [OF True middle_def refl] grow [OF _ _ sizes(1)] step by simp
    next
      case 3
      then show ?thesis
        using 1(2) [OF True middle_def refl] grow [OF _ _ sizes(2)] step by simp
    qed
  qed (simp add: shard_search_done)
qed

lemma shard_search_hit_iff:
  assumes "keys_increasing entries n"
  shows "fst (shard_search entries key 0 n c) = Some i \<longleftrightarrow> i < n \<and> key_at entries i = key"
proof
  show "fst (shard_search entries key 0 n c) = Some i \<Longrightarrow> i < n \<and> key_at entries i = key"
    using shard_search_correct [OF assms order_refl, where key = key and lower = 0 and c = c] by simp
next
  assume hit: "i < n \<and> key_at entries i = key"
  have unique: "j = i" if "j < n" "key_at entries j = key" for j
    using assms that hit unfolding keys_increasing_def
    by (metis less_irrefl linorder_neqE_nat strcmp_refl)
  show "fst (shard_search entries key 0 n c) = Some i"
  proof (cases "fst (shard_search entries key 0 n c)")
    case None
    then show ?thesis
      using shard_search_correct [OF assms order_refl, where key = key and lower = 0 and c = c] hit
      by auto
  next
    case (Some j)
    then have "j < n \<and> key_at entries j = key"
      using shard_search_correct [OF assms order_refl, where key = key and lower = 0 and c = c]
      by simp
    with unique Some show ?thesis by simp
  qed
qed

text \<open>
  (C9) On an admitted index the search is exact and logarithmic: it returns the entry at position
  \<open>i\<close> precisely when that entry carries the sought key, it returns nothing precisely when no entry
  does, the returned entry's id addresses the same entry through the positional lookup, and with
  \<open>c\<close> comparisons \<open>2^c\<close> never exceeds twice the number of entries.
\<close>

theorem shard_index_find_exact:
  assumes "yvex_shard_index_init True (Some es) n m = (YVEX_SHARD_INDEX_OK, ix)"
  shows "(fst (yvex_shard_index_find (Some ix) (Some key)) = Some e \<longleftrightarrow>
           (\<exists>i < n. es ! i = e \<and> canonical_key e = Some key \<and>
              yvex_shard_index_at (Some ix) (canonical_id e) = Some e)) \<and>
         2 ^ snd (yvex_shard_index_find (Some ix) (Some key)) \<le> 2 * n"
proof -
  have ix: "ix = \<lparr>idx_entries = Some es, idx_count = n\<rparr>" and pos: "0 < n"
    and present: "keys_present es n" and inc: "keys_increasing es n"
    using assms by (auto simp: shard_index_init_ok)
  have key: "key_at es i = key \<longleftrightarrow> canonical_key (es ! i) = Some key" if "i < n" for i
    using present that by (auto simp: keys_present_def key_at_def)
  have at: "yvex_shard_index_at (Some ix) (canonical_id (es ! i)) = Some (es ! i)" if "i < n" for i
    using present that by (simp add: ix yvex_shard_index_at_def keys_present_def)
  obtain r c where run: "shard_search es key 0 n 0 = (r, c)" by fastforce
  have find: "yvex_shard_index_find (Some ix) (Some key) = (map_option ((!) es) r, c)"
    by (simp add: ix yvex_shard_index_find_def run split: option.splits)
  have hit: "r = Some i \<longleftrightarrow> i < n \<and> canonical_key (es ! i) = Some key" for i
    using shard_search_hit_iff [OF inc, of key 0 i] key run by auto
  have "2 ^ c \<le> 2 * n"
    using shard_search_cost [of 0 es key 0 n] pos run by simp
  moreover have "map_option ((!) es) r = Some e \<longleftrightarrow>
      (\<exists>i < n. es ! i = e \<and> canonical_key e = Some key \<and>
         yvex_shard_index_at (Some ix) (canonical_id e) = Some e)"
    using hit at by (cases r) (auto, metis option.inject)
  ultimately show ?thesis by (simp add: find)
qed

theorem shard_index_find_exact_witness:
  "fst (yvex_shard_index_find
     (Some \<lparr>idx_entries = Some [\<lparr>canonical_id = 0, canonical_key = Some ''a''\<rparr>,
        \<lparr>canonical_id = 1, canonical_key = Some ''b''\<rparr>], idx_count = 2\<rparr>) (Some ''b'')) =
   Some \<lparr>canonical_id = 1, canonical_key = Some ''b''\<rparr>"
proof -
  let ?es = "[\<lparr>canonical_id = 0, canonical_key = Some ''a''\<rparr>,
              \<lparr>canonical_id = 1, canonical_key = Some ''b''\<rparr>]"
  have run: "yvex_shard_index_init True (Some ?es) 2 8 =
      (YVEX_SHARD_INDEX_OK, \<lparr>idx_entries = Some ?es, idx_count = 2\<rparr>)"
    by code_simp
  have "\<exists>i < 2. ?es ! i = \<lparr>canonical_id = 1, canonical_key = Some ''b''\<rparr>"
    by (intro exI [of _ 1]) simp
  then show ?thesis
    using shard_index_find_exact [OF run, of "''b''" "\<lparr>canonical_id = 1, canonical_key = Some ''b''\<rparr>"]
    by (simp add: yvex_shard_index_at_def)
qed

end
