(* ===== verification/Request_Queue.thy ===== *)
theory Request_Queue
  imports Core_Status
begin

text \<open>
  \<^verbatim>\<open>src/server/request_queue.c\<close>: the bounded queue that serializes requests of one session while
  workers execute independent sessions.  The arrays and counts are those of the C structure; the
  locale \<open>keyed_queue\<close> is the contract of a queue that serializes by key, and the threads are a step
  relation whose steps are the critical sections under the queue's mutex.
\<close>

section \<open>State\<close>

abbreviation (input) SERVER_REQUEST_QUEUE_KEY_CAP :: nat where
  "SERVER_REQUEST_QUEUE_KEY_CAP \<equiv> 224"

abbreviation (input) SIZE_MAX :: nat where
  "SIZE_MAX \<equiv> 18446744073709551615"

text \<open>An opaque pointer is its address, 0 the null pointer.\<close>

record request_queue_entry =
  work :: nat
  entry_key :: string

definition zero_entry :: request_queue_entry where
  "zero_entry = \<lparr>work = 0, entry_key = []\<rparr>"

text \<open>
  \<open>rq_active\<close> holds the keys of the active array.  \<open>rq_observed\<close> is the log of the calls of the
  \<^verbatim>\<open>observe\<close> callback and \<open>rq_broadcasts\<close> counts the broadcasts on the condition variable.
\<close>

record server_request_queue =
  rq_queue :: "request_queue_entry list"
  rq_active :: "string list"
  rq_observe :: bool
  queue_capacity :: nat
  queue_count :: nat
  worker_count :: nat
  worker_started :: nat
  active_count :: nat
  mutex_ready :: bool
  condition_ready :: bool
  started :: bool
  stopping :: bool
  finished :: bool
  rq_observed :: "(nat \<times> nat \<times> nat) list"
  rq_broadcasts :: nat

definition request_queue_refuse :: "yvex_status \<Rightarrow> string \<Rightarrow> 'a outcome" where
  "request_queue_refuse status reason = Inl (refusal status ''server.request-queue'' reason)"

lemma request_queue_refuse_simps [simp]:
  "request_queue_refuse status reason \<noteq> Inr x"
  "outcome_status (request_queue_refuse status reason) = status"
  by (simp_all add: request_queue_refuse_def)

section \<open>Operations under the lock\<close>

definition request_queue_key_active :: "server_request_queue \<Rightarrow> string \<Rightarrow> bool" where
  "request_queue_key_active q key \<longleftrightarrow>
     first_index (\<lambda>i. rq_active q ! i = key) (active_count q) < active_count q"

definition request_queue_select_locked ::
  "server_request_queue \<Rightarrow> (request_queue_entry \<times> server_request_queue) option" where
  "request_queue_select_locked q =
     (let index = first_index (\<lambda>i. \<not> request_queue_key_active q (entry_key (rq_queue q ! i)))
                    (queue_count q)
      in if index = queue_count q then None
         else let entry = rq_queue q ! index in
           Some (entry,
             q\<lparr>rq_queue := array_remove zero_entry (rq_queue q) index (queue_count q),
               queue_count := queue_count q - 1,
               rq_active := (rq_active q)[active_count q := entry_key entry],
               active_count := active_count q + 1\<rparr>))"

definition request_queue_release_locked ::
  "string \<Rightarrow> server_request_queue \<Rightarrow> server_request_queue" where
  "request_queue_release_locked key q =
     (let index = first_index (\<lambda>i. rq_active q ! i = key) (active_count q)
      in if index = active_count q then q
         else q\<lparr>rq_active := array_remove [] (rq_active q) index (active_count q),
                active_count := active_count q - 1\<rparr>)"

definition request_queue_observe_locked :: "server_request_queue \<Rightarrow> server_request_queue" where
  "request_queue_observe_locked q =
     (if rq_observe q
      then q\<lparr>rq_observed := rq_observed q @ [(queue_count q, queue_capacity q, active_count q)]\<rparr>
      else q)"

definition request_queue_broadcast :: "server_request_queue \<Rightarrow> server_request_queue" where
  "request_queue_broadcast q = q\<lparr>rq_broadcasts := rq_broadcasts q + 1\<rparr>"

text \<open>
  One pass of the inner loop of the worker, up to the point where it returns, waits, or leaves with a
  selected entry.
\<close>

datatype worker_scan_result =
    Scan_Return
  | Scan_Wait
  | Scan_Run request_queue_entry server_request_queue

definition worker_scan :: "server_request_queue \<Rightarrow> worker_scan_result" where
  "worker_scan q =
     (if stopping q \<and> queue_count q = 0 then Scan_Return
      else if queue_count q = 0 \<and> \<not> stopping q then Scan_Wait
      else case request_queue_select_locked q of
        Some (entry, q') \<Rightarrow> Scan_Run entry (request_queue_observe_locked q')
      | None \<Rightarrow> Scan_Wait)"

text \<open>What a worker does under the lock after its callback returned.\<close>

definition worker_complete :: "request_queue_entry \<Rightarrow> server_request_queue \<Rightarrow> server_request_queue" where
  "worker_complete entry q =
     request_queue_broadcast (request_queue_observe_locked
       (request_queue_release_locked (entry_key entry) q))"

section \<open>Public operations\<close>

text \<open>
  Answers of the environment are arguments: the four allocations, the two initializations, the
  lock, the thread creations and the joins.
\<close>

definition request_queue_zero :: "nat \<Rightarrow> nat \<Rightarrow> bool \<Rightarrow> server_request_queue" where
  "request_queue_zero capacity workers observe =
     \<lparr>rq_queue = replicate capacity zero_entry, rq_active = replicate workers [],
      rq_observe = observe, queue_capacity = capacity, queue_count = 0, worker_count = workers,
      worker_started = 0, active_count = 0, mutex_ready = True, condition_ready = True,
      started = False, stopping = False, finished = False, rq_observed = [], rq_broadcasts = 0\<rparr>"

definition yvex_server_request_queue_open ::
  "bool \<Rightarrow> nat \<Rightarrow> nat \<Rightarrow> bool \<Rightarrow> bool \<Rightarrow> bool \<Rightarrow> bool \<Rightarrow> bool \<Rightarrow> bool \<Rightarrow> server_request_queue outcome" where
  "yvex_server_request_queue_open out capacity workers execute observe
     owner_allocated storage_allocated mutex_ok condition_ok =
     (if \<not> out \<or> capacity = 0 \<or> workers = 0 \<or> \<not> execute \<or>
         capacity > SIZE_MAX div (8 + SERVER_REQUEST_QUEUE_KEY_CAP) \<or> workers > SIZE_MAX div 8 \<or>
         workers > SIZE_MAX div SERVER_REQUEST_QUEUE_KEY_CAP
      then request_queue_refuse YVEX_ERR_INVALID_ARG
        ''bounded queue, workers, execution callback, and output are required''
      else if \<not> owner_allocated
      then request_queue_refuse YVEX_ERR_NOMEM ''request queue allocation failed''
      else if \<not> storage_allocated
      then request_queue_refuse YVEX_ERR_NOMEM ''request queue bounded storage allocation failed''
      else if \<not> mutex_ok
      then request_queue_refuse YVEX_ERR_STATE ''request queue mutex initialization failed''
      else if \<not> condition_ok
      then request_queue_refuse YVEX_ERR_STATE ''request queue condition initialization failed''
      else Inr (request_queue_zero capacity workers observe))"

definition yvex_server_request_queue_key :: "u64 \<Rightarrow> string option \<Rightarrow> string outcome" where
  "yvex_server_request_queue_key engine_generation scope =
     (case scope of
        None \<Rightarrow> request_queue_refuse YVEX_ERR_INVALID_ARG
          ''engine generation, serialization scope, and key output are required''
      | Some s \<Rightarrow>
          if engine_generation = 0 \<or> s = []
          then request_queue_refuse YVEX_ERR_INVALID_ARG
            ''engine generation, serialization scope, and key output are required''
          else let written = decimal (unat engine_generation) @ CHR '':'' # s in
            if length written \<ge> SERVER_REQUEST_QUEUE_KEY_CAP
            then request_queue_refuse YVEX_ERR_BOUNDS
              ''engine request serialization key exceeds its bound''
            else Inr written)"

definition yvex_server_request_queue_submit ::
  "bool \<Rightarrow> nat \<Rightarrow> string option \<Rightarrow> server_request_queue \<Rightarrow> nat outcome \<times> server_request_queue" where
  "yvex_server_request_queue_submit lock_ok item key q =
     (case key of
        None \<Rightarrow> (request_queue_refuse YVEX_ERR_INVALID_ARG
          ''request queue work and bounded key are required'', q)
      | Some k \<Rightarrow>
          if item = 0 \<or> length k \<ge> SERVER_REQUEST_QUEUE_KEY_CAP \<or> \<not> mutex_ready q \<or> \<not> lock_ok
          then (request_queue_refuse YVEX_ERR_INVALID_ARG
            ''request queue work and bounded key are required'', q)
          else if \<not> started q \<or> stopping q \<or> queue_count q = queue_capacity q
          then (if queue_count q = queue_capacity q
                then request_queue_refuse YVEX_ERR_BOUNDS ''bounded request queue is full''
                else request_queue_refuse YVEX_ERR_STATE ''request queue is not accepting work'', q)
          else (Inr (queue_count q + 1),
            request_queue_broadcast (request_queue_observe_locked
              (q\<lparr>rq_queue := (rq_queue q)[queue_count q := \<lparr>work = item, entry_key = k\<rparr>],
                 queue_count := queue_count q + 1\<rparr>))))"

definition yvex_server_request_queue_request_stop ::
  "bool \<Rightarrow> server_request_queue \<Rightarrow> server_request_queue" where
  "yvex_server_request_queue_request_stop lock_ok q =
     (if \<not> mutex_ready q \<or> \<not> lock_ok then q
      else request_queue_broadcast (q\<lparr>stopping := True\<rparr>))"

text \<open>\<open>joins\<close> holds the answer of \<^verbatim>\<open>pthread_join\<close> for each started worker.\<close>

definition yvex_server_request_queue_finish ::
  "bool \<Rightarrow> bool list \<Rightarrow> server_request_queue \<Rightarrow> unit outcome \<times> server_request_queue" where
  "yvex_server_request_queue_finish lock_ok joins q =
     (let q1 = yvex_server_request_queue_request_stop lock_ok q in
      if finished q1 then (Inr (), q1)
      else (if \<exists>joined \<in> set (take (worker_started q1) joins). \<not> joined
            then request_queue_refuse YVEX_ERR_STATE ''request queue worker join failed''
            else Inr (),
            q1\<lparr>worker_started := 0, finished := True\<rparr>))"

text \<open>The locked section of start, and the creation loop with the answer of each creation.\<close>

definition request_queue_start_locked ::
  "bool \<Rightarrow> server_request_queue \<Rightarrow> unit outcome \<times> server_request_queue" where
  "request_queue_start_locked lock_ok q =
     (if \<not> mutex_ready q \<or> \<not> lock_ok
      then (request_queue_refuse YVEX_ERR_INVALID_ARG ''open request queue is required'', q)
      else if started q \<or> stopping q
      then (request_queue_refuse YVEX_ERR_STATE
        ''request queue cannot start twice or after stop'', q)
      else (Inr (), q\<lparr>started := True\<rparr>))"

fun request_queue_create_workers ::
  "nat \<Rightarrow> bool list \<Rightarrow> bool list \<Rightarrow> server_request_queue \<Rightarrow> unit outcome \<times> server_request_queue" where
  "request_queue_create_workers 0 creates joins q = (Inr (), q)"
| "request_queue_create_workers (Suc remaining) creates joins q =
     (case creates of
        True # creates' \<Rightarrow> request_queue_create_workers remaining creates' joins
          (q\<lparr>worker_started := worker_started q + 1\<rparr>)
      | _ \<Rightarrow> (request_queue_refuse YVEX_ERR_STATE ''request queue worker creation failed'',
               snd (yvex_server_request_queue_finish True joins
                 (yvex_server_request_queue_request_stop True q))))"

definition yvex_server_request_queue_start ::
  "bool \<Rightarrow> bool list \<Rightarrow> bool list \<Rightarrow> server_request_queue \<Rightarrow> unit outcome \<times> server_request_queue" where
  "yvex_server_request_queue_start lock_ok creates joins q =
     (case request_queue_start_locked lock_ok q of
        (Inr _, q1) \<Rightarrow> request_queue_create_workers (worker_count q1) creates joins q1
      | (Inl e, q1) \<Rightarrow> (Inl e, q1))"

record server_request_queue_summary =
  sum_queued :: nat
  sum_capacity :: nat
  sum_active :: nat
  sum_workers :: nat

definition yvex_server_request_queue_snapshot ::
  "bool \<Rightarrow> server_request_queue \<Rightarrow> server_request_queue_summary" where
  "yvex_server_request_queue_snapshot lock_ok q =
     (if \<not> mutex_ready q \<or> \<not> lock_ok
      then \<lparr>sum_queued = 0, sum_capacity = 0, sum_active = 0, sum_workers = 0\<rparr>
      else \<lparr>sum_queued = queue_count q, sum_capacity = queue_capacity q,
            sum_active = active_count q, sum_workers = worker_count q\<rparr>)"

text \<open>Close finishes, then destroys and frees what the owner holds, in this order.\<close>

definition yvex_server_request_queue_close ::
  "bool \<Rightarrow> bool list \<Rightarrow> server_request_queue option \<Rightarrow> server_request_queue option \<times> string list" where
  "yvex_server_request_queue_close lock_ok joins owner =
     (case owner of
        None \<Rightarrow> (None, [])
      | Some q \<Rightarrow> (let q1 = snd (yvex_server_request_queue_finish lock_ok joins q) in
          (None, (if condition_ready q1 then [''condition''] else []) @
                 (if mutex_ready q1 then [''mutex''] else []) @
                 [''workers'', ''active'', ''queue'', ''owner''])))"

section \<open>The contract: a queue serialized by key\<close>

definition of_key :: "('e \<Rightarrow> 'k) \<Rightarrow> 'k \<Rightarrow> 'e list \<Rightarrow> 'e list" where
  "of_key key k xs = filter (\<lambda>e. key e = k) xs"

lemma of_key_simps [simp]:
  "of_key key k [] = []"
  "of_key key k (xs @ ys) = of_key key k xs @ of_key key k ys"
  "of_key key k (e # xs) = (if key e = k then e # of_key key k xs else of_key key k xs)"
  by (simp_all add: of_key_def)

lemma of_key_Nil_iff: "of_key key k xs = [] \<longleftrightarrow> k \<notin> key ` set xs"
  by (auto simp: of_key_def filter_empty_conv)


text \<open>
  The history of a serialized queue: what was accepted (\<open>sub\<close>), what began (\<open>beg\<close>), what completed
  (\<open>com\<close>), what waits (\<open>p\<close>) and what executes now (\<open>ex\<close>).  Restricted to one key the three logs
  extend one another, and no two executing entries share a key.
\<close>

definition serialized ::
  "('e \<Rightarrow> 'k) \<Rightarrow> 'e list \<Rightarrow> 'e list \<Rightarrow> 'e list \<Rightarrow> 'e list \<Rightarrow> 'e list \<Rightarrow> bool" where
  "serialized key p ex sub beg com \<longleftrightarrow>
     distinct (map key ex) \<and>
     (\<forall>k. of_key key k sub = of_key key k beg @ of_key key k p) \<and>
     (\<forall>k. of_key key k beg = of_key key k com @ of_key key k ex)"

locale keyed_queue =
  fixes wf :: "'q \<Rightarrow> bool" and pending :: "'q \<Rightarrow> 'e list" and running :: "'q \<Rightarrow> 'k list"
    and key :: "'e \<Rightarrow> 'k" and room :: "'q \<Rightarrow> bool" and vacant :: "'q \<Rightarrow> bool"
    and push :: "'e \<Rightarrow> 'q \<Rightarrow> 'q" and select :: "'q \<Rightarrow> ('e \<times> 'q) option"
    and release :: "'k \<Rightarrow> 'q \<Rightarrow> 'q"
  assumes push_law: "wf q \<Longrightarrow> room q \<Longrightarrow>
      wf (push e q) \<and> pending (push e q) = pending q @ [e] \<and> running (push e q) = running q"
    and select_none: "wf q \<Longrightarrow> select q = None \<Longrightarrow> e \<in> set (pending q) \<Longrightarrow> key e \<in> set (running q)"
    and select_some: "wf q \<Longrightarrow> vacant q \<Longrightarrow> select q = Some (e, q') \<Longrightarrow>
      wf q' \<and> key e \<notin> set (running q) \<and> running q' = running q @ [key e] \<and>
      (\<exists>xs ys. pending q = xs @ e # ys \<and> pending q' = xs @ ys \<and> key ` set xs \<subseteq> set (running q))"
    and release_law: "wf q \<Longrightarrow>
      wf (release k q) \<and> pending (release k q) = pending q \<and> running (release k q) = remove1 k (running q)"
begin

lemma serialized_push:
  "wf q \<Longrightarrow> room q \<Longrightarrow> serialized key (pending q) ex sub beg com \<Longrightarrow>
     serialized key (pending (push e q)) ex (sub @ [e]) beg com"
  by (simp add: serialized_def push_law)

lemma serialized_select:
  assumes "wf q" "vacant q" "select q = Some (e, q')"
    and ser: "serialized key (pending q) (a @ b) sub beg com"
    and same: "mset (map key (a @ b)) = mset (running q)"
  shows "serialized key (pending q') (a @ e # b) sub (beg @ [e]) com"
    and "mset (map key (a @ e # b)) = mset (running q')"
proof -
  obtain xs ys where split: "pending q = xs @ e # ys" "pending q' = xs @ ys"
    and earlier: "key ` set xs \<subseteq> set (running q)" and fresh: "key e \<notin> set (running q)"
    and run: "running q' = running q @ [key e]"
    using select_some [OF assms(1-3)] by blast
  have set_run: "set (running q) = key ` set (a @ b)"
    using arg_cong [OF same, of set_mset] by (simp add: image_Un)
  have none: "of_key key (key e) xs = []" "of_key key (key e) a = []" "of_key key (key e) b = []"
    using earlier fresh set_run by (auto simp: of_key_Nil_iff)
  show "serialized key (pending q') (a @ e # b) sub (beg @ [e]) com"
    using ser fresh set_run none by (auto simp: serialized_def split)
  show "mset (map key (a @ e # b)) = mset (running q')"
    using same by (simp add: run)
qed

lemma serialized_release:
  assumes "wf q" and ser: "serialized key (pending q) (a @ e # b) sub beg com"
    and same: "mset (map key (a @ e # b)) = mset (running q)"
  shows "serialized key (pending (release (key e) q)) (a @ b) sub beg (com @ [e])"
    and "mset (map key (a @ b)) = mset (running (release (key e) q))"
proof -
  have none: "of_key key (key e) a = []" "of_key key (key e) b = []"
    using ser by (auto simp: serialized_def of_key_Nil_iff)
  show "serialized key (pending (release (key e) q)) (a @ b) sub beg (com @ [e])"
    using ser none by (auto simp: serialized_def release_law [OF assms(1)])
  show "mset (map key (a @ b)) = mset (running (release (key e) q))"
    using same [symmetric] by (simp add: release_law [OF assms(1)])
qed

text \<open>A queue that refuses to select although an entry's key is free does not exist.\<close>

lemma select_progress:
  "wf q \<Longrightarrow> e \<in> set (pending q) \<Longrightarrow> key e \<notin> set (running q) \<Longrightarrow> select q \<noteq> None"
  using select_none by blast

end

section \<open>The arrays implement the contract\<close>

definition rq_pending :: "server_request_queue \<Rightarrow> request_queue_entry list" where
  "rq_pending q = take (queue_count q) (rq_queue q)"

definition rq_running :: "server_request_queue \<Rightarrow> string list" where
  "rq_running q = take (active_count q) (rq_active q)"

definition rq_wf :: "server_request_queue \<Rightarrow> bool" where
  "rq_wf q \<longleftrightarrow> length (rq_queue q) = queue_capacity q \<and> queue_count q \<le> queue_capacity q \<and>
     length (rq_active q) = worker_count q \<and> active_count q \<le> worker_count q"

definition rq_push :: "request_queue_entry \<Rightarrow> server_request_queue \<Rightarrow> server_request_queue" where
  "rq_push e q = q\<lparr>rq_queue := (rq_queue q)[queue_count q := e], queue_count := queue_count q + 1\<rparr>"

lemma length_rq_pending [simp]: "rq_wf q \<Longrightarrow> length (rq_pending q) = queue_count q"
  by (simp add: rq_pending_def rq_wf_def)

lemma length_rq_running [simp]: "rq_wf q \<Longrightarrow> length (rq_running q) = active_count q"
  by (simp add: rq_running_def rq_wf_def)

lemma key_active_iff: "rq_wf q \<Longrightarrow> request_queue_key_active q k \<longleftrightarrow> k \<in> set (rq_running q)"
  using first_index_none_iff [of "\<lambda>i. rq_active q ! i = k" "active_count q"]
    first_index_le [of "\<lambda>i. rq_active q ! i = k" "active_count q"]
  by (auto simp: request_queue_key_active_def rq_running_def rq_wf_def in_set_conv_nth
      simp del: first_index_le)

lemma select_none_iff:
  assumes "rq_wf q"
  shows "request_queue_select_locked q = None \<longleftrightarrow>
    (\<forall>e \<in> set (rq_pending q). entry_key e \<in> set (rq_running q))"
  using assms
  by (auto simp: request_queue_select_locked_def Let_def first_index_none_iff key_active_iff
      rq_pending_def rq_wf_def all_set_conv_all_nth)

lemma select_some_split:
  assumes wf: "rq_wf q" and vacant: "active_count q < worker_count q"
    and sel: "request_queue_select_locked q = Some (e, q')"
  shows "rq_wf q' \<and> entry_key e \<notin> set (rq_running q) \<and>
    rq_running q' = rq_running q @ [entry_key e] \<and>
    (\<exists>xs ys. rq_pending q = xs @ e # ys \<and> rq_pending q' = xs @ ys \<and>
       entry_key ` set xs \<subseteq> set (rq_running q))"
proof -
  let ?p = "\<lambda>i. \<not> request_queue_key_active q (entry_key (rq_queue q ! i))"
  define i where "i = first_index ?p (queue_count q)"
  have i: "i < queue_count q" and e: "e = rq_queue q ! i"
    and q': "q' = q\<lparr>rq_queue := array_remove zero_entry (rq_queue q) i (queue_count q),
               queue_count := queue_count q - 1,
               rq_active := (rq_active q)[active_count q := entry_key e],
               active_count := active_count q + 1\<rparr>"
    using sel first_index_le [of ?p "queue_count q"]
    by (auto simp: request_queue_select_locked_def Let_def i_def le_less simp del: first_index_le
        split: if_splits)
  have len: "queue_count q \<le> length (rq_queue q)" "active_count q < length (rq_active q)"
    using wf vacant by (auto simp: rq_wf_def)
  have "?p i" using i unfolding i_def by (rule first_index_hit)
  then have fresh: "entry_key e \<notin> set (rq_running q)" by (simp add: key_active_iff [OF wf] e)
  have earlier: "entry_key ` set (take i (rq_pending q)) \<subseteq> set (rq_running q)"
  proof -
    have "entry_key (rq_queue q ! j) \<in> set (rq_running q)" if "j < i" for j
      using first_index_before [of j ?p] that key_active_iff [OF wf] by (auto simp: i_def)
    then show ?thesis using i len by (auto simp: rq_pending_def in_set_conv_nth)
  qed
  have "rq_pending q = take i (rq_pending q) @ e # drop (Suc i) (rq_pending q)"
    using remove_nth_split [of i "rq_pending q"] i len by (simp add: rq_pending_def e)
  moreover have "rq_pending q' = take i (rq_pending q) @ drop (Suc i) (rq_pending q)"
    using take_array_remove [OF len(1) i, of zero_entry] by (simp add: rq_pending_def q')
  moreover have "rq_running q' = rq_running q @ [entry_key e]"
    using take_list_update_append [OF len(2), of "entry_key e"] by (simp add: rq_running_def q')
  moreover have "rq_wf q'" using wf vacant by (auto simp: rq_wf_def q')
  ultimately show ?thesis using fresh earlier by blast
qed

lemma remove1_nth_first:
  "i < length xs \<Longrightarrow> xs ! i = k \<Longrightarrow> (\<And>j. j < i \<Longrightarrow> xs ! j \<noteq> k) \<Longrightarrow>
     remove1 k xs = take i xs @ drop (Suc i) xs"
proof (induction xs arbitrary: i)
  case (Cons x xs)
  show ?case
  proof (cases i)
    case (Suc j)
    then have "x \<noteq> k" using Cons.prems(3) [of 0] by simp
    moreover have "xs ! l \<noteq> k" if "l < j" for l
      using Cons.prems(3) [of "Suc l"] that Suc by simp
    ultimately show ?thesis using Cons.IH [of j] Cons.prems Suc by simp
  qed (use Cons.prems in simp)
qed simp

lemma release_running:
  assumes wf: "rq_wf q"
  shows "rq_wf (request_queue_release_locked k q) \<and>
    rq_pending (request_queue_release_locked k q) = rq_pending q \<and>
    rq_running (request_queue_release_locked k q) = remove1 k (rq_running q)"
proof -
  let ?p = "\<lambda>i. rq_active q ! i = k"
  define i where "i = first_index ?p (active_count q)"
  have len: "active_count q \<le> length (rq_active q)" using wf by (simp add: rq_wf_def)
  show ?thesis
  proof (cases "i = active_count q")
    case True
    then have "k \<notin> set (rq_running q)"
      using len first_index_none_iff [of ?p "active_count q"]
      by (auto simp: i_def rq_running_def in_set_conv_nth)
    then show ?thesis
      using True wf by (simp add: request_queue_release_locked_def i_def remove1_idem)
  next
    case False
    then have i: "i < active_count q" by (simp add: i_def le_neq_implies_less)
    have "?p i" using i unfolding i_def by (rule first_index_hit)
    moreover have "\<not> ?p j" if "j < i" for j using that first_index_before by (simp add: i_def)
    ultimately have "remove1 k (rq_running q) = take i (rq_running q) @ drop (Suc i) (rq_running q)"
      using i len by (intro remove1_nth_first) (auto simp: rq_running_def)
    then show ?thesis
      using False wf take_array_remove [OF len i, of "[]"]
      by (auto simp: request_queue_release_locked_def i_def [symmetric] Let_def rq_wf_def
          rq_pending_def rq_running_def)
  qed
qed

lemma push_pending:
  assumes "rq_wf q" "queue_count q < queue_capacity q"
  shows "rq_wf (rq_push e q) \<and> rq_pending (rq_push e q) = rq_pending q @ [e] \<and>
    rq_running (rq_push e q) = rq_running q"
  using assms take_list_update_append [of "queue_count q" "rq_queue q" e]
  by (simp add: rq_push_def rq_wf_def rq_pending_def rq_running_def)

interpretation rq: keyed_queue rq_wf rq_pending rq_running entry_key
  "\<lambda>q. queue_count q < queue_capacity q" "\<lambda>q. active_count q < worker_count q"
  rq_push request_queue_select_locked request_queue_release_locked
proof unfold_locales
  fix q :: server_request_queue and e :: request_queue_entry
  assume "rq_wf q" "request_queue_select_locked q = None" "e \<in> set (rq_pending q)"
  then show "entry_key e \<in> set (rq_running q)" using select_none_iff by blast
qed (use push_pending select_some_split release_running in blast)+

section \<open>Threads\<close>

text \<open>
  A worker is about to scan the queue under the lock, waits on the condition variable, executes an
  entry outside the lock, or has returned.  Both waits of the C loop resume with the same scan.
\<close>

datatype worker = Ready | Waiting | Executing request_queue_entry | Exited

datatype starter = Not_Started | Creating | Start_Done

record queue_system =
  sys_queue :: server_request_queue
  sys_workers :: "worker list"
  sys_starter :: starter
  sys_submitted :: "request_queue_entry list"
  sys_begun :: "request_queue_entry list"
  sys_completed :: "request_queue_entry list"

definition wake_worker :: "worker \<Rightarrow> worker" where
  "wake_worker w = (if w = Waiting then Ready else w)"

text \<open>Waiting workers run again when an operation has broadcast.\<close>

definition wake :: "server_request_queue \<Rightarrow> server_request_queue \<Rightarrow> worker list \<Rightarrow> worker list" where
  "wake before after ws =
     (if rq_broadcasts before < rq_broadcasts after then map wake_worker ws else ws)"

fun executing_entry :: "worker \<Rightarrow> request_queue_entry list" where
  "executing_entry (Executing e) = [e]"
| "executing_entry _ = []"

definition executing :: "worker list \<Rightarrow> request_queue_entry list" where
  "executing ws = concat (map executing_entry ws)"

inductive queue_init :: "queue_system \<Rightarrow> bool" where
  "yvex_server_request_queue_open True capacity workers True observe True True True True = Inr q \<Longrightarrow>
   queue_init \<lparr>sys_queue = q, sys_workers = [], sys_starter = Not_Started,
     sys_submitted = [], sys_begun = [], sys_completed = []\<rparr>"

inductive queue_step :: "queue_system \<Rightarrow> queue_system \<Rightarrow> bool" where
  step_start:
  "sys_starter s = Not_Started \<Longrightarrow>
   request_queue_start_locked True (sys_queue s) = (Inr (), q) \<Longrightarrow>
   queue_step s (s\<lparr>sys_queue := q, sys_starter := Creating\<rparr>)"
| step_create:
  "sys_starter s = Creating \<Longrightarrow> worker_started (sys_queue s) < worker_count (sys_queue s) \<Longrightarrow>
   queue_step s (s\<lparr>sys_queue := sys_queue s\<lparr>worker_started := worker_started (sys_queue s) + 1\<rparr>,
     sys_workers := sys_workers s @ [Ready]\<rparr>)"
| step_created:
  "sys_starter s = Creating \<Longrightarrow> worker_started (sys_queue s) = worker_count (sys_queue s) \<Longrightarrow>
   queue_step s (s\<lparr>sys_starter := Start_Done\<rparr>)"
| step_create_failed:
  "sys_starter s = Creating \<Longrightarrow> worker_started (sys_queue s) < worker_count (sys_queue s) \<Longrightarrow>
   q = yvex_server_request_queue_request_stop True (sys_queue s) \<Longrightarrow>
   queue_step s (s\<lparr>sys_queue := q, sys_workers := wake (sys_queue s) q (sys_workers s),
     sys_starter := Start_Done\<rparr>)"
| step_submit:
  "yvex_server_request_queue_submit lock_ok item (Some k) (sys_queue s) = (Inr depth, q) \<Longrightarrow>
   queue_step s (s\<lparr>sys_queue := q, sys_workers := wake (sys_queue s) q (sys_workers s),
     sys_submitted := sys_submitted s @ [\<lparr>work = item, entry_key = k\<rparr>]\<rparr>)"
| step_scan_return:
  "sys_workers s = xs @ Ready # ys \<Longrightarrow> worker_scan (sys_queue s) = Scan_Return \<Longrightarrow>
   queue_step s (s\<lparr>sys_workers := xs @ Exited # ys\<rparr>)"
| step_scan_wait:
  "sys_workers s = xs @ Ready # ys \<Longrightarrow> worker_scan (sys_queue s) = Scan_Wait \<Longrightarrow>
   queue_step s (s\<lparr>sys_workers := xs @ Waiting # ys\<rparr>)"
| step_scan_run:
  "sys_workers s = xs @ Ready # ys \<Longrightarrow> worker_scan (sys_queue s) = Scan_Run e q \<Longrightarrow>
   queue_step s (s\<lparr>sys_queue := q, sys_workers := xs @ Executing e # ys,
     sys_begun := sys_begun s @ [e]\<rparr>)"
| step_spurious_wakeup:
  "sys_workers s = xs @ Waiting # ys \<Longrightarrow>
   queue_step s (s\<lparr>sys_workers := xs @ Ready # ys\<rparr>)"
| step_complete:
  "sys_workers s = xs @ Executing e # ys \<Longrightarrow> q = worker_complete e (sys_queue s) \<Longrightarrow>
   queue_step s (s\<lparr>sys_queue := q, sys_workers := wake (sys_queue s) q (xs @ Ready # ys),
     sys_completed := sys_completed s @ [e]\<rparr>)"
| step_stop:
  "q = yvex_server_request_queue_request_stop lock_ok (sys_queue s) \<Longrightarrow>
   queue_step s (s\<lparr>sys_queue := q, sys_workers := wake (sys_queue s) q (sys_workers s)\<rparr>)"
| step_finish:
  "sys_starter s \<noteq> Creating \<Longrightarrow> set (sys_workers s) \<subseteq> {Exited} \<Longrightarrow>
   yvex_server_request_queue_finish lock_ok joins (sys_queue s) = (r, q) \<Longrightarrow>
   queue_step s (s\<lparr>sys_queue := q\<rparr>)"

inductive_simps queue_init_simps: "queue_init s"

section \<open>Invariant\<close>

text \<open>A worker may wait only while no entry can be selected and the queue need not drain.\<close>

definition nothing_to_do :: "server_request_queue \<Rightarrow> bool" where
  "nothing_to_do q \<longleftrightarrow> \<not> (stopping q \<and> queue_count q = 0) \<and>
     (\<forall>e \<in> set (rq_pending q). entry_key e \<in> set (rq_running q))"

definition rq_inv :: "server_request_queue \<Rightarrow> worker list \<Rightarrow> bool" where
  "rq_inv q ws \<longleftrightarrow> rq_wf q \<and> length ws \<le> worker_count q \<and>
     mset (map entry_key (executing ws)) = mset (rq_running q) \<and>
     (Waiting \<in> set ws \<longrightarrow> nothing_to_do q) \<and>
     (Exited \<in> set ws \<longrightarrow> stopping q \<and> queue_count q = 0)"

definition starter_inv :: "server_request_queue \<Rightarrow> worker list \<Rightarrow> starter \<Rightarrow> bool" where
  "starter_inv q ws st \<longleftrightarrow>
     (case st of
        Not_Started \<Rightarrow> ws = [] \<and> worker_started q = 0
      | Creating \<Rightarrow> length ws = worker_started q
      | Start_Done \<Rightarrow> True)"

definition queue_inv :: "queue_system \<Rightarrow> bool" where
  "queue_inv s \<longleftrightarrow> rq_inv (sys_queue s) (sys_workers s) \<and>
     starter_inv (sys_queue s) (sys_workers s) (sys_starter s) \<and>
     serialized entry_key (rq_pending (sys_queue s)) (executing (sys_workers s))
       (sys_submitted s) (sys_begun s) (sys_completed s)"

lemma executing_simps [simp]:
  "executing [] = []"
  "executing (w # ws) = executing_entry w @ executing ws"
  "executing (xs @ ys) = executing xs @ executing ys"
  by (simp_all add: executing_def)

lemma length_executing: "length (executing ws) \<le> length ws"
proof (induction ws)
  case (Cons w ws)
  then show ?case by (cases w) simp_all
qed simp

lemma executing_entry_wake_worker [simp]: "executing_entry (wake_worker w) = executing_entry w"
  by (cases w) (simp_all add: wake_worker_def)

lemma executing_wake [simp]: "executing (wake q q' ws) = executing ws"
  by (simp add: wake_def executing_def comp_def)

lemma length_wake [simp]: "length (wake q q' ws) = length ws"
  by (simp add: wake_def)

lemma Exited_wake [simp]: "Exited \<in> set (wake q q' ws) \<longleftrightarrow> Exited \<in> set ws"
  by (auto simp: wake_def wake_worker_def)

lemma Waiting_wake: "rq_broadcasts q < rq_broadcasts q' \<Longrightarrow> Waiting \<notin> set (wake q q' ws)"
  by (auto simp: wake_def wake_worker_def split: if_splits)

lemma wake_Nil_iff [simp]: "wake q q' ws = [] \<longleftrightarrow> ws = []"
  by (simp add: wake_def)

lemma wake_Ready [simp]: "wake q q' [Ready] = [Ready]"
  by (simp add: wake_def wake_worker_def)

text \<open>Fields that the callbacks, broadcasts and stop requests do not touch.\<close>

lemma observe_locked_simps [simp]:
  "rq_pending (request_queue_observe_locked q) = rq_pending q"
  "rq_running (request_queue_observe_locked q) = rq_running q"
  "rq_wf (request_queue_observe_locked q) = rq_wf q"
  "stopping (request_queue_observe_locked q) = stopping q"
  "queue_count (request_queue_observe_locked q) = queue_count q"
  "active_count (request_queue_observe_locked q) = active_count q"
  "worker_count (request_queue_observe_locked q) = worker_count q"
  "worker_started (request_queue_observe_locked q) = worker_started q"
  "rq_broadcasts (request_queue_observe_locked q) = rq_broadcasts q"
  by (simp_all add: request_queue_observe_locked_def rq_pending_def rq_running_def rq_wf_def)

lemma broadcast_simps [simp]:
  "rq_pending (request_queue_broadcast q) = rq_pending q"
  "rq_running (request_queue_broadcast q) = rq_running q"
  "rq_wf (request_queue_broadcast q) = rq_wf q"
  "stopping (request_queue_broadcast q) = stopping q"
  "queue_count (request_queue_broadcast q) = queue_count q"
  "active_count (request_queue_broadcast q) = active_count q"
  "worker_count (request_queue_broadcast q) = worker_count q"
  "worker_started (request_queue_broadcast q) = worker_started q"
  "rq_broadcasts (request_queue_broadcast q) = rq_broadcasts q + 1"
  by (simp_all add: request_queue_broadcast_def rq_pending_def rq_running_def rq_wf_def)

lemma release_locked_simps [simp]:
  "stopping (request_queue_release_locked k q) = stopping q"
  "queue_count (request_queue_release_locked k q) = queue_count q"
  "worker_count (request_queue_release_locked k q) = worker_count q"
  "worker_started (request_queue_release_locked k q) = worker_started q"
  "rq_broadcasts (request_queue_release_locked k q) = rq_broadcasts q"
  by (simp_all add: request_queue_release_locked_def Let_def)

lemma push_simps [simp]:
  "stopping (rq_push e q) = stopping q"
  "queue_count (rq_push e q) = queue_count q + 1"
  "worker_count (rq_push e q) = worker_count q"
  "worker_started (rq_push e q) = worker_started q"
  "rq_broadcasts (rq_push e q) = rq_broadcasts q"
  by (simp_all add: rq_push_def)

lemma field_update_simps [simp]:
  "rq_pending (q\<lparr>started := b\<rparr>) = rq_pending q" "rq_running (q\<lparr>started := b\<rparr>) = rq_running q"
  "rq_wf (q\<lparr>started := b\<rparr>) = rq_wf q"
  "rq_pending (q\<lparr>stopping := b\<rparr>) = rq_pending q" "rq_running (q\<lparr>stopping := b\<rparr>) = rq_running q"
  "rq_wf (q\<lparr>stopping := b\<rparr>) = rq_wf q"
  "rq_pending (q\<lparr>worker_started := n\<rparr>) = rq_pending q"
  "rq_running (q\<lparr>worker_started := n\<rparr>) = rq_running q"
  "rq_wf (q\<lparr>worker_started := n\<rparr>) = rq_wf q"
  "rq_pending (q\<lparr>finished := b\<rparr>) = rq_pending q" "rq_running (q\<lparr>finished := b\<rparr>) = rq_running q"
  "rq_wf (q\<lparr>finished := b\<rparr>) = rq_wf q"
  by (simp_all add: rq_pending_def rq_running_def rq_wf_def)

text \<open>The operations in terms of the contract.\<close>

lemma submit_accepts:
  assumes "yvex_server_request_queue_submit lock_ok item (Some k) q = (Inr depth, q')"
  shows "queue_count q \<noteq> queue_capacity q" and "\<not> stopping q" and "started q"
    and "q' = request_queue_broadcast (request_queue_observe_locked
                (rq_push \<lparr>work = item, entry_key = k\<rparr> q))"
  using assms by (auto simp: yvex_server_request_queue_submit_def rq_push_def split: if_splits)

lemma request_stop_simps [simp]:
  "rq_pending (yvex_server_request_queue_request_stop l q) = rq_pending q"
  "rq_running (yvex_server_request_queue_request_stop l q) = rq_running q"
  "rq_wf (yvex_server_request_queue_request_stop l q) = rq_wf q"
  "queue_count (yvex_server_request_queue_request_stop l q) = queue_count q"
  "worker_count (yvex_server_request_queue_request_stop l q) = worker_count q"
  "worker_started (yvex_server_request_queue_request_stop l q) = worker_started q"
  "stopping q \<Longrightarrow> stopping (yvex_server_request_queue_request_stop l q)"
  by (simp_all add: yvex_server_request_queue_request_stop_def)

lemma request_stop_broadcasts:
  "yvex_server_request_queue_request_stop l q = q \<or>
   rq_broadcasts q < rq_broadcasts (yvex_server_request_queue_request_stop l q)"
  by (simp add: yvex_server_request_queue_request_stop_def)

lemma scan_run_selects:
  "worker_scan q = Scan_Run e q' \<longleftrightarrow>
     queue_count q \<noteq> 0 \<and>
     (\<exists>r. request_queue_select_locked q = Some (e, r) \<and> q' = request_queue_observe_locked r)"
  by (auto simp: worker_scan_def split: option.splits)

lemma scan_wait_iff:
  "rq_wf q \<Longrightarrow> worker_scan q = Scan_Wait \<longleftrightarrow> nothing_to_do q"
  using select_none_iff [of q]
  by (auto simp: worker_scan_def nothing_to_do_def rq_pending_def split: option.splits)

lemma scan_return_iff: "worker_scan q = Scan_Return \<longleftrightarrow> stopping q \<and> queue_count q = 0"
  by (auto simp: worker_scan_def split: option.splits)

lemma select_fields:
  "request_queue_select_locked q = Some (e, q') \<Longrightarrow>
     worker_count q' = worker_count q \<and> stopping q' = stopping q \<and>
     worker_started q' = worker_started q"
  by (auto simp: request_queue_select_locked_def Let_def split: if_splits)

text \<open>A worker that is not executing leaves a free place in the active array.\<close>

lemma vacant_place:
  assumes "rq_inv q (xs @ w # ys)" and "executing_entry w = []"
  shows "active_count q < worker_count q"
proof -
  have "active_count q = length (executing xs @ executing ys)"
    using assms mset_eq_length [of "map entry_key (executing (xs @ w # ys))" "rq_running q"]
    by (simp add: rq_inv_def)
  also have "\<dots> \<le> length xs + length ys"
    using length_executing [of xs] length_executing [of ys] by simp
  finally show ?thesis using assms by (simp add: rq_inv_def)
qed

section \<open>Preservation\<close>

lemma inv_start:
  assumes "queue_inv s" "sys_starter s = Not_Started"
    "request_queue_start_locked True (sys_queue s) = (Inr (), q)"
  shows "queue_inv (s\<lparr>sys_queue := q, sys_starter := Creating\<rparr>)"
  using assms
  by (auto simp: queue_inv_def rq_inv_def starter_inv_def request_queue_start_locked_def
      split: if_splits)

lemma inv_create:
  assumes "queue_inv s" "sys_starter s = Creating"
    "worker_started (sys_queue s) < worker_count (sys_queue s)"
  shows "queue_inv (s\<lparr>sys_queue := sys_queue s\<lparr>worker_started := worker_started (sys_queue s) + 1\<rparr>,
     sys_workers := sys_workers s @ [Ready]\<rparr>)"
  using assms by (auto simp: queue_inv_def rq_inv_def starter_inv_def nothing_to_do_def)

lemma inv_request_stop:
  assumes "queue_inv s" "q = yvex_server_request_queue_request_stop l (sys_queue s)"
  shows "queue_inv (s\<lparr>sys_queue := q, sys_workers := wake (sys_queue s) q (sys_workers s)\<rparr>)"
  using request_stop_broadcasts [of l "sys_queue s"]
proof
  assume "yvex_server_request_queue_request_stop l (sys_queue s) = sys_queue s"
  then show ?thesis using assms by (simp add: wake_def)
next
  assume "rq_broadcasts (sys_queue s) <
    rq_broadcasts (yvex_server_request_queue_request_stop l (sys_queue s))"
  then show ?thesis using assms Waiting_wake
    by (auto simp: queue_inv_def rq_inv_def starter_inv_def split: starter.splits)
qed

lemma inv_submit:
  assumes inv: "queue_inv s"
    and sub: "yvex_server_request_queue_submit l item (Some k) (sys_queue s) = (Inr depth, q)"
  shows "queue_inv (s\<lparr>sys_queue := q, sys_workers := wake (sys_queue s) q (sys_workers s),
     sys_submitted := sys_submitted s @ [\<lparr>work = item, entry_key = k\<rparr>]\<rparr>)"
proof -
  let ?e = "\<lparr>work = item, entry_key = k\<rparr>"
  note acc = submit_accepts [OF sub]
  have wf: "rq_wf (sys_queue s)" and room: "queue_count (sys_queue s) < queue_capacity (sys_queue s)"
    using inv acc(1) by (auto simp: queue_inv_def rq_inv_def rq_wf_def)
  have quiet: "Waiting \<notin> set (wake (sys_queue s) q (sys_workers s))"
    by (rule Waiting_wake) (simp add: acc(4))
  have "Exited \<notin> set (sys_workers s)" using inv acc(2) by (auto simp: queue_inv_def rq_inv_def)
  moreover have "serialized entry_key (rq_pending (rq_push ?e (sys_queue s)))
      (executing (sys_workers s)) (sys_submitted s @ [?e]) (sys_begun s) (sys_completed s)"
    using inv by (intro rq.serialized_push [OF wf room]) (simp add: queue_inv_def)
  ultimately show ?thesis
    using inv quiet rq.push_law [OF wf room, of ?e]
    by (simp add: queue_inv_def rq_inv_def starter_inv_def acc(4) split: starter.splits)
qed

lemma inv_scan_run:
  assumes inv: "queue_inv s" and ws: "sys_workers s = xs @ Ready # ys"
    and scan: "worker_scan (sys_queue s) = Scan_Run e q"
  shows "queue_inv (s\<lparr>sys_queue := q, sys_workers := xs @ Executing e # ys,
     sys_begun := sys_begun s @ [e]\<rparr>)"
proof -
  obtain r where sel: "request_queue_select_locked (sys_queue s) = Some (e, r)"
    and q: "q = request_queue_observe_locked r" and some: "queue_count (sys_queue s) \<noteq> 0"
    using scan by (auto simp: scan_run_selects)
  have rqi: "rq_inv (sys_queue s) (xs @ Ready # ys)" using inv ws by (simp add: queue_inv_def)
  have wf: "rq_wf (sys_queue s)" using rqi by (simp add: rq_inv_def)
  have vac: "active_count (sys_queue s) < worker_count (sys_queue s)"
    by (rule vacant_place [OF rqi]) simp
  have ser: "serialized entry_key (rq_pending (sys_queue s)) (executing xs @ executing ys)
      (sys_submitted s) (sys_begun s) (sys_completed s)"
    and same: "mset (map entry_key (executing xs @ executing ys)) = mset (rq_running (sys_queue s))"
    using inv rqi ws by (simp_all add: queue_inv_def rq_inv_def)
  have "\<not> nothing_to_do (sys_queue s)" using sel select_none_iff [OF wf]
    by (auto simp: nothing_to_do_def)
  then have "Waiting \<notin> set (xs @ ys)" "Exited \<notin> set (xs @ ys)" using rqi some
    by (auto simp: rq_inv_def)
  then show ?thesis
    using inv ws rqi rq.serialized_select [OF wf vac sel ser same] rq.select_some [OF wf vac sel]
      select_fields [OF sel]
    by (simp add: queue_inv_def rq_inv_def starter_inv_def q split: starter.splits)
qed

lemma inv_complete:
  assumes inv: "queue_inv s" and ws: "sys_workers s = xs @ Executing e # ys"
    and q: "q = worker_complete e (sys_queue s)"
  shows "queue_inv (s\<lparr>sys_queue := q, sys_workers := wake (sys_queue s) q (xs @ Ready # ys),
     sys_completed := sys_completed s @ [e]\<rparr>)"
proof -
  have rqi: "rq_inv (sys_queue s) (xs @ Executing e # ys)" using inv ws by (simp add: queue_inv_def)
  have wf: "rq_wf (sys_queue s)" using rqi by (simp add: rq_inv_def)
  have ser: "serialized entry_key (rq_pending (sys_queue s)) (executing xs @ e # executing ys)
      (sys_submitted s) (sys_begun s) (sys_completed s)"
    and same: "mset (map entry_key (executing xs @ e # executing ys)) =
      mset (rq_running (sys_queue s))"
    using inv rqi ws by (simp_all add: queue_inv_def rq_inv_def)
  have quiet: "Waiting \<notin> set (wake (sys_queue s) q (xs @ Ready # ys))"
    by (rule Waiting_wake) (simp add: q worker_complete_def)
  show ?thesis
    using inv ws rqi quiet rq.serialized_release [OF wf ser same] rq.release_law [OF wf]
    by (simp add: queue_inv_def rq_inv_def starter_inv_def q worker_complete_def split: starter.splits)
qed

lemma inv_finish:
  assumes inv: "queue_inv s" and idle: "sys_starter s \<noteq> Creating" "set (sys_workers s) \<subseteq> {Exited}"
    and q: "yvex_server_request_queue_finish l joins (sys_queue s) = (r, q)"
  shows "queue_inv (s\<lparr>sys_queue := q\<rparr>)"
proof -
  have "Waiting \<notin> set (sys_workers s)" using idle(2) by auto
  then show ?thesis
    using inv idle q
    by (auto simp: queue_inv_def rq_inv_def starter_inv_def yvex_server_request_queue_finish_def
        Let_def split: starter.splits if_splits)
qed

lemma queue_inv_step: "queue_step s t \<Longrightarrow> queue_inv s \<Longrightarrow> queue_inv t"
proof (induction rule: queue_step.induct)
  case (step_create_failed s q)
  then have "queue_inv (s\<lparr>sys_queue := q, sys_workers := wake (sys_queue s) q (sys_workers s)\<rparr>)"
    by (intro inv_request_stop [of s q True])
  then show ?case by (simp add: queue_inv_def starter_inv_def)
next
  case (step_created s)
  then show ?case by (simp add: queue_inv_def starter_inv_def)
next
  case (step_scan_return s xs ys)
  then show ?case
    by (auto simp: queue_inv_def rq_inv_def starter_inv_def scan_return_iff split: starter.splits)
next
  case (step_scan_wait s xs ys)
  then show ?case
    by (auto simp: queue_inv_def rq_inv_def starter_inv_def scan_wait_iff split: starter.splits)
next
  case (step_spurious_wakeup s xs ys)
  then show ?case
    by (auto simp: queue_inv_def rq_inv_def starter_inv_def split: starter.splits)
qed (blast intro: inv_start inv_create inv_submit inv_scan_run inv_complete inv_request_stop
    inv_finish)+

lemma queue_inv_init: "queue_init s \<Longrightarrow> queue_inv s"
  by (auto simp: queue_init_simps yvex_server_request_queue_open_def request_queue_zero_def
      queue_inv_def rq_inv_def starter_inv_def rq_wf_def rq_running_def rq_pending_def
      serialized_def split: if_splits)

interpretation queue_machine: invariant_system queue_init queue_step queue_inv
  by unfold_locales (blast intro: queue_inv_init queue_inv_step)+

section \<open>Properties\<close>

lemma running_executing:
  "queue_inv s \<Longrightarrow> set (rq_running (sys_queue s)) = entry_key ` set (executing (sys_workers s))"
  using mset_eq_setD [of "map entry_key (executing (sys_workers s))" "rq_running (sys_queue s)"]
  by (simp add: queue_inv_def rq_inv_def)

lemma active_executing:
  "queue_inv s \<Longrightarrow> active_count (sys_queue s) = length (executing (sys_workers s))"
  using mset_eq_length [of "map entry_key (executing (sys_workers s))" "rq_running (sys_queue s)"]
  by (simp add: queue_inv_def rq_inv_def)

lemma executing_Nil_iff: "executing ws = [] \<longleftrightarrow> (\<forall>e. Executing e \<notin> set ws)"
proof (induction ws)
  case (Cons w ws)
  then show ?case by (cases w) auto
qed simp

text \<open>
  A run of a queue of capacity two with one worker: start, one submission, its execution, a stop
  and the drain.
\<close>

definition demo_queue :: server_request_queue where
  "demo_queue = (request_queue_zero 2 1 False)\<lparr>started := True, worker_started := 1\<rparr>"

definition demo_entry :: request_queue_entry where
  "demo_entry = \<lparr>work = 7, entry_key = ''1:s''\<rparr>"

definition demo_system :: "server_request_queue \<Rightarrow> worker \<Rightarrow> request_queue_entry list \<Rightarrow>
  request_queue_entry list \<Rightarrow> request_queue_entry list \<Rightarrow> queue_system" where
  "demo_system q w sub beg com =
     \<lparr>sys_queue = q, sys_workers = [w], sys_starter = Creating, sys_submitted = sub,
      sys_begun = beg, sys_completed = com\<rparr>"

definition demo_busy :: server_request_queue where
  "demo_busy = demo_queue\<lparr>rq_active := [''1:s''], active_count := 1, rq_broadcasts := 1\<rparr>"

definition demo_drained :: server_request_queue where
  "demo_drained = demo_queue\<lparr>rq_active := [[]], active_count := 0, stopping := True,
     rq_broadcasts := 3\<rparr>"

lemma demo_reachable_ready:
  "reachable_from queue_init queue_step (demo_system demo_queue Ready [] [] [])"
proof -
  let ?s0 = "\<lparr>sys_queue = request_queue_zero 2 1 False, sys_workers = [], sys_starter = Not_Started,
     sys_submitted = [], sys_begun = [], sys_completed = []\<rparr>"
  have "queue_init ?s0"
    by (rule queue_init.intros [of 2 1 False]) (simp add: yvex_server_request_queue_open_def)
  then have r0: "reachable_from queue_init queue_step ?s0" by (rule reachable_init)
  have "queue_step ?s0 (?s0\<lparr>sys_queue := (request_queue_zero 2 1 False)\<lparr>started := True\<rparr>,
      sys_starter := Creating\<rparr>)"
    by (rule step_start) (simp_all add: request_queue_start_locked_def request_queue_zero_def)
  from reachable_step [OF r0 this] have r1: "reachable_from queue_init queue_step
      (?s0\<lparr>sys_queue := (request_queue_zero 2 1 False)\<lparr>started := True\<rparr>, sys_starter := Creating\<rparr>)" .
  show ?thesis
    using reachable_step [OF r1 step_create]
    by (simp add: demo_system_def demo_queue_def request_queue_zero_def)
qed

lemma demo_submit:
  "yvex_server_request_queue_submit True 7 (Some ''1:s'') demo_queue =
     (Inr 1, demo_queue\<lparr>rq_queue := [demo_entry, zero_entry], queue_count := 1, rq_broadcasts := 1\<rparr>)"
  by code_simp

lemma demo_scan:
  "worker_scan (demo_queue\<lparr>rq_queue := [demo_entry, zero_entry], queue_count := 1, rq_broadcasts := 1\<rparr>) =
     Scan_Run demo_entry demo_busy"
  by code_simp

lemma demo_reachable_busy:
  "reachable_from queue_init queue_step
     (demo_system demo_busy (Executing demo_entry) [demo_entry] [demo_entry] [])"
proof -
  let ?q = "demo_queue\<lparr>rq_queue := [demo_entry, zero_entry], queue_count := 1, rq_broadcasts := 1\<rparr>"
  have "queue_step (demo_system demo_queue Ready [] [] []) (demo_system ?q Ready [demo_entry] [] [])"
    using step_submit [of True 7 "''1:s''" "demo_system demo_queue Ready [] [] []" 1 ?q]
    by (simp add: demo_system_def demo_submit demo_entry_def)
  then have "reachable_from queue_init queue_step (demo_system ?q Ready [demo_entry] [] [])"
    using demo_reachable_ready reachable_step by metis
  moreover have "queue_step (demo_system ?q Ready [demo_entry] [] [])
      (demo_system demo_busy (Executing demo_entry) [demo_entry] [demo_entry] [])"
    using step_scan_run [of "demo_system ?q Ready [demo_entry] [] []" "[]" "[]" demo_entry demo_busy]
      demo_scan
    by (simp add: demo_system_def)
  ultimately show ?thesis by (rule reachable_step)
qed

lemma demo_reachable_stopped:
  "reachable_from queue_init queue_step
     (demo_system demo_drained Ready [demo_entry] [demo_entry] [demo_entry])"
proof -
  let ?q2 = "worker_complete demo_entry demo_busy"
  have q2: "?q2 = demo_queue\<lparr>rq_active := [[]], active_count := 0, rq_broadcasts := 2\<rparr>"
    by code_simp
  have "queue_step (demo_system demo_busy (Executing demo_entry) [demo_entry] [demo_entry] [])
      (demo_system ?q2 Ready [demo_entry] [demo_entry] [demo_entry])"
    using step_complete [of "demo_system demo_busy (Executing demo_entry) [demo_entry] [demo_entry] []"
        "[]" demo_entry "[]" ?q2]
    by (simp add: demo_system_def)
  then have r2: "reachable_from queue_init queue_step
      (demo_system ?q2 Ready [demo_entry] [demo_entry] [demo_entry])"
    using demo_reachable_busy reachable_step by metis
  have q3: "yvex_server_request_queue_request_stop True ?q2 = demo_drained" by code_simp
  have "queue_step (demo_system ?q2 Ready [demo_entry] [demo_entry] [demo_entry])
      (demo_system demo_drained Ready [demo_entry] [demo_entry] [demo_entry])"
    using step_stop [of demo_drained True "demo_system ?q2 Ready [demo_entry] [demo_entry] [demo_entry]"]
    by (simp add: demo_system_def q3)
  then show ?thesis using r2 reachable_step by metis
qed


text \<open>
  (C1) Mutual exclusion and bounds: in every reachable state no two workers execute entries of the
  same serialization key, the queue never exceeds its capacity, and the active count is exactly the
  number of executing workers and never exceeds the worker count.
\<close>

theorem request_queue_mutual_exclusion:
  assumes "reachable_from queue_init queue_step s"
  shows "distinct (map entry_key (executing (sys_workers s))) \<and>
    queue_count (sys_queue s) \<le> queue_capacity (sys_queue s) \<and>
    active_count (sys_queue s) = length (executing (sys_workers s)) \<and>
    active_count (sys_queue s) \<le> worker_count (sys_queue s)"
proof -
  have "queue_inv s" using assms by (rule queue_machine.reachable_inv)
  with active_executing [OF this] show ?thesis
    by (simp add: queue_inv_def serialized_def rq_inv_def rq_wf_def)
qed

theorem request_queue_mutual_exclusion_witness:
  "active_count demo_busy = 1 \<and> active_count demo_busy \<le> worker_count demo_busy"
  using request_queue_mutual_exclusion [OF demo_reachable_busy] by (simp add: demo_system_def)

text \<open>
  (C2) Order and conservation: restricted to any key, the accepted requests are, in submission order,
  the completed ones followed by the executing one and the waiting ones.  No request of a session is
  lost, duplicated or overtaken by a later one.
\<close>

theorem request_queue_fifo_per_key:
  assumes "reachable_from queue_init queue_step s"
  shows "of_key entry_key k (sys_submitted s) =
    of_key entry_key k (sys_completed s) @ of_key entry_key k (executing (sys_workers s)) @
    of_key entry_key k (rq_pending (sys_queue s))"
  using queue_machine.reachable_inv [OF assms] by (simp add: queue_inv_def serialized_def)

theorem request_queue_fifo_per_key_witness:
  "of_key entry_key ''1:s'' [demo_entry] =
     of_key entry_key ''1:s'' [] @ of_key entry_key ''1:s'' [demo_entry] @
     of_key entry_key ''1:s'' (rq_pending demo_busy)"
  using request_queue_fifo_per_key [OF demo_reachable_busy, of "''1:s''"]
  by (simp add: demo_system_def)

text \<open>
  (C3) No lost wakeup: whenever requests wait or a stop was requested and some worker has not
  returned, a worker is executing or ready to scan the queue; the workers never all sleep on the
  condition variable with something left to do.
\<close>

theorem request_queue_no_lost_wakeup:
  assumes "reachable_from queue_init queue_step s"
    and "w \<in> set (sys_workers s)" "w \<noteq> Exited"
    and "stopping (sys_queue s) \<or> queue_count (sys_queue s) \<noteq> 0"
  shows "Ready \<in> set (sys_workers s) \<or> (\<exists>e. Executing e \<in> set (sys_workers s))"
proof (rule ccontr)
  assume none: "\<not> ?thesis"
  have inv: "queue_inv s" using assms(1) by (rule queue_machine.reachable_inv)
  have "Waiting \<in> set (sys_workers s)" using assms(2,3) none
    by (metis worker.exhaust)
  then have idle: "nothing_to_do (sys_queue s)" using inv by (simp add: queue_inv_def rq_inv_def)
  have "executing (sys_workers s) = []" using none by (simp add: executing_Nil_iff)
  then have "rq_pending (sys_queue s) = []"
    using idle running_executing [OF inv] by (cases "rq_pending (sys_queue s)")
      (auto simp: nothing_to_do_def)
  then have "queue_count (sys_queue s) = 0"
    using inv length_rq_pending [of "sys_queue s"] by (simp add: queue_inv_def rq_inv_def)
  then show False using idle assms(4) by (simp add: nothing_to_do_def)
qed

theorem request_queue_no_lost_wakeup_witness:
  "Ready \<in> set (sys_workers (demo_system demo_drained Ready [demo_entry] [demo_entry] [demo_entry]))"
  using request_queue_no_lost_wakeup [OF demo_reachable_stopped, of Ready]
  by (simp add: demo_system_def demo_drained_def)



text \<open>
  (C12) Serialization keys isolate engines and scopes: two accepted keys are equal only for the same
  engine generation and the same scope.
\<close>

theorem request_queue_key_injective:
  assumes "yvex_server_request_queue_key g (Some a) = Inr k"
    and "yvex_server_request_queue_key h (Some b) = Inr k"
  shows "g = h \<and> a = b"
proof -
  have "\<not> is_digit (CHR '':'')" by (simp add: is_digit_def)
  moreover have "decimal (unat g) @ CHR '':'' # a = decimal (unat h) @ CHR '':'' # b"
    using assms by (auto simp: yvex_server_request_queue_key_def Let_def split: if_splits)
  ultimately have "unat g = unat h \<and> a = b" using decimal_append_inject by blast
  then show ?thesis by (simp add: word_unat_eq_iff)
qed

theorem request_queue_key_injective_witness:
  "yvex_server_request_queue_key 1 (Some ''2:s'') = Inr ''1:2:s'' \<and>
   yvex_server_request_queue_key 12 (Some ''s'') \<noteq> Inr ''1:2:s''"
proof -
  have run: "yvex_server_request_queue_key 1 (Some ''2:s'') = Inr ''1:2:s''" by code_simp
  show ?thesis using run request_queue_key_injective [OF run, of 12 "''s''"] by auto
qed

text \<open>
  (C11) The array routine implements the specification of selection: it returns the earliest queued
  entry whose key is not active, removes exactly that entry, keeps the order of the others and
  marks the key active; it returns nothing precisely when every queued key is active.
\<close>

theorem request_queue_select_refines:
  assumes "rq_wf q" and "active_count q < worker_count q"
  shows "case request_queue_select_locked q of
      None \<Rightarrow> find (\<lambda>e. entry_key e \<notin> set (rq_running q)) (rq_pending q) = None
    | Some (e, q') \<Rightarrow>
        find (\<lambda>e. entry_key e \<notin> set (rq_running q)) (rq_pending q) = Some e \<and>
        rq_pending q' = remove1 e (rq_pending q) \<and> rq_running q' = rq_running q @ [entry_key e]"
proof (cases "request_queue_select_locked q")
  case None
  then show ?thesis using select_none_iff [OF assms(1)] by (simp add: find_None_iff)
next
  case (Some r)
  obtain e q' where sel: "request_queue_select_locked q = Some (e, q')" using Some by (cases r) auto
  obtain xs ys where split: "rq_pending q = xs @ e # ys" "rq_pending q' = xs @ ys"
    and earlier: "entry_key ` set xs \<subseteq> set (rq_running q)"
    and fresh: "entry_key e \<notin> set (rq_running q)"
    and run: "rq_running q' = rq_running q @ [entry_key e]"
    using select_some_split [OF assms sel] by blast
  have "find (\<lambda>e. entry_key e \<notin> set (rq_running q)) xs = None"
    using earlier by (auto simp: find_None_iff)
  moreover have "find P (us @ vs) = (if find P us = None then find P vs else find P us)"
    for P :: "request_queue_entry \<Rightarrow> bool" and us vs
    by (induction us) auto
  ultimately have "find (\<lambda>e. entry_key e \<notin> set (rq_running q)) (rq_pending q) = Some e"
    using fresh by (simp add: split)
  moreover have "remove1 e (rq_pending q) = xs @ ys"
    using earlier fresh by (auto simp: split remove1_append)
  ultimately show ?thesis by (simp add: sel split run)
qed

theorem request_queue_select_refines_witness:
  "find (\<lambda>e. entry_key e \<notin> {}) [demo_entry] = Some demo_entry \<and>
   fst (the (request_queue_select_locked
     (demo_queue\<lparr>rq_queue := [demo_entry, zero_entry], queue_count := 1\<rparr>))) = demo_entry"
proof -
  let ?q = "demo_queue\<lparr>rq_queue := [demo_entry, zero_entry], queue_count := 1\<rparr>"
  have "rq_wf ?q" "active_count ?q < worker_count ?q" by code_simp+
  note spec = request_queue_select_refines [OF this]
  have "request_queue_select_locked ?q = Some (demo_entry, demo_busy\<lparr>rq_broadcasts := 0\<rparr>)"
    by code_simp
  moreover have "rq_pending ?q = [demo_entry]" "rq_running ?q = []" by code_simp+
  ultimately show ?thesis using spec by simp
qed

end
