(* ===== verification/Execution_Transaction.thy ===== *)
theory Execution_Transaction
  imports Core_Sha256
begin

text \<open>
  \<^verbatim>\<open>src/runtime/transaction.c\<close>: execution in admitted quanta with cancellation, yielding and
  transactional publication.  Callbacks are functions in the options record: those called once per
  ordinal take the ordinal, those polled repeatedly take the number of the poll, and the clock
  takes the number of the reading.  Every call of a callback with an effect is logged, so that the
  properties speak about what the callbacks see.
\<close>

section \<open>Data\<close>

datatype yvex_execution_transaction_state =
    YVEX_EXECUTION_TRANSACTION_PREPARED | YVEX_EXECUTION_TRANSACTION_EXECUTING
  | YVEX_EXECUTION_TRANSACTION_SAFE | YVEX_EXECUTION_TRANSACTION_YIELDED
  | YVEX_EXECUTION_TRANSACTION_READY_TO_COMMIT | YVEX_EXECUTION_TRANSACTION_COMMITTED
  | YVEX_EXECUTION_TRANSACTION_ABORTED

datatype yvex_execution_safe_point_action =
    YVEX_EXECUTION_SAFE_POINT_CONTINUE | YVEX_EXECUTION_SAFE_POINT_YIELD
  | YVEX_EXECUTION_SAFE_POINT_CANCEL | YVEX_EXECUTION_SAFE_POINT_COMMIT

text \<open>A fallible callback sees the caller's error and may replace it.\<close>

type_synonym callback = "yvex_error option \<Rightarrow> yvex_status \<times> yvex_error option"

record yvex_execution_resource_lease =
  lease_identity :: "string option"
  lease_context :: bool
  lease_retain :: "callback option"
  lease_release :: "(nat \<Rightarrow> callback) option"

record yvex_execution_transaction_options =
  request_identity :: "string option"
  quantum_count :: u64
  opt_resource :: "yvex_execution_resource_lease option"
  opt_execute :: "(u64 \<Rightarrow> callback) option"
  cancel_requested :: "(nat \<Rightarrow> bool) option"
  yield_requested :: "(nat \<Rightarrow> bool) option"
  opt_publish :: "callback option"
  opt_discard :: bool
  opt_clock :: "nat \<Rightarrow> timespec option"

record yvex_execution_transaction_summary =
  tx_state :: yvex_execution_transaction_state
  admitted_quanta :: u64
  started_quanta :: u64
  completed_quanta :: u64
  safe_points :: u64
  yields :: u64
  resumes :: u64
  cancellations :: u64
  publications :: u64
  discards :: u64
  retained_resources :: u64
  setup_nanoseconds :: u64
  quantum_wall_nanoseconds :: u64
  safe_point_nanoseconds :: u64
  sum_request_identity :: string
  sum_resource_identity :: string

datatype transaction_event =
    Retain_Called yvex_status
  | Execute_Called u64 yvex_status
  | Publish_Called yvex_status
  | Discard_Called
  | Release_Called yvex_status

record yvex_runtime_execution_transaction =
  tx_options :: yvex_execution_transaction_options
  tx_resource :: "yvex_execution_resource_lease option"
  tx_summary :: yvex_execution_transaction_summary
  quantum_started :: timespec
  resource_retained :: bool
  discarded :: bool
  tx_events :: "transaction_event list"
  cancel_polls :: nat
  yield_polls :: nat
  clock_reads :: nat
  release_calls :: nat

abbreviation (input) state_of :: "yvex_runtime_execution_transaction \<Rightarrow> yvex_execution_transaction_state"
  where "state_of tx \<equiv> tx_state (tx_summary tx)"

section \<open>Helpers\<close>

definition transaction_refuse ::
  "yvex_error option \<Rightarrow> yvex_status \<Rightarrow> string \<Rightarrow> yvex_status \<times> yvex_error option" where
  "transaction_refuse err status reason =
     (status, yvex_error_set err status (Some ''runtime.execution-transaction'') (Some reason))"

definition log_event ::
  "transaction_event \<Rightarrow> yvex_runtime_execution_transaction \<Rightarrow> yvex_runtime_execution_transaction" where
  "log_event e tx = tx\<lparr>tx_events := tx_events tx @ [e]\<rparr>"

definition summarize ::
  "(yvex_execution_transaction_summary \<Rightarrow> yvex_execution_transaction_summary) \<Rightarrow>
   yvex_runtime_execution_transaction \<Rightarrow> yvex_runtime_execution_transaction" where
  "summarize f tx = tx\<lparr>tx_summary := f (tx_summary tx)\<rparr>"

definition transaction_now ::
  "yvex_runtime_execution_transaction \<Rightarrow> timespec option \<times> yvex_runtime_execution_transaction" where
  "transaction_now tx =
     (opt_clock (tx_options tx) (clock_reads tx), tx\<lparr>clock_reads := clock_reads tx + 1\<rparr>)"

definition transaction_elapsed :: "timespec option \<Rightarrow> timespec option \<Rightarrow> u64" where
  "transaction_elapsed start finish =
     (case (start, finish) of
        (Some s, Some f) \<Rightarrow>
          if tv_sec f < tv_sec s \<or> (tv_sec f = tv_sec s \<and> tv_nsec f < tv_nsec s) then 0
          else
            let seconds = of_int (tv_sec f - tv_sec s) :: u64 in
            if tv_nsec f \<ge> tv_nsec s
            then let nanoseconds = of_int (tv_nsec f - tv_nsec s) in
              (if seconds > (ULLONG_MAX - nanoseconds) div 1000000000 then ULLONG_MAX
               else seconds * 1000000000 + nanoseconds)
            else if seconds = 0 then 0
            else let seconds = seconds - 1;
                     nanoseconds = 1000000000 + of_int (tv_nsec f) - of_int (tv_nsec s) in
              (if seconds > (ULLONG_MAX - nanoseconds) div 1000000000 then ULLONG_MAX
               else seconds * 1000000000 + nanoseconds)
      | _ \<Rightarrow> 0)"

definition transaction_add :: "u64 \<Rightarrow> u64 \<Rightarrow> u64" where
  "transaction_add acc value = (if ULLONG_MAX - acc < value then ULLONG_MAX else acc + value)"

definition transaction_discard ::
  "yvex_runtime_execution_transaction \<Rightarrow> yvex_runtime_execution_transaction" where
  "transaction_discard tx =
     (if discarded tx \<or> publications (tx_summary tx) \<noteq> 0 then tx
      else summarize (\<lambda>s. s\<lparr>discards := discards s + 1\<rparr>)
        ((if opt_discard (tx_options tx) then log_event Discard_Called tx else tx)\<lparr>discarded := True\<rparr>))"

definition transaction_stop_quantum ::
  "yvex_runtime_execution_transaction \<Rightarrow> yvex_runtime_execution_transaction" where
  "transaction_stop_quantum tx =
     (if state_of tx \<noteq> YVEX_EXECUTION_TRANSACTION_EXECUTING then tx
      else case transaction_now tx of
        (Some finish, tx1) \<Rightarrow>
          summarize (\<lambda>s. s\<lparr>quantum_wall_nanoseconds := transaction_add (quantum_wall_nanoseconds s)
            (transaction_elapsed (Some (quantum_started tx)) (Some finish))\<rparr>) tx1
      | (None, tx1) \<Rightarrow> tx1)"

definition enter_state ::
  "yvex_execution_transaction_state \<Rightarrow> yvex_runtime_execution_transaction \<Rightarrow>
   yvex_runtime_execution_transaction" where
  "enter_state st tx = summarize (\<lambda>s. s\<lparr>tx_state := st\<rparr>) tx"

definition transaction_cancel ::
  "yvex_runtime_execution_transaction \<Rightarrow> yvex_runtime_execution_transaction" where
  "transaction_cancel tx =
     enter_state YVEX_EXECUTION_TRANSACTION_ABORTED
       (transaction_discard
         (summarize (\<lambda>s. s\<lparr>cancellations := cancellations s + 1\<rparr>)
           (transaction_stop_quantum tx)))"

definition transaction_cancel_requested ::
  "yvex_runtime_execution_transaction \<Rightarrow> bool \<times> yvex_runtime_execution_transaction" where
  "transaction_cancel_requested tx =
     (case cancel_requested (tx_options tx) of
        None \<Rightarrow> (False, tx)
      | Some requested \<Rightarrow> (requested (cancel_polls tx), tx\<lparr>cancel_polls := cancel_polls tx + 1\<rparr>))"

definition transaction_yield_requested ::
  "yvex_runtime_execution_transaction \<Rightarrow> bool \<times> yvex_runtime_execution_transaction" where
  "transaction_yield_requested tx =
     (case yield_requested (tx_options tx) of
        None \<Rightarrow> (False, tx)
      | Some requested \<Rightarrow> (requested (yield_polls tx), tx\<lparr>yield_polls := yield_polls tx + 1\<rparr>))"

section \<open>Operations\<close>

definition lease_admissible :: "yvex_execution_resource_lease \<Rightarrow> bool" where
  "lease_admissible lease \<longleftrightarrow>
     lease_identity lease \<noteq> None \<and> yvex_sha256_hex_valid (lease_identity lease) \<and>
     lease_context lease \<and> lease_retain lease \<noteq> None \<and> lease_release lease \<noteq> None"

definition options_admissible :: "yvex_execution_transaction_options \<Rightarrow> bool" where
  "options_admissible options \<longleftrightarrow>
     request_identity options \<noteq> None \<and> yvex_sha256_hex_valid (request_identity options) \<and>
     quantum_count options \<noteq> 0 \<and> opt_execute options \<noteq> None \<and>
     (case opt_resource options of None \<Rightarrow> True | Some lease \<Rightarrow> lease_admissible lease)"

definition transaction_zero :: "yvex_execution_transaction_options \<Rightarrow> yvex_runtime_execution_transaction" where
  "transaction_zero options =
     \<lparr>tx_options = options, tx_resource = None,
      tx_summary = \<lparr>tx_state = YVEX_EXECUTION_TRANSACTION_PREPARED,
        admitted_quanta = quantum_count options, started_quanta = 0, completed_quanta = 0,
        safe_points = 0, yields = 0, resumes = 0, cancellations = 0, publications = 0,
        discards = 0, retained_resources = 0, setup_nanoseconds = 0,
        quantum_wall_nanoseconds = 0, safe_point_nanoseconds = 0,
        sum_request_identity =
          the (yvex_core_text_copy (Some []) 65 (request_identity options)),
        sum_resource_identity = []\<rparr>,
      quantum_started = \<lparr>tv_sec = 0, tv_nsec = 0\<rparr>, resource_retained = False,
      discarded = False, tx_events = [], cancel_polls = 0, yield_polls = 0, clock_reads = 1,
      release_calls = 0\<rparr>"

text \<open>The retained lease, recorded in the transaction.\<close>

definition transaction_hold ::
  "yvex_execution_resource_lease \<Rightarrow> yvex_runtime_execution_transaction \<Rightarrow>
   yvex_runtime_execution_transaction" where
  "transaction_hold lease tx =
     summarize (\<lambda>s. s\<lparr>retained_resources := 1,
         sum_resource_identity := the (yvex_core_text_copy (Some []) 65 (lease_identity lease))\<rparr>)
       ((log_event (Retain_Called YVEX_OK) tx)\<lparr>tx_resource := Some lease, resource_retained := True\<rparr>)"

text \<open>The first clock reading happens before the allocation; its number is 0.\<close>

definition transaction_setup_timing ::
  "yvex_runtime_execution_transaction \<Rightarrow> yvex_runtime_execution_transaction" where
  "transaction_setup_timing tx =
     (case opt_clock (tx_options tx) 0 of
        None \<Rightarrow> tx
      | Some start \<Rightarrow>
          (case transaction_now tx of
             (Some finish, tx1) \<Rightarrow>
               summarize (\<lambda>s. s\<lparr>setup_nanoseconds :=
                 transaction_elapsed (Some start) (Some finish)\<rparr>) tx1
           | (None, tx1) \<Rightarrow> tx1))"

definition yvex_runtime_execution_transaction_open ::
  "bool \<Rightarrow> bool \<Rightarrow> yvex_execution_transaction_options option \<Rightarrow> yvex_error option \<Rightarrow>
   (yvex_status \<times> yvex_error option) \<times> yvex_runtime_execution_transaction option" where
  "yvex_runtime_execution_transaction_open out allocated options err =
     (case options of
        None \<Rightarrow> (transaction_refuse err YVEX_ERR_INVALID_ARG
          ''one bounded identity-bound execution request is required'', None)
      | Some options \<Rightarrow>
          if \<not> out \<or> \<not> options_admissible options
          then (transaction_refuse err YVEX_ERR_INVALID_ARG
            ''one bounded identity-bound execution request is required'', None)
          else if \<not> allocated
          then (transaction_refuse err YVEX_ERR_NOMEM ''execution transaction allocation failed'', None)
          else case opt_resource options of
            None \<Rightarrow> ((YVEX_OK, yvex_error_clear err),
              Some (transaction_setup_timing (transaction_zero options)))
          | Some lease \<Rightarrow>
              (case the (lease_retain lease) err of (rc, err1) \<Rightarrow>
                 if rc \<noteq> YVEX_OK then ((rc, err1), None)
                 else ((YVEX_OK, yvex_error_clear err1),
                   Some (transaction_setup_timing
                     (transaction_hold lease (transaction_zero options))))))"

definition transaction_quantum_begin ::
  "u64 \<Rightarrow> yvex_error option \<Rightarrow> yvex_runtime_execution_transaction \<Rightarrow>
   (yvex_status \<times> yvex_error option) \<times> yvex_runtime_execution_transaction" where
  "transaction_quantum_begin ordinal err tx =
     (if (state_of tx \<noteq> YVEX_EXECUTION_TRANSACTION_PREPARED \<and>
          state_of tx \<noteq> YVEX_EXECUTION_TRANSACTION_SAFE) \<or>
         ordinal \<noteq> completed_quanta (tx_summary tx) \<or> ordinal \<ge> admitted_quanta (tx_summary tx)
      then (transaction_refuse err YVEX_ERR_STATE
        ''the next admitted execution quantum is required'', tx)
      else case transaction_cancel_requested tx of
        (True, tx1) \<Rightarrow> (transaction_refuse err YVEX_ERR_CANCELLED
          ''execution was cancelled before the next quantum'', transaction_cancel tx1)
      | (False, tx1) \<Rightarrow>
          (case transaction_now (summarize (\<lambda>s. s\<lparr>tx_state := YVEX_EXECUTION_TRANSACTION_EXECUTING,
               started_quanta := started_quanta s + 1\<rparr>) tx1) of (reading, tx2) \<Rightarrow>
             ((YVEX_OK, yvex_error_clear err),
              tx2\<lparr>quantum_started :=
                (case reading of Some t \<Rightarrow> t | None \<Rightarrow> \<lparr>tv_sec = 0, tv_nsec = 0\<rparr>)\<rparr>)))"

text \<open>
  The action output of the safe point is \<open>None\<close> where the C code leaves it 0.  The decision is
  separated from the two clock readings around it.
\<close>

definition safe_point_decide ::
  "yvex_runtime_execution_transaction \<Rightarrow>
   yvex_execution_safe_point_action \<times> yvex_runtime_execution_transaction" where
  "safe_point_decide tx =
     (case transaction_cancel_requested tx of
        (True, tx1) \<Rightarrow>
          (YVEX_EXECUTION_SAFE_POINT_CANCEL,
           enter_state YVEX_EXECUTION_TRANSACTION_ABORTED (transaction_discard
             (summarize (\<lambda>s. s\<lparr>cancellations := cancellations s + 1\<rparr>) tx1)))
      | (False, tx1) \<Rightarrow>
          if completed_quanta (tx_summary tx1) = admitted_quanta (tx_summary tx1)
          then (YVEX_EXECUTION_SAFE_POINT_COMMIT,
                enter_state YVEX_EXECUTION_TRANSACTION_READY_TO_COMMIT tx1)
          else (case transaction_yield_requested tx1 of
            (True, tx2) \<Rightarrow>
              (YVEX_EXECUTION_SAFE_POINT_YIELD,
               enter_state YVEX_EXECUTION_TRANSACTION_YIELDED
                 (summarize (\<lambda>s. s\<lparr>yields := yields s + 1\<rparr>) tx2))
          | (False, tx2) \<Rightarrow>
              (YVEX_EXECUTION_SAFE_POINT_CONTINUE, enter_state YVEX_EXECUTION_TRANSACTION_SAFE tx2)))"

definition transaction_safe_point ::
  "yvex_error option \<Rightarrow> yvex_runtime_execution_transaction \<Rightarrow>
   (yvex_status \<times> yvex_error option) \<times> yvex_execution_safe_point_action option \<times>
   yvex_runtime_execution_transaction" where
  "transaction_safe_point err tx =
     (if state_of tx \<noteq> YVEX_EXECUTION_TRANSACTION_EXECUTING
      then (transaction_refuse err YVEX_ERR_STATE ''one completed execution quantum is required'',
            None, tx)
      else
        let tx1 = summarize (\<lambda>s. s\<lparr>completed_quanta := completed_quanta s + 1,
              safe_points := safe_points s + 1\<rparr>) (transaction_stop_quantum tx);
            (start, tx2) = transaction_now tx1;
            (action, tx3) = safe_point_decide tx2;
            tx4 = (if start \<noteq> None then
                (case transaction_now tx3 of
                   (Some finish, tx4) \<Rightarrow> summarize (\<lambda>s. s\<lparr>safe_point_nanoseconds :=
                     transaction_add (safe_point_nanoseconds s)
                       (transaction_elapsed start (Some finish))\<rparr>) tx4
                 | (None, tx4) \<Rightarrow> tx4) else tx3)
        in ((YVEX_OK, yvex_error_clear err), Some action, tx4))"

definition yvex_runtime_execution_transaction_abort ::
  "yvex_error option \<Rightarrow> yvex_runtime_execution_transaction \<Rightarrow>
   (yvex_status \<times> yvex_error option) \<times> yvex_runtime_execution_transaction" where
  "yvex_runtime_execution_transaction_abort err tx =
     (if state_of tx = YVEX_EXECUTION_TRANSACTION_COMMITTED
      then (transaction_refuse err YVEX_ERR_STATE
        ''a committed execution transaction cannot be aborted'', tx)
      else ((YVEX_OK, yvex_error_clear err),
        if state_of tx \<noteq> YVEX_EXECUTION_TRANSACTION_ABORTED
        then enter_state YVEX_EXECUTION_TRANSACTION_ABORTED
               (transaction_discard (transaction_stop_quantum tx))
        else tx))"

text \<open>The error after a failed callback: the callback's own, or a generic one.\<close>

definition callback_error ::
  "yvex_error option \<Rightarrow> yvex_status \<Rightarrow> string \<Rightarrow> yvex_error option" where
  "callback_error err rc reason =
     (if yvex_error_is_set err then err else snd (transaction_refuse err rc reason))"

definition yvex_runtime_execution_transaction_execute_quantum ::
  "yvex_error option \<Rightarrow> yvex_runtime_execution_transaction \<Rightarrow>
   (yvex_status \<times> yvex_error option) \<times> yvex_execution_safe_point_action option \<times>
   yvex_runtime_execution_transaction" where
  "yvex_runtime_execution_transaction_execute_quantum err tx =
     (let ordinal = completed_quanta (tx_summary tx) in
      case transaction_quantum_begin ordinal err tx of ((rc, err1), tx1) \<Rightarrow>
        if rc \<noteq> YVEX_OK then ((rc, err1), None, tx1)
        else case the (opt_execute (tx_options tx1)) ordinal err1 of (rc2, err2) \<Rightarrow>
          let tx2 = log_event (Execute_Called ordinal rc2) tx1 in
          if rc2 \<noteq> YVEX_OK
          then ((rc2, callback_error err2 rc2 ''execution quantum failed without an error''), None,
                snd (yvex_runtime_execution_transaction_abort
                  (Some \<lparr>err_code = YVEX_OK, err_where = [], err_message = []\<rparr>) tx2))
          else transaction_safe_point err2 tx2)"

definition yvex_runtime_execution_transaction_resume ::
  "yvex_error option \<Rightarrow> yvex_runtime_execution_transaction \<Rightarrow>
   (yvex_status \<times> yvex_error option) \<times> yvex_runtime_execution_transaction" where
  "yvex_runtime_execution_transaction_resume err tx =
     (if state_of tx \<noteq> YVEX_EXECUTION_TRANSACTION_YIELDED
      then (transaction_refuse err YVEX_ERR_STATE ''a yielded execution transaction is required'', tx)
      else case transaction_cancel_requested tx of
        (True, tx1) \<Rightarrow> (transaction_refuse err YVEX_ERR_CANCELLED
          ''yielded execution was cancelled before resumption'', transaction_cancel tx1)
      | (False, tx1) \<Rightarrow> ((YVEX_OK, yvex_error_clear err),
          summarize (\<lambda>s. s\<lparr>tx_state := YVEX_EXECUTION_TRANSACTION_SAFE, resumes := resumes s + 1\<rparr>)
            tx1))"

definition yvex_runtime_execution_transaction_commit ::
  "yvex_error option \<Rightarrow> yvex_runtime_execution_transaction \<Rightarrow>
   (yvex_status \<times> yvex_error option) \<times> yvex_runtime_execution_transaction" where
  "yvex_runtime_execution_transaction_commit err tx =
     (if state_of tx \<noteq> YVEX_EXECUTION_TRANSACTION_READY_TO_COMMIT
      then (transaction_refuse err YVEX_ERR_STATE
        ''a fully executed transaction is required for publication'', tx)
      else case transaction_cancel_requested tx of
        (True, tx1) \<Rightarrow> (transaction_refuse err YVEX_ERR_CANCELLED
          ''execution was cancelled before publication'', transaction_cancel tx1)
      | (False, tx1) \<Rightarrow>
          let ((rc, err1), tx2) =
            (case opt_publish (tx_options tx1) of
               None \<Rightarrow> ((YVEX_OK, err), tx1)
             | Some publish \<Rightarrow> (publish err, log_event (Publish_Called (fst (publish err))) tx1))
          in if rc \<noteq> YVEX_OK
             then ((rc, callback_error err1 rc ''transaction publication failed without an error''),
                   enter_state YVEX_EXECUTION_TRANSACTION_ABORTED (transaction_discard tx2))
             else ((YVEX_OK, yvex_error_clear err1),
                   summarize (\<lambda>s. s\<lparr>publications := publications s + 1,
                     tx_state := YVEX_EXECUTION_TRANSACTION_COMMITTED\<rparr>) tx2))"

definition yvex_runtime_execution_transaction_summary_copy ::
  "yvex_runtime_execution_transaction \<Rightarrow> yvex_execution_transaction_summary" where
  "yvex_runtime_execution_transaction_summary_copy tx = tx_summary tx"

text \<open>The boolean says whether the handle was freed; the transaction is its last state before that.\<close>

definition yvex_runtime_execution_transaction_close ::
  "yvex_error option \<Rightarrow> yvex_runtime_execution_transaction \<Rightarrow>
   (yvex_status \<times> yvex_error option) \<times> bool \<times> yvex_runtime_execution_transaction" where
  "yvex_runtime_execution_transaction_close err tx =
     (let owned =
        (if state_of tx \<noteq> YVEX_EXECUTION_TRANSACTION_COMMITTED \<and>
            state_of tx \<noteq> YVEX_EXECUTION_TRANSACTION_ABORTED
         then enter_state YVEX_EXECUTION_TRANSACTION_ABORTED
                (transaction_discard (transaction_stop_quantum tx))
         else tx)
      in if resource_retained owned
         then case the (lease_release (the (tx_resource owned))) (release_calls owned) err of
           (rc, err1) \<Rightarrow>
             let owned1 = (log_event (Release_Called rc) owned)
                            \<lparr>release_calls := release_calls owned + 1\<rparr> in
             if rc \<noteq> YVEX_OK then ((rc, err1), False, owned1)
             else ((YVEX_OK, yvex_error_clear err1), True, owned1\<lparr>resource_retained := False\<rparr>)
         else ((YVEX_OK, yvex_error_clear err), True, owned))"

section \<open>What the callbacks saw\<close>

definition executed_ordinals :: "transaction_event list \<Rightarrow> u64 list" where
  "executed_ordinals ev =
     concat (map (\<lambda>e. case e of Execute_Called ordinal _ \<Rightarrow> [ordinal] | _ \<Rightarrow> []) ev)"

definition publish_results :: "transaction_event list \<Rightarrow> yvex_status list" where
  "publish_results ev = concat (map (\<lambda>e. case e of Publish_Called rc \<Rightarrow> [rc] | _ \<Rightarrow> []) ev)"

definition discard_calls :: "transaction_event list \<Rightarrow> nat" where
  "discard_calls ev = length (filter (\<lambda>e. e = Discard_Called) ev)"

definition retain_calls :: "transaction_event list \<Rightarrow> nat" where
  "retain_calls ev = length (filter (\<lambda>e. e = Retain_Called YVEX_OK) ev)"

definition effective_releases :: "transaction_event list \<Rightarrow> nat" where
  "effective_releases ev = length (filter (\<lambda>e. e = Release_Called YVEX_OK) ev)"

lemma event_views [simp]:
  "executed_ordinals [] = []" "publish_results [] = []" "discard_calls [] = 0"
  "retain_calls [] = 0" "effective_releases [] = 0"
  "executed_ordinals (ev @ [e]) =
     executed_ordinals ev @ (case e of Execute_Called ordinal _ \<Rightarrow> [ordinal] | _ \<Rightarrow> [])"
  "publish_results (ev @ [e]) = publish_results ev @ (case e of Publish_Called rc \<Rightarrow> [rc] | _ \<Rightarrow> [])"
  "discard_calls (ev @ [e]) = discard_calls ev + (if e = Discard_Called then 1 else 0)"
  "retain_calls (ev @ [e]) = retain_calls ev + (if e = Retain_Called YVEX_OK then 1 else 0)"
  "effective_releases (ev @ [e]) =
     effective_releases ev + (if e = Release_Called YVEX_OK then 1 else 0)"
  by (simp_all add: executed_ordinals_def publish_results_def discard_calls_def retain_calls_def
      effective_releases_def)

section \<open>The transaction as a state machine\<close>

text \<open>The boolean is whether the handle is still owned.\<close>

inductive transaction_init :: "bool \<times> yvex_runtime_execution_transaction \<Rightarrow> bool" where
  "yvex_runtime_execution_transaction_open True True (Some options) err = (r, Some tx) \<Longrightarrow>
   transaction_init (True, tx)"

inductive transaction_step ::
  "bool \<times> yvex_runtime_execution_transaction \<Rightarrow> bool \<times> yvex_runtime_execution_transaction \<Rightarrow> bool" where
  step_execute_quantum:
  "yvex_runtime_execution_transaction_execute_quantum err tx = (r, action, tx') \<Longrightarrow>
   transaction_step (True, tx) (True, tx')"
| step_resume:
  "yvex_runtime_execution_transaction_resume err tx = (r, tx') \<Longrightarrow>
   transaction_step (True, tx) (True, tx')"
| step_commit:
  "yvex_runtime_execution_transaction_commit err tx = (r, tx') \<Longrightarrow>
   transaction_step (True, tx) (True, tx')"
| step_abort:
  "yvex_runtime_execution_transaction_abort err tx = (r, tx') \<Longrightarrow>
   transaction_step (True, tx) (True, tx')"
| step_close:
  "yvex_runtime_execution_transaction_close err tx = (r, freed, tx') \<Longrightarrow>
   transaction_step (True, tx) (\<not> freed, tx')"

section \<open>Invariant\<close>

text \<open>Nothing published and nothing discarded yet.\<close>

definition undecided :: "yvex_runtime_execution_transaction \<Rightarrow> bool" where
  "undecided tx \<longleftrightarrow> \<not> discarded tx \<and> publications (tx_summary tx) = 0 \<and>
     publish_results (tx_events tx) = [] \<and> discard_calls (tx_events tx) = 0"

definition expected_discards :: "yvex_runtime_execution_transaction \<Rightarrow> nat" where
  "expected_discards tx = (if opt_discard (tx_options tx) then 1 else 0)"

text \<open>The decision that has been taken, by state.\<close>

definition decision_inv :: "yvex_runtime_execution_transaction \<Rightarrow> bool" where
  "decision_inv tx \<longleftrightarrow>
     (case state_of tx of
        YVEX_EXECUTION_TRANSACTION_COMMITTED \<Rightarrow>
          \<not> discarded tx \<and> publications (tx_summary tx) = 1 \<and>
          publish_results (tx_events tx) = (if opt_publish (tx_options tx) = None then [] else [YVEX_OK]) \<and>
          discard_calls (tx_events tx) = 0
      | YVEX_EXECUTION_TRANSACTION_ABORTED \<Rightarrow>
          discarded tx \<and> publications (tx_summary tx) = 0 \<and>
          length (publish_results (tx_events tx)) \<le> 1 \<and>
          YVEX_OK \<notin> set (publish_results (tx_events tx)) \<and>
          discard_calls (tx_events tx) = expected_discards tx
      | _ \<Rightarrow> undecided tx)"

text \<open>How far execution has come, by state.\<close>

definition quanta_inv :: "yvex_runtime_execution_transaction \<Rightarrow> bool" where
  "quanta_inv tx \<longleftrightarrow>
     executed_ordinals (tx_events tx) =
       map of_nat [0..<unat (started_quanta (tx_summary tx))] \<and>
     completed_quanta (tx_summary tx) \<le> started_quanta (tx_summary tx) \<and>
     started_quanta (tx_summary tx) \<le> admitted_quanta (tx_summary tx) \<and>
     (publish_results (tx_events tx) \<noteq> [] \<longrightarrow>
        completed_quanta (tx_summary tx) = admitted_quanta (tx_summary tx)) \<and>
     (case state_of tx of
        YVEX_EXECUTION_TRANSACTION_ABORTED \<Rightarrow> True
      | YVEX_EXECUTION_TRANSACTION_EXECUTING \<Rightarrow> False
      | YVEX_EXECUTION_TRANSACTION_READY_TO_COMMIT \<Rightarrow>
          started_quanta (tx_summary tx) = completed_quanta (tx_summary tx) \<and>
          completed_quanta (tx_summary tx) = admitted_quanta (tx_summary tx)
      | YVEX_EXECUTION_TRANSACTION_COMMITTED \<Rightarrow>
          started_quanta (tx_summary tx) = completed_quanta (tx_summary tx) \<and>
          completed_quanta (tx_summary tx) = admitted_quanta (tx_summary tx)
      | _ \<Rightarrow> started_quanta (tx_summary tx) = completed_quanta (tx_summary tx) \<and>
          completed_quanta (tx_summary tx) < admitted_quanta (tx_summary tx))"

definition lease_inv :: "bool \<Rightarrow> yvex_runtime_execution_transaction \<Rightarrow> bool" where
  "lease_inv owned tx \<longleftrightarrow>
     retain_calls (tx_events tx) = (if opt_resource (tx_options tx) = None then 0 else 1) \<and>
     retain_calls (tx_events tx) = effective_releases (tx_events tx) + (if resource_retained tx then 1 else 0) \<and>
     (owned \<longrightarrow> effective_releases (tx_events tx) = 0) \<and>
     (\<not> owned \<longrightarrow> \<not> resource_retained tx \<and>
        state_of tx \<in> {YVEX_EXECUTION_TRANSACTION_COMMITTED, YVEX_EXECUTION_TRANSACTION_ABORTED})"

definition transaction_inv :: "bool \<times> yvex_runtime_execution_transaction \<Rightarrow> bool" where
  "transaction_inv = (\<lambda>(owned, tx). decision_inv tx \<and> quanta_inv tx \<and> lease_inv owned tx)"

named_theorems tx_unfold \<open>the record-level helpers\<close>

lemmas [tx_unfold] = log_event_def summarize_def transaction_now_def enter_state_def

text \<open>Polls, clock readings and timing change only their own counters.\<close>

lemma cancel_requested_poll:
  "transaction_cancel_requested tx = (c, tx1) \<Longrightarrow> \<exists>n. tx1 = tx\<lparr>cancel_polls := n\<rparr>"
proof (cases "cancel_requested (tx_options tx)")
  case None
  assume "transaction_cancel_requested tx = (c, tx1)"
  with None have "tx1 = tx\<lparr>cancel_polls := cancel_polls tx\<rparr>"
    by (simp add: transaction_cancel_requested_def)
  then show ?thesis ..
qed (auto simp: transaction_cancel_requested_def)

lemma yield_requested_poll:
  "transaction_yield_requested tx = (c, tx1) \<Longrightarrow> \<exists>n. tx1 = tx\<lparr>yield_polls := n\<rparr>"
proof (cases "yield_requested (tx_options tx)")
  case None
  assume "transaction_yield_requested tx = (c, tx1)"
  with None have "tx1 = tx\<lparr>yield_polls := yield_polls tx\<rparr>"
    by (simp add: transaction_yield_requested_def)
  then show ?thesis ..
qed (auto simp: transaction_yield_requested_def)

lemma stop_quantum_timing:
  "\<exists>n w. transaction_stop_quantum tx =
     tx\<lparr>clock_reads := n, tx_summary := (tx_summary tx)\<lparr>quantum_wall_nanoseconds := w\<rparr>\<rparr>"
proof (cases "state_of tx = YVEX_EXECUTION_TRANSACTION_EXECUTING")
  case True
  show ?thesis
  proof (cases "opt_clock (tx_options tx) (clock_reads tx)")
    case None
    with True have "transaction_stop_quantum tx = tx\<lparr>clock_reads := clock_reads tx + 1,
        tx_summary := (tx_summary tx)\<lparr>quantum_wall_nanoseconds :=
          quantum_wall_nanoseconds (tx_summary tx)\<rparr>\<rparr>"
      by (simp add: transaction_stop_quantum_def tx_unfold)
    then show ?thesis by blast
  qed (use True in \<open>auto simp: transaction_stop_quantum_def tx_unfold\<close>)
next
  case False
  then have "transaction_stop_quantum tx = tx\<lparr>clock_reads := clock_reads tx,
      tx_summary := (tx_summary tx)\<lparr>quantum_wall_nanoseconds :=
        quantum_wall_nanoseconds (tx_summary tx)\<rparr>\<rparr>"
    by (simp add: transaction_stop_quantum_def)
  then show ?thesis by blast
qed

text \<open>The lease depends on neither the summary nor events of other callbacks.\<close>

lemma lease_inv_simps [simp]:
  "lease_inv True (summarize f tx) = lease_inv True tx"
  "lease_inv True (tx\<lparr>tx_summary := sm\<rparr>) = lease_inv True tx"
  "lease_inv b (tx\<lparr>cancel_polls := n\<rparr>) = lease_inv b tx"
  "lease_inv b (tx\<lparr>yield_polls := n\<rparr>) = lease_inv b tx"
  "lease_inv b (tx\<lparr>clock_reads := n\<rparr>) = lease_inv b tx"
  "lease_inv b (tx\<lparr>discarded := d\<rparr>) = lease_inv b tx"
  "lease_inv b (tx\<lparr>quantum_started := t\<rparr>) = lease_inv b tx"
  "lease_inv True (log_event (Publish_Called rc) tx) = lease_inv True tx"
  "lease_inv True (log_event (Execute_Called i rc) tx) = lease_inv True tx"
  "lease_inv True (log_event Discard_Called tx) = lease_inv True tx"
  by (simp_all add: lease_inv_def summarize_def log_event_def)

lemma lease_inv_discard [simp]: "lease_inv True (transaction_discard tx) = lease_inv True tx"
  by (simp add: transaction_discard_def)

lemma lease_inv_enter [simp]: "lease_inv True (enter_state st tx) = lease_inv True tx"
  by (simp add: enter_state_def)

text \<open>The facts that survive up to the moment an abort discards.\<close>

definition abortable :: "yvex_runtime_execution_transaction \<Rightarrow> bool" where
  "abortable tx \<longleftrightarrow> \<not> discarded tx \<and> publications (tx_summary tx) = 0 \<and>
     length (publish_results (tx_events tx)) \<le> 1 \<and>
     YVEX_OK \<notin> set (publish_results (tx_events tx)) \<and> discard_calls (tx_events tx) = 0 \<and>
     executed_ordinals (tx_events tx) = map of_nat [0..<unat (started_quanta (tx_summary tx))] \<and>
     completed_quanta (tx_summary tx) \<le> started_quanta (tx_summary tx) \<and>
     started_quanta (tx_summary tx) \<le> admitted_quanta (tx_summary tx) \<and>
     (publish_results (tx_events tx) \<noteq> [] \<longrightarrow>
        completed_quanta (tx_summary tx) = admitted_quanta (tx_summary tx)) \<and> lease_inv True tx"

lemma abortable_updates [simp]:
  "abortable (tx\<lparr>cancel_polls := n\<rparr>) = abortable tx"
  "abortable (tx\<lparr>yield_polls := n\<rparr>) = abortable tx"
  "abortable (tx\<lparr>clock_reads := n\<rparr>) = abortable tx"
  "abortable (tx\<lparr>quantum_started := t\<rparr>) = abortable tx"
  "abortable (tx\<lparr>clock_reads := n, tx_summary := (tx_summary tx)\<lparr>quantum_wall_nanoseconds := w\<rparr>\<rparr>) =
     abortable tx"
  "abortable (summarize (\<lambda>s. s\<lparr>cancellations := c s\<rparr>) tx) = abortable tx"
  by (simp_all add: abortable_def, simp add: summarize_def)

lemma abortable_stop [simp]: "abortable (transaction_stop_quantum tx) = abortable tx"
proof -
  obtain n w where "transaction_stop_quantum tx =
      tx\<lparr>clock_reads := n, tx_summary := (tx_summary tx)\<lparr>quantum_wall_nanoseconds := w\<rparr>\<rparr>"
    using stop_quantum_timing by blast
  then show ?thesis by simp
qed

lemma abort_inv:
  "abortable tx \<Longrightarrow>
     transaction_inv (True, enter_state YVEX_EXECUTION_TRANSACTION_ABORTED (transaction_discard tx))"
  by (auto simp: abortable_def transaction_inv_def)
    (auto simp: decision_inv_def quanta_inv_def transaction_discard_def expected_discards_def tx_unfold)

lemma cancel_inv: "abortable tx \<Longrightarrow> transaction_inv (True, transaction_cancel tx)"
  unfolding transaction_cancel_def by (rule abort_inv) simp

lemma inv_abortable:
  assumes "transaction_inv (True, tx)"
    and "state_of tx \<noteq> YVEX_EXECUTION_TRANSACTION_COMMITTED"
    and "state_of tx \<noteq> YVEX_EXECUTION_TRANSACTION_ABORTED"
  shows "abortable tx"
  using assms
  by (cases "state_of tx")
    (auto simp: transaction_inv_def decision_inv_def quanta_inv_def abortable_def undecided_def)

section \<open>Preservation\<close>

lemma resume_inv:
  assumes inv: "transaction_inv (True, tx)"
    and run: "yvex_runtime_execution_transaction_resume err tx = (r, tx')"
  shows "transaction_inv (True, tx')"
proof (cases "state_of tx = YVEX_EXECUTION_TRANSACTION_YIELDED")
  case True
  then have ab: "abortable tx" using inv by (intro inv_abortable) auto
  obtain c tx1 where poll: "transaction_cancel_requested tx = (c, tx1)" by fastforce
  obtain n where tx1: "tx1 = tx\<lparr>cancel_polls := n\<rparr>" using cancel_requested_poll [OF poll] ..
  show ?thesis
  proof (cases c)
    case True
    then have "tx' = transaction_cancel tx1"
      using run \<open>state_of tx = _\<close> poll
      by (auto simp: yvex_runtime_execution_transaction_resume_def)
    then show ?thesis using ab tx1 by (auto intro: cancel_inv)
  next
    case False
    then show ?thesis
      using run \<open>state_of tx = _\<close> poll inv
      by (auto simp: yvex_runtime_execution_transaction_resume_def tx1 transaction_inv_def)
        (auto simp: decision_inv_def quanta_inv_def undecided_def tx_unfold)
  qed
next
  case False
  then show ?thesis
    using inv run by (auto simp: yvex_runtime_execution_transaction_resume_def)
qed

lemma abort_op_inv:
  assumes inv: "transaction_inv (True, tx)"
    and run: "yvex_runtime_execution_transaction_abort err tx = (r, tx')"
  shows "transaction_inv (True, tx')"
proof (cases "state_of tx \<in> {YVEX_EXECUTION_TRANSACTION_COMMITTED, YVEX_EXECUTION_TRANSACTION_ABORTED}")
  case True
  then show ?thesis using inv run by (auto simp: yvex_runtime_execution_transaction_abort_def)
next
  case False
  then have "abortable tx" using inv by (intro inv_abortable) auto
  then show ?thesis
    using run False by (auto simp: yvex_runtime_execution_transaction_abort_def intro: abort_inv)
qed

lemma commit_inv:
  assumes inv: "transaction_inv (True, tx)"
    and run: "yvex_runtime_execution_transaction_commit err tx = (r, tx')"
  shows "transaction_inv (True, tx')"
proof (cases "state_of tx = YVEX_EXECUTION_TRANSACTION_READY_TO_COMMIT")
  case ready: True
  then have ab: "abortable tx" using inv by (intro inv_abortable) auto
  obtain c tx1 where poll: "transaction_cancel_requested tx = (c, tx1)" by fastforce
  obtain n where tx1: "tx1 = tx\<lparr>cancel_polls := n\<rparr>" using cancel_requested_poll [OF poll] ..
  have quiet: "undecided tx" using inv ready by (simp add: transaction_inv_def decision_inv_def)
  have all: "completed_quanta (tx_summary tx) = admitted_quanta (tx_summary tx)"
    using inv ready by (simp add: transaction_inv_def quanta_inv_def)
  define rc where "rc = (case opt_publish (tx_options tx) of None \<Rightarrow> YVEX_OK | Some f \<Rightarrow> fst (f err))"
  define tx2 where "tx2 = (case opt_publish (tx_options tx) of None \<Rightarrow> tx1
      | Some f \<Rightarrow> log_event (Publish_Called (fst (f err))) tx1)"
  show ?thesis
  proof (cases c)
    case True
    then have "tx' = transaction_cancel tx1"
      using run ready poll by (auto simp: yvex_runtime_execution_transaction_commit_def)
    then show ?thesis using ab tx1 by (auto intro: cancel_inv)
  next
    case False
    show ?thesis
    proof (cases "rc = YVEX_OK")
      case True
      then have "tx' = summarize (\<lambda>s. s\<lparr>publications := publications s + 1,
          tx_state := YVEX_EXECUTION_TRANSACTION_COMMITTED\<rparr>) tx2"
        using run ready poll False
        by (auto simp: yvex_runtime_execution_transaction_commit_def rc_def tx2_def tx1 Let_def
            split: option.splits prod.splits)
      moreover have "lease_inv True tx2" using inv
        by (auto simp: transaction_inv_def tx2_def tx1 split: option.splits)
      moreover have "publish_results (tx_events tx2) =
          (if opt_publish (tx_options tx2) = None then [] else [YVEX_OK])"
        using quiet True
        by (auto simp: undecided_def tx2_def tx1 rc_def log_event_def split: option.splits)
      moreover have "executed_ordinals (tx_events tx2) = executed_ordinals (tx_events tx)"
        "discard_calls (tx_events tx2) = discard_calls (tx_events tx)"
        "tx_summary tx2 = tx_summary tx" "discarded tx2 = discarded tx"
        by (auto simp: tx2_def tx1 log_event_def split: option.splits)
      ultimately show ?thesis
        using inv ready quiet
        by (simp add: transaction_inv_def decision_inv_def quanta_inv_def undecided_def summarize_def)
    next
      case failed: False
      then have "tx' = enter_state YVEX_EXECUTION_TRANSACTION_ABORTED (transaction_discard tx2)"
        using run ready poll False
        by (auto simp: yvex_runtime_execution_transaction_commit_def rc_def tx2_def tx1 Let_def
            split: option.splits prod.splits)
      moreover have "abortable tx2"
        using ab quiet failed all
        by (cases "opt_publish (tx_options tx)")
          (auto simp: abortable_def undecided_def tx2_def tx1 rc_def, auto simp: log_event_def)
      ultimately show ?thesis by (simp add: abort_inv)
    qed
  qed
next
  case False
  then show ?thesis
    using inv run by (auto simp: yvex_runtime_execution_transaction_commit_def)
qed

text \<open>Between the start of a quantum and its safe point.\<close>

definition running_inv :: "yvex_runtime_execution_transaction \<Rightarrow> bool" where
  "running_inv tx \<longleftrightarrow> state_of tx = YVEX_EXECUTION_TRANSACTION_EXECUTING \<and> undecided tx \<and>
     executed_ordinals (tx_events tx) = map of_nat [0..<unat (started_quanta (tx_summary tx))] \<and>
     completed_quanta (tx_summary tx) < admitted_quanta (tx_summary tx) \<and>
     started_quanta (tx_summary tx) = completed_quanta (tx_summary tx) + 1 \<and> lease_inv True tx"

lemma running_abortable: "running_inv tx \<Longrightarrow> abortable tx"
  by (auto simp: running_inv_def abortable_def undecided_def inc_le_less le_inc_less)

lemma quantum_begin_runs:
  assumes inv: "transaction_inv (True, tx)" and ord: "ordinal = completed_quanta (tx_summary tx)"
    and run: "transaction_quantum_begin ordinal err tx = ((rc, err1), tx1)"
  shows "if rc = YVEX_OK then running_inv (log_event (Execute_Called ordinal rc2) tx1)
    else transaction_inv (True, tx1)"
proof (cases "(state_of tx \<noteq> YVEX_EXECUTION_TRANSACTION_PREPARED \<and>
          state_of tx \<noteq> YVEX_EXECUTION_TRANSACTION_SAFE) \<or>
         ordinal \<ge> admitted_quanta (tx_summary tx)")
  case True
  then show ?thesis
    using inv run by (auto simp: transaction_quantum_begin_def transaction_refuse_def ord)
next
  case False
  then have ab: "abortable tx" using inv by (intro inv_abortable) auto
  obtain c txp where poll: "transaction_cancel_requested tx = (c, txp)" by fastforce
  obtain n where txp: "txp = tx\<lparr>cancel_polls := n\<rparr>" using cancel_requested_poll [OF poll] ..
  show ?thesis
  proof (cases c)
    case True
    then have "tx1 = transaction_cancel txp" "rc \<noteq> YVEX_OK"
      using run False poll by (auto simp: transaction_quantum_begin_def transaction_refuse_def ord)
    then show ?thesis using ab txp by (auto intro: cancel_inv)
  next
    case nc: False
    have le: "ordinal < admitted_quanta (tx_summary tx)" using False by auto
    obtain t where "rc = YVEX_OK" and tx1: "tx1 = tx\<lparr>cancel_polls := n,
        tx_summary := (tx_summary tx)\<lparr>tx_state := YVEX_EXECUTION_TRANSACTION_EXECUTING,
          started_quanta := started_quanta (tx_summary tx) + 1\<rparr>,
        clock_reads := clock_reads tx + 1, quantum_started := t\<rparr>"
      using run False nc poll
      by (auto simp: transaction_quantum_begin_def ord txp tx_unfold)
    moreover have "started_quanta (tx_summary tx) = completed_quanta (tx_summary tx)"
      "undecided tx" "lease_inv True tx"
      "executed_ordinals (tx_events tx) = map of_nat [0..<unat (started_quanta (tx_summary tx))]"
      using inv False
      by (auto simp: transaction_inv_def quanta_inv_def decision_inv_def
          split: yvex_execution_transaction_state.splits)
    moreover have "unat (ordinal + 1) = Suc (unat ordinal)" using unat_inc_less [OF le] by simp
    ultimately show ?thesis
      using le
      unfolding tx1 by (simp add: running_inv_def undecided_def ord) (simp add: log_event_def)
  qed
qed

lemma safe_point_decide_inv:
  assumes "running_inv tx"
    and "safe_point_decide ((summarize (\<lambda>s. s\<lparr>completed_quanta := completed_quanta s + 1,
              safe_points := p s\<rparr>) tx)\<lparr>clock_reads := m\<rparr>) = (action, tx')"
  shows "transaction_inv (True, tx')"
proof -
  let ?tx = "(summarize (\<lambda>s. s\<lparr>completed_quanta := completed_quanta s + 1, safe_points := p s\<rparr>) tx)
    \<lparr>clock_reads := m\<rparr>"
  have ab: "abortable ?tx"
    using assms(1)
    by (simp add: running_inv_def abortable_def undecided_def inc_le_less) (simp add: summarize_def inc_le_less)
  obtain c tx1 where poll: "transaction_cancel_requested ?tx = (c, tx1)" by fastforce
  obtain n where tx1: "tx1 = ?tx\<lparr>cancel_polls := n\<rparr>" using cancel_requested_poll [OF poll] ..
  have lease: "lease_inv True tx1" using assms(1) by (simp add: tx1 running_inv_def)
  have quiet: "undecided tx1" using assms(1)
    by (simp add: tx1 running_inv_def undecided_def summarize_def)
  have counts: "started_quanta (tx_summary tx1) = completed_quanta (tx_summary tx1)"
    "completed_quanta (tx_summary tx1) \<le> admitted_quanta (tx_summary tx1)"
    "executed_ordinals (tx_events tx1) = map of_nat [0..<unat (started_quanta (tx_summary tx1))]"
    using assms(1) by (simp_all add: tx1 running_inv_def summarize_def inc_le_less)
  show ?thesis
  proof (cases c)
    case True
    then show ?thesis
      using assms(2) poll ab by (auto simp: safe_point_decide_def tx1 intro!: abort_inv)
  next
    case nc: False
    show ?thesis
    proof (cases "completed_quanta (tx_summary tx1) = admitted_quanta (tx_summary tx1)")
      case True
      then have "tx' = enter_state YVEX_EXECUTION_TRANSACTION_READY_TO_COMMIT tx1"
        using assms(2) poll nc by (simp add: safe_point_decide_def)
      then show ?thesis
        using True lease quiet counts
        by (simp add: transaction_inv_def)
          (simp add: decision_inv_def quanta_inv_def undecided_def enter_state_def summarize_def)
    next
      case False
      then have less: "completed_quanta (tx_summary tx1) < admitted_quanta (tx_summary tx1)"
        using counts(2) by simp
      obtain y tx2 where yield: "transaction_yield_requested tx1 = (y, tx2)" by fastforce
      obtain k where tx2: "tx2 = tx1\<lparr>yield_polls := k\<rparr>" using yield_requested_poll [OF yield] ..
      have "tx' = enter_state (if y then YVEX_EXECUTION_TRANSACTION_YIELDED
            else YVEX_EXECUTION_TRANSACTION_SAFE)
          (if y then summarize (\<lambda>s. s\<lparr>yields := yields s + 1\<rparr>) tx2 else tx2)"
        using assms(2) poll nc False yield by (cases y) (auto simp: safe_point_decide_def)
      then show ?thesis
        using less lease quiet counts tx2
        by (cases y) (simp_all add: transaction_inv_def,
            simp_all add: decision_inv_def quanta_inv_def undecided_def enter_state_def summarize_def)
    qed
  qed
qed

lemma timing_inv [simp]:
  "transaction_inv (True, tx\<lparr>clock_reads := n\<rparr>) = transaction_inv (True, tx)"
  "transaction_inv (True, summarize (\<lambda>s. s\<lparr>safe_point_nanoseconds := f s\<rparr>) tx) = transaction_inv (True, tx)"
  by (cases "state_of tx"; simp add: transaction_inv_def;
      simp add: decision_inv_def quanta_inv_def undecided_def expected_discards_def summarize_def)+

lemma running_stop: "running_inv tx \<Longrightarrow> running_inv (transaction_stop_quantum tx)"
proof -
  obtain n w where stop: "transaction_stop_quantum tx =
      tx\<lparr>clock_reads := n, tx_summary := (tx_summary tx)\<lparr>quantum_wall_nanoseconds := w\<rparr>\<rparr>"
    using stop_quantum_timing by blast
  show "running_inv tx \<Longrightarrow> ?thesis" by (simp add: stop running_inv_def undecided_def)
qed

lemma safe_point_inv:
  assumes run: "running_inv tx" and sp: "transaction_safe_point err tx = (r, action, tx')"
  shows "transaction_inv (True, tx')"
proof -
  let ?d = "summarize (\<lambda>s. s\<lparr>completed_quanta := completed_quanta s + 1,
              safe_points := safe_points s + 1\<rparr>) (transaction_stop_quantum tx)"
  obtain a tx3 where decide: "safe_point_decide (?d\<lparr>clock_reads := clock_reads ?d + 1\<rparr>) = (a, tx3)"
    by fastforce
  have inv: "transaction_inv (True, tx3)"
    by (rule safe_point_decide_inv [OF running_stop [OF run] decide])
  have "state_of tx = YVEX_EXECUTION_TRANSACTION_EXECUTING" using run by (simp add: running_inv_def)
  then show ?thesis
    using sp decide inv
    by (auto simp: transaction_safe_point_def transaction_now_def Let_def
        split: if_splits option.splits prod.splits)
qed

lemma execute_quantum_inv:
  assumes inv: "transaction_inv (True, tx)"
    and run: "yvex_runtime_execution_transaction_execute_quantum err tx = (r, action, tx')"
  shows "transaction_inv (True, tx')"
proof -
  let ?o = "completed_quanta (tx_summary tx)"
  obtain rc err1 tx1 where start: "transaction_quantum_begin ?o err tx = ((rc, err1), tx1)"
    by (metis prod.exhaust)
  note beg = quantum_begin_runs [OF inv refl start]
  show ?thesis
  proof (cases "rc = YVEX_OK")
    case True
    obtain rc2 err2 where ex: "the (opt_execute (tx_options tx1)) ?o err1 = (rc2, err2)" by fastforce
    have running: "running_inv (log_event (Execute_Called ?o rc2) tx1)" using beg True by simp
    show ?thesis
    proof (cases "rc2 = YVEX_OK")
      case True
      then show ?thesis
        using run \<open>rc = YVEX_OK\<close> start ex running
        by (auto simp: yvex_runtime_execution_transaction_execute_quantum_def Let_def
            intro: safe_point_inv)
    next
      case False
      have nt: "state_of (log_event (Execute_Called ?o rc2) tx1) =
          YVEX_EXECUTION_TRANSACTION_EXECUTING"
        using running by (simp add: running_inv_def)
      have "tx' = enter_state YVEX_EXECUTION_TRANSACTION_ABORTED (transaction_discard
          (transaction_stop_quantum (log_event (Execute_Called ?o rc2) tx1)))"
        using run \<open>rc = YVEX_OK\<close> start ex False nt
        by (auto simp: yvex_runtime_execution_transaction_execute_quantum_def Let_def
            yvex_runtime_execution_transaction_abort_def)
      then show ?thesis using running_abortable [OF running] by (simp add: abort_inv)
    qed
  next
    case False
    then show ?thesis
      using run start beg
      by (auto simp: yvex_runtime_execution_transaction_execute_quantum_def Let_def)
  qed
qed

lemma release_decision [simp]:
  "decision_inv ((log_event (Release_Called rc) tx)\<lparr>release_calls := n\<rparr>) = decision_inv tx"
  "quanta_inv ((log_event (Release_Called rc) tx)\<lparr>release_calls := n\<rparr>) = quanta_inv tx"
  "decision_inv (tx\<lparr>resource_retained := b\<rparr>) = decision_inv tx"
  "quanta_inv (tx\<lparr>resource_retained := b\<rparr>) = quanta_inv tx"
  by (cases "state_of tx"; simp add: decision_inv_def quanta_inv_def undecided_def
      expected_discards_def log_event_def)+

lemma close_inv:
  assumes inv: "transaction_inv (True, tx)"
    and run: "yvex_runtime_execution_transaction_close err tx = (r, freed, tx')"
  shows "transaction_inv (\<not> freed, tx')"
proof -
  define owned where "owned =
        (if state_of tx \<noteq> YVEX_EXECUTION_TRANSACTION_COMMITTED \<and>
            state_of tx \<noteq> YVEX_EXECUTION_TRANSACTION_ABORTED
         then enter_state YVEX_EXECUTION_TRANSACTION_ABORTED
                (transaction_discard (transaction_stop_quantum tx))
         else tx)"
  have owned_inv: "transaction_inv (True, owned)"
    using inv inv_abortable [OF inv] by (auto simp: owned_def intro: abort_inv)
  have final: "state_of owned \<in> {YVEX_EXECUTION_TRANSACTION_COMMITTED, YVEX_EXECUTION_TRANSACTION_ABORTED}"
    by (auto simp: owned_def tx_unfold)
  show ?thesis
  proof (cases "resource_retained owned")
    case True
    obtain rc err1 where rel:
      "the (lease_release (the (tx_resource owned))) (release_calls owned) err = (rc, err1)"
      by fastforce
    define logged where
      "logged = (log_event (Release_Called rc) owned)\<lparr>release_calls := release_calls owned + 1\<rparr>"
    have core: "decision_inv logged" "quanta_inv logged"
      using owned_inv by (simp_all add: logged_def transaction_inv_def)
    have "freed = (rc = YVEX_OK) \<and>
        tx' = (if rc = YVEX_OK then logged\<lparr>resource_retained := False\<rparr> else logged)"
      using run True rel unfolding yvex_runtime_execution_transaction_close_def
        owned_def [symmetric] Let_def logged_def
      by (auto split: if_splits)
    moreover have "lease_inv (rc \<noteq> YVEX_OK)
        (if rc = YVEX_OK then logged\<lparr>resource_retained := False\<rparr> else logged)"
      using owned_inv final True
      by (auto simp: transaction_inv_def lease_inv_def logged_def log_event_def split: if_splits)
    ultimately show ?thesis using core by (simp add: transaction_inv_def)
  next
    case False
    then have "freed" "tx' = owned"
      using run unfolding yvex_runtime_execution_transaction_close_def owned_def [symmetric] Let_def
      by auto
    then show ?thesis
      using owned_inv final False by (auto simp: transaction_inv_def lease_inv_def split: if_splits)
  qed
qed

lemma setup_timing_inv: "transaction_inv (True, transaction_setup_timing tx) = transaction_inv (True, tx)"
proof -
  have "transaction_inv (True, summarize (\<lambda>s. s\<lparr>setup_nanoseconds := f s\<rparr>) t) = transaction_inv (True, t)"
    for f t
    by (cases "state_of t"; simp add: transaction_inv_def;
        simp add: decision_inv_def quanta_inv_def undecided_def expected_discards_def summarize_def)
  then show ?thesis
    by (auto simp: transaction_setup_timing_def transaction_now_def split: option.splits)
qed

lemma zero_inv:
  assumes "quantum_count options \<noteq> 0"
  shows "opt_resource options = None \<Longrightarrow> transaction_inv (True, transaction_zero options)"
    and "opt_resource options = Some lease \<Longrightarrow>
      transaction_inv (True, transaction_hold lease (transaction_zero options))"
  using assms
  by (simp_all add: transaction_zero_def transaction_hold_def transaction_inv_def decision_inv_def
      quanta_inv_def lease_inv_def undecided_def summarize_def log_event_def word_neq_0_conv
      executed_ordinals_def publish_results_def discard_calls_def retain_calls_def
      effective_releases_def)

lemma open_inv: "transaction_init s \<Longrightarrow> transaction_inv s"
proof (induction rule: transaction_init.induct)
  case (1 options err r tx)
  then have q: "quantum_count options \<noteq> 0"
    by (auto simp: yvex_runtime_execution_transaction_open_def options_admissible_def split: if_splits)
  show ?case
    using 1 zero_inv [OF q]
    by (auto simp: yvex_runtime_execution_transaction_open_def setup_timing_inv
        split: if_splits option.splits prod.splits)
qed

lemma transaction_inv_step: "transaction_step s t \<Longrightarrow> transaction_inv s \<Longrightarrow> transaction_inv t"
  by (induction rule: transaction_step.induct)
    (blast intro: execute_quantum_inv resume_inv commit_inv abort_op_inv close_inv)+

interpretation tx_machine: invariant_system transaction_init transaction_step transaction_inv
  by unfold_locales (blast intro: open_inv transaction_inv_step)+

section \<open>Elapsed time\<close>

definition clock_ns :: "timespec \<Rightarrow> int" where
  "clock_ns t = tv_sec t * 1000000000 + tv_nsec t"

definition timespec_ok :: "timespec \<Rightarrow> bool" where
  "timespec_ok t \<longleftrightarrow> 0 \<le> tv_sec t \<and> tv_sec t < 2 ^ 63 \<and> 0 \<le> tv_nsec t \<and> tv_nsec t < 1000000000"

text \<open>The saturating combination of seconds and nanoseconds.\<close>

definition saturated_ns :: "u64 \<Rightarrow> u64 \<Rightarrow> u64" where
  "saturated_ns seconds nanoseconds =
     (if seconds > (ULLONG_MAX - nanoseconds) div 1000000000 then ULLONG_MAX
      else seconds * 1000000000 + nanoseconds)"

lemma unat_saturated_ns:
  "unat (saturated_ns sec ns) = min (2 ^ 64 - 1) (unat sec * 1000000000 + unat ns)"
proof -
  have room: "unat (ULLONG_MAX - ns) = 2 ^ 64 - 1 - unat ns"
    by (simp add: unat_sub unat_ULLONG_MAX word_order.extremum)
  have bound: "unat ns \<le> 2 ^ 64 - 1" using unat_u64_less [of ns] by simp
  have cmp: "(ULLONG_MAX - ns) div 1000000000 < sec \<longleftrightarrow>
      2 ^ 64 - 1 - unat ns < unat sec * 1000000000"
    by (simp add: word_less_nat_alt unat_div room div_less_iff_less_mult)
  show ?thesis
  proof (cases "(ULLONG_MAX - ns) div 1000000000 < sec")
    case True
    then have "2 ^ 64 - 1 < unat sec * 1000000000 + unat ns" using cmp by linarith
    then show ?thesis using True by (simp add: saturated_ns_def unat_ULLONG_MAX)
  next
    case False
    then have "unat sec * 1000000000 \<le> 2 ^ 64 - 1 - unat ns" using cmp by (simp add: not_less)
    then have fits: "unat sec * 1000000000 + unat ns < 2 ^ 64" using bound by simp
    then have "unat (sec * 1000000000 + ns) = unat sec * 1000000000 + unat ns"
      by (simp add: unat_word_ariths)
    then show ?thesis using False fits by (simp add: saturated_ns_def)
  qed
qed

lemma unat_of_int_u64: "0 \<le> k \<Longrightarrow> k < 2 ^ 64 \<Longrightarrow> unat (of_int k :: u64) = nat k"
  by (simp add: unsigned_of_int take_bit_int_eq_self)

lemma transaction_elapsed_saturated:
  assumes "timespec_ok s" "timespec_ok f"
  shows "transaction_elapsed (Some s) (Some f) =
    (if clock_ns f < clock_ns s then 0
     else if tv_nsec f \<ge> tv_nsec s
     then saturated_ns (of_int (tv_sec f - tv_sec s)) (of_int (tv_nsec f - tv_nsec s))
     else saturated_ns (of_int (tv_sec f - tv_sec s - 1)) (of_int (1000000000 + tv_nsec f - tv_nsec s)))"
proof -
  have late: "clock_ns f < clock_ns s \<longleftrightarrow>
      tv_sec f < tv_sec s \<or> (tv_sec f = tv_sec s \<and> tv_nsec f < tv_nsec s)"
    using assms by (auto simp: clock_ns_def timespec_ok_def)
  have zero: "(of_int (tv_sec f - tv_sec s) :: u64) = 0 \<longleftrightarrow> tv_sec f = tv_sec s"
    if "tv_sec s \<le> tv_sec f"
    using unat_of_int_u64 [of "tv_sec f - tv_sec s"] that assms
    by (auto simp: timespec_ok_def word_unat_eq_iff)
  show ?thesis
    using zero
    by (auto simp: transaction_elapsed_def late saturated_ns_def Let_def algebra_simps)
qed

section \<open>Properties\<close>

text \<open>A transaction of two quanta with a retained resource, used to exhibit the properties.\<close>

definition demo_identity :: string where
  "demo_identity = replicate 64 (CHR ''a'')"

definition demo_lease :: yvex_execution_resource_lease where
  "demo_lease = \<lparr>lease_identity = Some demo_identity, lease_context = True,
     lease_retain = Some (\<lambda>err. (YVEX_OK, err)), lease_release = Some (\<lambda>_ err. (YVEX_OK, err))\<rparr>"

definition demo_options :: yvex_execution_transaction_options where
  "demo_options = \<lparr>request_identity = Some demo_identity, quantum_count = 2,
     opt_resource = Some demo_lease, opt_execute = Some (\<lambda>_ err. (YVEX_OK, err)),
     cancel_requested = None, yield_requested = None,
     opt_publish = Some (\<lambda>err. (YVEX_OK, err)), opt_discard = True, opt_clock = (\<lambda>_. None)\<rparr>"

definition demo_open :: yvex_runtime_execution_transaction where
  "demo_open = the (snd (yvex_runtime_execution_transaction_open True True (Some demo_options) None))"

definition demo_executed :: yvex_runtime_execution_transaction where
  "demo_executed =
     snd (snd (yvex_runtime_execution_transaction_execute_quantum None
       (snd (snd (yvex_runtime_execution_transaction_execute_quantum None demo_open)))))"

definition demo_committed :: yvex_runtime_execution_transaction where
  "demo_committed = snd (yvex_runtime_execution_transaction_commit None demo_executed)"

definition demo_closed :: yvex_runtime_execution_transaction where
  "demo_closed = snd (snd (yvex_runtime_execution_transaction_close None demo_committed))"

lemma demo_open_reachable: "reachable_from transaction_init transaction_step (True, demo_open)"
proof -
  have "yvex_sha256_hex_valid (Some demo_identity)" by code_simp
  then have "snd (yvex_runtime_execution_transaction_open True True (Some demo_options) None) \<noteq> None"
    by (simp add: yvex_runtime_execution_transaction_open_def demo_options_def demo_lease_def
        options_admissible_def lease_admissible_def)
  then have "yvex_runtime_execution_transaction_open True True (Some demo_options) None =
      (fst (yvex_runtime_execution_transaction_open True True (Some demo_options) None), Some demo_open)"
    by (simp add: demo_open_def prod_eq_iff)
  then show ?thesis by (intro reachable_init transaction_init.intros)
qed

lemma step_execute_reachable:
  "reachable_from transaction_init transaction_step (True, tx) \<Longrightarrow>
   reachable_from transaction_init transaction_step
     (True, snd (snd (yvex_runtime_execution_transaction_execute_quantum err tx)))"
  by (erule reachable_step) (rule step_execute_quantum, simp add: prod_eq_iff)

lemma demo_executed_reachable: "reachable_from transaction_init transaction_step (True, demo_executed)"
  unfolding demo_executed_def by (intro step_execute_reachable demo_open_reachable)

lemma demo_committed_reachable: "reachable_from transaction_init transaction_step (True, demo_committed)"
  unfolding demo_committed_def
  by (rule reachable_step [OF demo_executed_reachable]) (rule step_commit, simp add: prod_eq_iff)

lemma demo_closed_events:
  "tx_events demo_closed = [Retain_Called YVEX_OK, Execute_Called 0 YVEX_OK, Execute_Called 1 YVEX_OK,
     Publish_Called YVEX_OK, Release_Called YVEX_OK]"
  "fst (snd (yvex_runtime_execution_transaction_close None demo_committed)) = True"
  "state_of demo_closed = YVEX_EXECUTION_TRANSACTION_COMMITTED"
  "opt_discard (tx_options demo_closed)"
  "Option.is_none (opt_publish (tx_options demo_closed)) = False"
  "Option.is_none (opt_resource (tx_options demo_closed)) = False"
  "unat (admitted_quanta (tx_summary demo_closed)) = 2"
  "unat (started_quanta (tx_summary demo_closed)) = 2"
  by code_simp+

lemma demo_closed_reachable: "reachable_from transaction_init transaction_step (False, demo_closed)"
proof -
  have "transaction_step (True, demo_committed)
      (\<not> fst (snd (yvex_runtime_execution_transaction_close None demo_committed)), demo_closed)"
    by (rule step_close) (simp add: demo_closed_def prod_eq_iff)
  then show ?thesis
    using reachable_step [OF demo_committed_reachable] demo_closed_events(2) by simp
qed

text \<open>
  (C15) Publication is atomic: whatever sequence of operations drives a transaction, the publish
  callback is called at most once and the discard callback at most once, never both a successful
  publication and a discard; and a closed transaction has either published with every quantum
  executed, or discarded.
\<close>

theorem transaction_publish_xor_discard:
  assumes "reachable_from transaction_init transaction_step (owned, tx)"
  shows "length (publish_results (tx_events tx)) \<le> 1 \<and> discard_calls (tx_events tx) \<le> 1 \<and>
    (YVEX_OK \<in> set (publish_results (tx_events tx)) \<longrightarrow> discard_calls (tx_events tx) = 0) \<and>
    (\<not> owned \<longrightarrow>
       (state_of tx = YVEX_EXECUTION_TRANSACTION_COMMITTED \<and> discard_calls (tx_events tx) = 0 \<and>
        publish_results (tx_events tx) = (if opt_publish (tx_options tx) = None then [] else [YVEX_OK]))
     \<or> (state_of tx = YVEX_EXECUTION_TRANSACTION_ABORTED \<and>
        discard_calls (tx_events tx) = (if opt_discard (tx_options tx) then 1 else 0) \<and>
        YVEX_OK \<notin> set (publish_results (tx_events tx))))"
proof -
  have "transaction_inv (owned, tx)" using assms by (rule tx_machine.reachable_inv)
  then have dec: "decision_inv tx" and lease: "lease_inv owned tx"
    by (simp_all add: transaction_inv_def)
  have "length (publish_results (tx_events tx)) \<le> 1 \<and> discard_calls (tx_events tx) \<le> 1 \<and>
      (YVEX_OK \<in> set (publish_results (tx_events tx)) \<longrightarrow> discard_calls (tx_events tx) = 0)"
    using dec by (cases "state_of tx")
      (simp_all add: decision_inv_def undecided_def expected_discards_def)
  moreover have "\<not> owned \<Longrightarrow>
      state_of tx = YVEX_EXECUTION_TRANSACTION_COMMITTED \<or> state_of tx = YVEX_EXECUTION_TRANSACTION_ABORTED"
    using lease by (auto simp: lease_inv_def)
  ultimately show ?thesis
    using dec by (auto simp: decision_inv_def expected_discards_def)
qed

theorem transaction_publish_xor_discard_witness:
  "publish_results (tx_events demo_closed) = [YVEX_OK] \<and> discard_calls (tx_events demo_closed) = 0"
  using transaction_publish_xor_discard [OF demo_closed_reachable] demo_closed_events(3,5)
  by (auto simp: Option.is_none_def)

text \<open>
  (C16) Quanta run in order and completely: the ordinals passed to the execute callback are
  \<open>0, 1, 2, \<dots>\<close> without gap or repetition, never beyond the admitted number, and publication is
  attempted only after all admitted quanta.
\<close>

theorem transaction_quanta_in_order:
  assumes "reachable_from transaction_init transaction_step (owned, tx)"
  shows "\<exists>n \<le> unat (admitted_quanta (tx_summary tx)).
    executed_ordinals (tx_events tx) = map of_nat [0..<n] \<and>
    (publish_results (tx_events tx) \<noteq> [] \<longrightarrow> n = unat (admitted_quanta (tx_summary tx)))"
proof (intro exI [of _ "unat (started_quanta (tx_summary tx))"] conjI impI)
  have "transaction_inv (owned, tx)" using assms by (rule tx_machine.reachable_inv)
  then have q: "quanta_inv tx" by (simp add: transaction_inv_def)
  then show "unat (started_quanta (tx_summary tx)) \<le> unat (admitted_quanta (tx_summary tx))"
    "executed_ordinals (tx_events tx) = map of_nat [0..<unat (started_quanta (tx_summary tx))]"
    by (simp_all add: quanta_inv_def word_le_nat_alt)
  assume "publish_results (tx_events tx) \<noteq> []"
  with q have "started_quanta (tx_summary tx) = admitted_quanta (tx_summary tx)"
    unfolding quanta_inv_def by (metis order.antisym)
  then show "unat (started_quanta (tx_summary tx)) = unat (admitted_quanta (tx_summary tx))" by simp
qed

theorem transaction_quanta_in_order_witness:
  "executed_ordinals (tx_events demo_closed) = [0, 1]"
proof -
  have "publish_results (tx_events demo_closed) \<noteq> []"
    by (simp add: demo_closed_events(1) publish_results_def)
  then have "executed_ordinals (tx_events demo_closed) = map of_nat [0..<2]"
    using transaction_quanta_in_order [OF demo_closed_reachable] demo_closed_events(7) by auto
  then show ?thesis by (simp add: numeral_2_eq_2)
qed

text \<open>
  (C17) The resource lease is balanced: a lease is retained exactly once, stays retained while the
  handle is owned, and closing releases it successfully exactly once, also when an earlier release
  attempt failed.
\<close>

theorem transaction_lease_balanced:
  assumes "reachable_from transaction_init transaction_step (owned, tx)"
  shows "retain_calls (tx_events tx) = (if opt_resource (tx_options tx) = None then 0 else 1) \<and>
    effective_releases (tx_events tx) = (if owned then 0 else retain_calls (tx_events tx)) \<and>
    (resource_retained tx \<longleftrightarrow> owned \<and> opt_resource (tx_options tx) \<noteq> None)"
  using tx_machine.reachable_inv [OF assms]
  by (auto simp: transaction_inv_def lease_inv_def split: if_splits)

theorem transaction_lease_balanced_witness:
  "retain_calls (tx_events demo_closed) = 1 \<and> effective_releases (tx_events demo_closed) = 1"
  using transaction_lease_balanced [OF demo_closed_reachable] demo_closed_events(6)
  by (auto simp: Option.is_none_def)

text \<open>
  (C18) Elapsed time is exact and saturates: for clock readings with normalized nanoseconds the
  result is the difference in nanoseconds, zero when the clock ran backwards, and the largest
  64-bit value when the difference does not fit.
\<close>

theorem transaction_elapsed_exact:
  assumes "timespec_ok s" and "timespec_ok f"
  shows "unat (transaction_elapsed (Some s) (Some f)) =
    min (2 ^ 64 - 1) (nat (clock_ns f - clock_ns s))"
proof -
  have ok: "0 \<le> tv_sec s" "tv_sec f < 2 ^ 63" "0 \<le> tv_nsec s" "tv_nsec s < 1000000000"
    "0 \<le> tv_nsec f" "tv_nsec f < 1000000000"
    using assms by (simp_all add: timespec_ok_def)
  have sat: "unat (saturated_ns (of_int a) (of_int b)) = min (2 ^ 64 - 1) (nat (a * 1000000000 + b))"
    if "0 \<le> a" "a < 2 ^ 64" "0 \<le> b" "b < 2 ^ 64" for a b
    using that by (simp add: unat_saturated_ns unat_of_int_u64 nat_add_distrib nat_mult_distrib)
  show ?thesis
  proof (cases "clock_ns f < clock_ns s")
    case True
    then show ?thesis by (simp add: transaction_elapsed_saturated [OF assms])
  next
    case late: False
    show ?thesis
    proof (cases "tv_nsec f \<ge> tv_nsec s")
      case True
      have "tv_sec s \<le> tv_sec f" using late ok True by (simp add: clock_ns_def)
      then show ?thesis
        using late True ok sat [of "tv_sec f - tv_sec s" "tv_nsec f - tv_nsec s"]
        by (simp add: transaction_elapsed_saturated [OF assms] clock_ns_def algebra_simps)
    next
      case False
      have "tv_sec s + 1 \<le> tv_sec f" using late ok False by (simp add: clock_ns_def)
      then show ?thesis
        using late False ok sat [of "tv_sec f - tv_sec s - 1" "1000000000 + tv_nsec f - tv_nsec s"]
        by (simp add: transaction_elapsed_saturated [OF assms] clock_ns_def algebra_simps)
    qed
  qed
qed

theorem transaction_elapsed_exact_witness:
  "unat (transaction_elapsed (Some \<lparr>tv_sec = 1, tv_nsec = 999999999\<rparr>)
     (Some \<lparr>tv_sec = 3, tv_nsec = 1\<rparr>)) = 1000000002"
  using transaction_elapsed_exact [of "\<lparr>tv_sec = 1, tv_nsec = 999999999\<rparr>" "\<lparr>tv_sec = 3, tv_nsec = 1\<rparr>"]
  by (simp add: timespec_ok_def clock_ns_def)

end
