(* ===== verification/Resource_Catalog.thy ===== *)
theory Resource_Catalog
  imports Core_Sha256
begin

text \<open>
  \<^verbatim>\<open>src/runtime/resource.c\<close>: the catalog of live engine resources behind generation-checked handles.
  Opaque pointers are addresses (0 the null pointer); enumerations are datatypes, so the range checks
  of the C code on their integer values always hold here.  Every operation takes the answer of the
  mutex lock, and a release is its two critical sections with the callback's status in between.
\<close>

section \<open>Data\<close>

datatype yvex_engine_resource_kind =
    YVEX_ENGINE_RESOURCE_PACKAGE_MAPPING | YVEX_ENGINE_RESOURCE_PREPARED_TENSOR
  | YVEX_ENGINE_RESOURCE_PREPARED_GROUP | YVEX_ENGINE_RESOURCE_PREPARED_LAYOUT
  | YVEX_ENGINE_RESOURCE_COMPONENT | YVEX_ENGINE_RESOURCE_BACKEND_HANDLE
  | YVEX_ENGINE_RESOURCE_EXECUTABLE_CACHE | YVEX_ENGINE_RESOURCE_SEQUENCE_STATE
  | YVEX_ENGINE_RESOURCE_WORKSPACE | YVEX_ENGINE_RESOURCE_TEMPORARY

datatype yvex_engine_resource_owner =
    YVEX_ENGINE_RESOURCE_OWNER_PACKAGE | YVEX_ENGINE_RESOURCE_OWNER_SPECIALIZATION
  | YVEX_ENGINE_RESOURCE_OWNER_ENGINE | YVEX_ENGINE_RESOURCE_OWNER_SESSION
  | YVEX_ENGINE_RESOURCE_OWNER_BACKEND | YVEX_ENGINE_RESOURCE_OWNER_EXECUTION

datatype yvex_engine_resource_lifetime =
    YVEX_ENGINE_RESOURCE_LIFETIME_ENGINE | YVEX_ENGINE_RESOURCE_LIFETIME_SESSION
  | YVEX_ENGINE_RESOURCE_LIFETIME_EXECUTION | YVEX_ENGINE_RESOURCE_LIFETIME_REQUEST
  | YVEX_ENGINE_RESOURCE_LIFETIME_CONDITION | YVEX_ENGINE_RESOURCE_LIFETIME_TRAJECTORY
  | YVEX_ENGINE_RESOURCE_LIFETIME_QUANTUM

datatype yvex_engine_resource_numeric_class =
    YVEX_ENGINE_RESOURCE_NUMERIC_NONE | YVEX_ENGINE_RESOURCE_NUMERIC_CANONICAL_PACKAGE
  | YVEX_ENGINE_RESOURCE_NUMERIC_EXACT_SPECIALIZATION
  | YVEX_ENGINE_RESOURCE_NUMERIC_EQUIVALENT_PREPARED | YVEX_ENGINE_RESOURCE_NUMERIC_STATE

datatype yvex_engine_resource_state =
    YVEX_ENGINE_RESOURCE_DECLARED | YVEX_ENGINE_RESOURCE_READY
  | YVEX_ENGINE_RESOURCE_RELEASING | YVEX_ENGINE_RESOURCE_FAILED

record yvex_engine_resource_bytes =
  mapped_package_bytes :: u64
  host_resident_bytes :: u64
  device_resident_bytes :: u64
  prepared_bytes :: u64
  sequence_state_bytes :: u64
  workspace_bytes :: u64
  temporary_bytes :: u64

record yvex_engine_resource_handle =
  h_engine_generation :: u64
  h_slot :: u64
  h_generation :: u64

record yvex_engine_resource_request =
  req_kind :: yvex_engine_resource_kind
  req_owner :: yvex_engine_resource_owner
  req_lifetime :: yvex_engine_resource_lifetime
  req_numeric_class :: yvex_engine_resource_numeric_class
  req_name :: "string option"
  req_package_identity :: "string option"
  req_specialization_identity :: "string option"
  req_admission_identity :: "string option"
  req_dependency :: yvex_engine_resource_handle
  req_bytes :: yvex_engine_resource_bytes
  req_preparation_nanoseconds :: u64
  req_value :: nat
  req_release :: nat
  req_release_context :: nat
  req_ready :: bool
  req_evictable :: bool

record yvex_engine_resource_entry =
  ent_handle :: yvex_engine_resource_handle
  ent_dependency :: yvex_engine_resource_handle
  ent_kind :: yvex_engine_resource_kind
  ent_owner :: yvex_engine_resource_owner
  ent_lifetime :: yvex_engine_resource_lifetime
  ent_numeric_class :: yvex_engine_resource_numeric_class
  ent_state :: yvex_engine_resource_state
  ent_bytes :: yvex_engine_resource_bytes
  consumer_count :: u64
  dependent_count :: u64
  acquisition_count :: u64
  ent_preparation_nanoseconds :: u64
  ent_name :: string
  ent_package_identity :: string
  ent_specialization_identity :: string
  ent_admission_identity :: string
  ent_evictable :: bool

record yvex_engine_resource_summary =
  engine_generation :: u64
  capacity :: u64
  resource_count :: u64
  generation :: u64
  registration_count :: u64
  release_count :: u64
  eviction_count :: u64
  failed_release_count :: u64
  total_acquisition_count :: u64
  preparation_nanoseconds :: u64
  ready_count :: u64
  failed_count :: u64
  count_by_kind :: "yvex_engine_resource_kind \<Rightarrow> u64"
  total_bytes :: yvex_engine_resource_bytes
  engine_identity :: string
  closing :: bool

record engine_resource_slot =
  slot_summary :: yvex_engine_resource_entry
  slot_value :: nat
  slot_release :: nat
  slot_release_context :: nat
  in_use :: bool

record yvex_engine_resource_catalog =
  slots :: "engine_resource_slot list"
  cat_summary :: yvex_engine_resource_summary
  next_generation :: u64
  cat_mutex_ready :: bool

definition zero_bytes :: yvex_engine_resource_bytes where
  "zero_bytes = \<lparr>mapped_package_bytes = 0, host_resident_bytes = 0, device_resident_bytes = 0,
     prepared_bytes = 0, sequence_state_bytes = 0, workspace_bytes = 0, temporary_bytes = 0\<rparr>"

definition zero_handle :: yvex_engine_resource_handle where
  "zero_handle = \<lparr>h_engine_generation = 0, h_slot = 0, h_generation = 0\<rparr>"

definition zero_resource_entry :: yvex_engine_resource_entry where
  "zero_resource_entry =
     \<lparr>ent_handle = zero_handle, ent_dependency = zero_handle,
      ent_kind = YVEX_ENGINE_RESOURCE_PACKAGE_MAPPING, ent_owner = YVEX_ENGINE_RESOURCE_OWNER_PACKAGE,
      ent_lifetime = YVEX_ENGINE_RESOURCE_LIFETIME_ENGINE,
      ent_numeric_class = YVEX_ENGINE_RESOURCE_NUMERIC_NONE,
      ent_state = YVEX_ENGINE_RESOURCE_DECLARED, ent_bytes = zero_bytes, consumer_count = 0,
      dependent_count = 0, acquisition_count = 0, ent_preparation_nanoseconds = 0, ent_name = [],
      ent_package_identity = [], ent_specialization_identity = [], ent_admission_identity = [],
      ent_evictable = False\<rparr>"

definition zero_slot :: engine_resource_slot where
  "zero_slot = \<lparr>slot_summary = zero_resource_entry, slot_value = 0, slot_release = 0,
     slot_release_context = 0, in_use = False\<rparr>"

section \<open>Helpers\<close>

definition resource_refuse :: "yvex_status \<Rightarrow> string \<Rightarrow> 'a outcome" where
  "resource_refuse status reason = Inl (refusal status ''runtime.engine-resource'' reason)"

lemma resource_refuse_simps [simp]:
  "resource_refuse status reason \<noteq> Inr x" "Inr x \<noteq> resource_refuse status reason"
  "outcome_status (resource_refuse status reason) = status"
  by (simp_all add: resource_refuse_def)

definition optional_identity_valid :: "string option \<Rightarrow> bool" where
  "optional_identity_valid identity \<longleftrightarrow>
     identity = None \<or> identity = Some [] \<or> yvex_sha256_hex_valid identity"

text \<open>Field by field; the result is \<open>None\<close> as soon as one addition overflows.\<close>

definition resource_bytes_add ::
  "yvex_engine_resource_bytes \<Rightarrow> yvex_engine_resource_bytes \<Rightarrow> yvex_engine_resource_bytes option" where
  "resource_bytes_add target value =
     (case checked_add (mapped_package_bytes target) (mapped_package_bytes value) of None \<Rightarrow> None | Some a \<Rightarrow>
      case checked_add (host_resident_bytes target) (host_resident_bytes value) of None \<Rightarrow> None | Some b \<Rightarrow>
      case checked_add (device_resident_bytes target) (device_resident_bytes value) of None \<Rightarrow> None | Some c \<Rightarrow>
      case checked_add (prepared_bytes target) (prepared_bytes value) of None \<Rightarrow> None | Some d \<Rightarrow>
      case checked_add (sequence_state_bytes target) (sequence_state_bytes value) of None \<Rightarrow> None | Some e \<Rightarrow>
      case checked_add (workspace_bytes target) (workspace_bytes value) of None \<Rightarrow> None | Some f \<Rightarrow>
      case checked_add (temporary_bytes target) (temporary_bytes value) of None \<Rightarrow> None | Some g \<Rightarrow>
        Some \<lparr>mapped_package_bytes = a, host_resident_bytes = b, device_resident_bytes = c,
              prepared_bytes = d, sequence_state_bytes = e, workspace_bytes = f, temporary_bytes = g\<rparr>)"

definition resource_bytes_subtract ::
  "yvex_engine_resource_bytes \<Rightarrow> yvex_engine_resource_bytes \<Rightarrow> yvex_engine_resource_bytes" where
  "resource_bytes_subtract target value =
     \<lparr>mapped_package_bytes = mapped_package_bytes target - mapped_package_bytes value,
      host_resident_bytes = host_resident_bytes target - host_resident_bytes value,
      device_resident_bytes = device_resident_bytes target - device_resident_bytes value,
      prepared_bytes = prepared_bytes target - prepared_bytes value,
      sequence_state_bytes = sequence_state_bytes target - sequence_state_bytes value,
      workspace_bytes = workspace_bytes target - workspace_bytes value,
      temporary_bytes = temporary_bytes target - temporary_bytes value\<rparr>"

definition handle_present :: "yvex_engine_resource_handle \<Rightarrow> bool" where
  "handle_present handle \<longleftrightarrow>
     h_engine_generation handle \<noteq> 0 \<or> h_slot handle \<noteq> 0 \<or> h_generation handle \<noteq> 0"

text \<open>The slot is returned as its index.\<close>

definition resource_slot_locked ::
  "yvex_engine_resource_catalog \<Rightarrow> yvex_engine_resource_handle \<Rightarrow> nat option" where
  "resource_slot_locked catalog handle =
     (if h_engine_generation handle \<noteq> engine_generation (cat_summary catalog) \<or>
         h_slot handle = 0 \<or> h_slot handle > capacity (cat_summary catalog) \<or> h_generation handle = 0
      then None
      else let i = unat (h_slot handle - 1); slot = slots catalog ! i in
        if in_use slot \<and> h_generation (ent_handle (slot_summary slot)) = h_generation handle
        then Some i else None)"

definition entry_at :: "yvex_engine_resource_catalog \<Rightarrow> nat \<Rightarrow> yvex_engine_resource_entry" where
  "entry_at catalog i = slot_summary (slots catalog ! i)"

definition update_entry ::
  "nat \<Rightarrow> (yvex_engine_resource_entry \<Rightarrow> yvex_engine_resource_entry) \<Rightarrow>
   yvex_engine_resource_catalog \<Rightarrow> yvex_engine_resource_catalog" where
  "update_entry i f catalog =
     catalog\<lparr>slots := (slots catalog)[i := (slots catalog ! i)\<lparr>slot_summary := f (entry_at catalog i)\<rparr>]\<rparr>"

definition update_summary ::
  "(yvex_engine_resource_summary \<Rightarrow> yvex_engine_resource_summary) \<Rightarrow>
   yvex_engine_resource_catalog \<Rightarrow> yvex_engine_resource_catalog" where
  "update_summary f catalog = catalog\<lparr>cat_summary := f (cat_summary catalog)\<rparr>"

definition resource_request_valid :: "yvex_engine_resource_request \<Rightarrow> bool" where
  "resource_request_valid request \<longleftrightarrow>
     (case req_name request of None \<Rightarrow> False | Some name \<Rightarrow> name \<noteq> [] \<and> length name < 48) \<and>
     yvex_sha256_hex_valid (req_package_identity request) \<and>
     optional_identity_valid (req_specialization_identity request) \<and>
     optional_identity_valid (req_admission_identity request) \<and>
     (req_kind request \<in> {YVEX_ENGINE_RESOURCE_PREPARED_TENSOR, YVEX_ENGINE_RESOURCE_PREPARED_GROUP,
        YVEX_ENGINE_RESOURCE_PREPARED_LAYOUT} \<longrightarrow>
        req_specialization_identity request \<noteq> None \<and> req_specialization_identity request \<noteq> Some [] \<and>
        req_admission_identity request \<noteq> None \<and> req_admission_identity request \<noteq> Some []) \<and>
     \<not> (req_numeric_class request = YVEX_ENGINE_RESOURCE_NUMERIC_CANONICAL_PACKAGE \<and>
        req_specialization_identity request \<noteq> None \<and> req_specialization_identity request \<noteq> Some []) \<and>
     \<not> (req_evictable request \<and> req_release request = 0)"

section \<open>Operations\<close>

definition resource_dependency_drop_locked ::
  "yvex_engine_resource_entry \<Rightarrow> yvex_engine_resource_catalog \<Rightarrow> yvex_engine_resource_catalog" where
  "resource_dependency_drop_locked entry catalog =
     (if \<not> handle_present (ent_dependency entry) then catalog
      else case resource_slot_locked catalog (ent_dependency entry) of
        None \<Rightarrow> catalog
      | Some d \<Rightarrow>
          if dependent_count (entry_at catalog d) \<noteq> 0
          then update_entry d (\<lambda>e. e\<lparr>dependent_count := dependent_count e - 1\<rparr>) catalog
          else catalog)"

definition resource_remove_locked ::
  "nat \<Rightarrow> bool \<Rightarrow> yvex_engine_resource_catalog \<Rightarrow> yvex_engine_resource_catalog" where
  "resource_remove_locked i evicted catalog =
     (let entry = entry_at catalog i;
          catalog1 = resource_dependency_drop_locked entry catalog;
          catalog2 = update_summary (\<lambda>s. s\<lparr>
            total_bytes := resource_bytes_subtract (total_bytes s) (ent_bytes entry),
            resource_count := resource_count s - 1,
            count_by_kind := (count_by_kind s)(ent_kind entry := count_by_kind s (ent_kind entry) - 1),
            ready_count := (if ent_state entry = YVEX_ENGINE_RESOURCE_READY
              then ready_count s - 1 else ready_count s),
            failed_count := (if ent_state entry = YVEX_ENGINE_RESOURCE_FAILED
              then failed_count s - 1 else failed_count s),
            release_count := release_count s + 1,
            eviction_count := eviction_count s + (if evicted then 1 else 0),
            generation := generation s + 1\<rparr>) catalog1
      in catalog2\<lparr>slots := (slots catalog2)[i := zero_slot]\<rparr>)"

text \<open>The section before the callback; it returns the callback and its context.\<close>

definition resource_release_begin ::
  "bool \<Rightarrow> yvex_engine_resource_handle \<Rightarrow> bool \<Rightarrow> yvex_engine_resource_catalog \<Rightarrow>
   (nat \<times> nat) outcome \<times> yvex_engine_resource_catalog" where
  "resource_release_begin lock_ok handle evict catalog =
     (if \<not> handle_present handle \<or> \<not> cat_mutex_ready catalog \<or> \<not> lock_ok
      then (resource_refuse YVEX_ERR_INVALID_ARG ''one live engine resource handle is required'', catalog)
      else case resource_slot_locked catalog handle of
        None \<Rightarrow> (resource_refuse YVEX_ERR_INVALID_ARG
          ''resource is stale, referenced, or still has dependents'', catalog)
      | Some i \<Rightarrow>
          let entry = entry_at catalog i in
          if ent_state entry = YVEX_ENGINE_RESOURCE_RELEASING \<or> consumer_count entry \<noteq> 0 \<or>
             dependent_count entry \<noteq> 0 \<or> (evict \<and> \<not> ent_evictable entry)
          then (resource_refuse YVEX_ERR_STATE
            (if evict \<and> \<not> ent_evictable entry then ''resource is not eligible for eviction''
             else ''resource is stale, referenced, or still has dependents''), catalog)
          else
            (Inr (slot_release (slots catalog ! i), slot_release_context (slots catalog ! i)),
             update_entry i (\<lambda>e. e\<lparr>ent_state := YVEX_ENGINE_RESOURCE_RELEASING\<rparr>)
               (update_summary (\<lambda>s. s\<lparr>
                 ready_count := (if ent_state entry = YVEX_ENGINE_RESOURCE_READY
                   then ready_count s - 1 else ready_count s),
                 failed_count := (if ent_state entry = YVEX_ENGINE_RESOURCE_FAILED
                   then failed_count s - 1 else failed_count s)\<rparr>) catalog)))"

text \<open>The section after the callback, which answered \<open>rc\<close>; its own error is \<open>cause\<close>.\<close>

definition resource_release_finish ::
  "bool \<Rightarrow> yvex_engine_resource_handle \<Rightarrow> bool \<Rightarrow> yvex_status \<Rightarrow> yvex_error \<Rightarrow>
   yvex_engine_resource_catalog \<Rightarrow> unit outcome \<times> yvex_engine_resource_catalog" where
  "resource_release_finish lock_ok handle evict rc cause catalog =
     (if \<not> lock_ok
      then (resource_refuse YVEX_ERR_STATE ''resource release synchronization was lost'', catalog)
      else case resource_slot_locked catalog handle of
        None \<Rightarrow> (resource_refuse YVEX_ERR_STATE ''resource generation changed during release'', catalog)
      | Some i \<Rightarrow>
          if rc = YVEX_OK then (Inr (), resource_remove_locked i evict catalog)
          else (Inl cause,
            update_entry i (\<lambda>e. e\<lparr>ent_state := YVEX_ENGINE_RESOURCE_FAILED\<rparr>)
              (update_summary (\<lambda>s. s\<lparr>failed_count := failed_count s + 1,
                 failed_release_count := failed_release_count s + 1\<rparr>) catalog)))"

text \<open>
  The whole release; \<open>callback\<close> answers the release function of the slot.  A null callback is not
  called and the release succeeds.
\<close>

definition resource_release ::
  "bool \<Rightarrow> bool \<Rightarrow> (nat \<Rightarrow> nat \<Rightarrow> yvex_status \<times> yvex_error) \<Rightarrow> yvex_engine_resource_handle \<Rightarrow> bool \<Rightarrow>
   yvex_engine_resource_catalog \<Rightarrow> unit outcome \<times> yvex_engine_resource_catalog" where
  "resource_release lock1 lock2 callback handle evict catalog =
     (case resource_release_begin lock1 handle evict catalog of
        (Inl e, catalog1) \<Rightarrow> (Inl e, catalog1)
      | (Inr (release, context), catalog1) \<Rightarrow>
          let (rc, cause) = (if release \<noteq> 0 then callback release context
                             else (YVEX_OK, refusal YVEX_OK [] []))
          in resource_release_finish lock2 handle evict rc cause catalog1)"

text \<open>
  The two structure sizes depend on the platform; they are the arguments \<open>slot_bytes\<close> and
  \<open>catalog_bytes\<close>.  The result is the number of bytes retained.
\<close>

definition yvex_runtime_resource_catalog_reserve ::
  "u64 \<Rightarrow> u64 \<Rightarrow> bool \<Rightarrow> bool \<Rightarrow> u64 \<Rightarrow> u64 \<Rightarrow> yvex_engine_resource_catalog \<Rightarrow>
   u64 outcome \<times> yvex_engine_resource_catalog" where
  "yvex_runtime_resource_catalog_reserve slot_bytes catalog_bytes lock_ok allocated wanted
     maximum_host_bytes catalog =
     (if wanted = 0 \<or> wanted > 1024 \<or> \<not> cat_mutex_ready catalog \<or> \<not> lock_ok
      then (resource_refuse YVEX_ERR_INVALID_ARG ''one bounded live resource catalog is required'', catalog)
      else if closing (cat_summary catalog)
      then (resource_refuse YVEX_ERR_STATE ''closing resource catalog cannot reserve new capacity'', catalog)
      else
        let current = capacity (cat_summary catalog);
            wanted = (if wanted < current then current else wanted)
        in case Option.bind (checked_mul wanted slot_bytes) (\<lambda>r. checked_add r catalog_bytes) of
             None \<Rightarrow> (resource_refuse YVEX_ERR_BOUNDS ''resource catalog metadata overflowed'', catalog)
           | Some retained \<Rightarrow>
               (case (if wanted > current then checked_add retained (current * slot_bytes)
                      else Some retained) of
                  None \<Rightarrow> (resource_refuse YVEX_ERR_BOUNDS ''resource catalog relocation overflowed'', catalog)
                | Some peak \<Rightarrow>
                    if maximum_host_bytes \<noteq> 0 \<and> peak > maximum_host_bytes
                    then (resource_refuse YVEX_ERR_BOUNDS
                      ''resource catalog metadata exceeds host budget'', catalog)
                    else if wanted > current
                    then
                      if generation (cat_summary catalog) = ULLONG_MAX
                      then (resource_refuse YVEX_ERR_BOUNDS
                        ''resource catalog generation is exhausted'', catalog)
                      else if \<not> allocated
                      then (resource_refuse YVEX_ERR_NOMEM
                        ''resource catalog relocation allocation failed'', catalog)
                      else (Inr retained,
                        update_summary (\<lambda>s. s\<lparr>generation := generation s + (if current \<noteq> 0 then 1 else 0),
                            capacity := wanted\<rparr>)
                          (catalog\<lparr>slots := take (unat current) (slots catalog) @
                             replicate (unat wanted - unat current) zero_slot\<rparr>))
                    else (Inr retained, catalog)))"

definition catalog_zero :: "u64 \<Rightarrow> yvex_engine_resource_catalog" where
  "catalog_zero engine =
     \<lparr>slots = [],
      cat_summary = \<lparr>engine_generation = engine, capacity = 0, resource_count = 0, generation = 0,
        registration_count = 0, release_count = 0, eviction_count = 0, failed_release_count = 0,
        total_acquisition_count = 0, preparation_nanoseconds = 0, ready_count = 0, failed_count = 0,
        count_by_kind = (\<lambda>_. 0), total_bytes = zero_bytes, engine_identity = [], closing = False\<rparr>,
      next_generation = 0, cat_mutex_ready = True\<rparr>"

definition yvex_runtime_resource_catalog_open ::
  "u64 \<Rightarrow> u64 \<Rightarrow> bool \<Rightarrow> bool \<Rightarrow> bool \<Rightarrow> u64 \<Rightarrow> string option \<Rightarrow> u64 \<Rightarrow>
   yvex_engine_resource_catalog outcome" where
  "yvex_runtime_resource_catalog_open slot_bytes catalog_bytes out allocated reserve_allocated
     engine identity wanted =
     (if \<not> out \<or> engine = 0 \<or> \<not> yvex_sha256_hex_valid identity \<or> wanted = 0 \<or> wanted > 1024 \<or>
         wanted > ULLONG_MAX div slot_bytes
      then resource_refuse YVEX_ERR_INVALID_ARG ''bounded engine generation and identity are required''
      else if \<not> allocated
      then resource_refuse YVEX_ERR_NOMEM ''engine resource catalog allocation failed''
      else case yvex_runtime_resource_catalog_reserve slot_bytes catalog_bytes True reserve_allocated
             wanted 0 (catalog_zero engine) of
        (Inl e, _) \<Rightarrow> Inl e
      | (Inr _, catalog) \<Rightarrow>
          Inr (update_summary (\<lambda>s. s\<lparr>engine_identity :=
            the (yvex_core_text_copy (Some []) 65 identity)\<rparr>) catalog))"

text \<open>The slot a registration fills.\<close>

definition registered_slot ::
  "yvex_engine_resource_request \<Rightarrow> yvex_engine_resource_handle \<Rightarrow> engine_resource_slot" where
  "registered_slot request handle =
     \<lparr>slot_summary =
        \<lparr>ent_handle = handle, ent_dependency = req_dependency request,
         ent_kind = req_kind request, ent_owner = req_owner request,
         ent_lifetime = req_lifetime request, ent_numeric_class = req_numeric_class request,
         ent_state = (if req_ready request then YVEX_ENGINE_RESOURCE_READY
                      else YVEX_ENGINE_RESOURCE_DECLARED),
         ent_bytes = req_bytes request, consumer_count = 0, dependent_count = 0,
         acquisition_count = 0, ent_preparation_nanoseconds = req_preparation_nanoseconds request,
         ent_name = the (yvex_core_text_copy (Some []) 48 (req_name request)),
         ent_package_identity = the (yvex_core_text_copy (Some []) 65 (req_package_identity request)),
         ent_specialization_identity =
           the (yvex_core_text_copy (Some []) 65 (req_specialization_identity request)),
         ent_admission_identity =
           the (yvex_core_text_copy (Some []) 65 (req_admission_identity request)),
         ent_evictable = req_evictable request\<rparr>,
      slot_value = req_value request, slot_release = req_release request,
      slot_release_context = req_release_context request, in_use = True\<rparr>"

definition put_slot ::
  "nat \<Rightarrow> engine_resource_slot \<Rightarrow> yvex_engine_resource_catalog \<Rightarrow> yvex_engine_resource_catalog" where
  "put_slot i s c = c\<lparr>slots := (slots c)[i := s]\<rparr>"

text \<open>The pieces of a successful registration.\<close>

definition filled_catalog ::
  "nat \<Rightarrow> u64 \<Rightarrow> engine_resource_slot \<Rightarrow> yvex_engine_resource_catalog \<Rightarrow> yvex_engine_resource_catalog" where
  "filled_catalog i g s c = put_slot i s (c\<lparr>next_generation := g\<rparr>)"

definition fresh_generation :: "yvex_engine_resource_catalog \<Rightarrow> u64" where
  "fresh_generation c = (if next_generation c + 1 = 0 then 1 else next_generation c + 1)"

definition fresh_handle :: "yvex_engine_resource_catalog \<Rightarrow> nat \<Rightarrow> yvex_engine_resource_handle" where
  "fresh_handle c i = \<lparr>h_engine_generation = engine_generation (cat_summary c),
     h_slot = of_nat i + 1, h_generation = fresh_generation c\<rparr>"

definition registration_summary ::
  "yvex_engine_resource_request \<Rightarrow> yvex_engine_resource_bytes \<Rightarrow> u64 \<Rightarrow>
   yvex_engine_resource_summary \<Rightarrow> yvex_engine_resource_summary" where
  "registration_summary request totals preparation s = s\<lparr>total_bytes := totals,
     resource_count := resource_count s + 1,
     registration_count := registration_count s + 1,
     preparation_nanoseconds := preparation,
     generation := generation s + 1,
     count_by_kind := (count_by_kind s)(req_kind request := count_by_kind s (req_kind request) + 1),
     ready_count := ready_count s + (if req_ready request then 1 else 0)\<rparr>"

definition link_dependency ::
  "nat option \<Rightarrow> yvex_engine_resource_catalog \<Rightarrow> yvex_engine_resource_catalog" where
  "link_dependency d c =
     (case d of None \<Rightarrow> c
      | Some d \<Rightarrow> update_entry d (\<lambda>e. e\<lparr>dependent_count := dependent_count e + 1\<rparr>) c)"

definition yvex_runtime_resource_register ::
  "bool \<Rightarrow> yvex_engine_resource_request \<Rightarrow> yvex_engine_resource_catalog \<Rightarrow>
   yvex_engine_resource_handle outcome \<times> yvex_engine_resource_catalog" where
  "yvex_runtime_resource_register lock_ok request catalog =
     (if \<not> resource_request_valid request \<or> \<not> cat_mutex_ready catalog \<or> \<not> lock_ok
      then (resource_refuse YVEX_ERR_INVALID_ARG
        ''one complete engine resource declaration is required'', catalog)
      else if closing (cat_summary catalog)
      then (resource_refuse YVEX_ERR_STATE
        ''closing engine resource catalog rejects registration'', catalog)
      else
        let dependency = (if handle_present (req_dependency request)
                          then resource_slot_locked catalog (req_dependency request) else None)
        in if handle_present (req_dependency request) \<and>
              (dependency = None \<or>
               ent_state (entry_at catalog (the dependency)) \<noteq> YVEX_ENGINE_RESOURCE_READY)
           then (resource_refuse YVEX_ERR_STATE ''resource dependency is stale or not ready'', catalog)
           else
             let cap = unat (capacity (cat_summary catalog));
                 index = first_index (\<lambda>i. \<not> in_use (slots catalog ! i)) cap
             in if index = cap
                then (resource_refuse YVEX_ERR_NOMEM
                  ''engine resource catalog capacity is exhausted'', catalog)
                else case resource_bytes_add (total_bytes (cat_summary catalog)) (req_bytes request) of
                  None \<Rightarrow> (resource_refuse YVEX_ERR_BOUNDS
                    ''engine resource accounting overflowed'', catalog)
                | Some totals \<Rightarrow>
                    (case checked_add (preparation_nanoseconds (cat_summary catalog))
                            (req_preparation_nanoseconds request) of
                       None \<Rightarrow> (resource_refuse YVEX_ERR_BOUNDS
                         ''engine resource accounting overflowed'', catalog)
                     | Some preparation_total \<Rightarrow>
                         let handle = fresh_handle catalog index in
                         (Inr handle,
                          update_summary (registration_summary request totals preparation_total)
                            (link_dependency dependency
                              (filled_catalog index (fresh_generation catalog)
                                (registered_slot request handle) catalog)))))"

definition yvex_runtime_resource_acquire ::
  "bool \<Rightarrow> yvex_engine_resource_handle \<Rightarrow> yvex_engine_resource_catalog \<Rightarrow>
   nat outcome \<times> yvex_engine_resource_catalog" where
  "yvex_runtime_resource_acquire lock_ok handle catalog =
     (if \<not> cat_mutex_ready catalog \<or> \<not> lock_ok
      then (resource_refuse YVEX_ERR_INVALID_ARG
        ''resource catalog and borrowed-value output are required'', catalog)
      else case resource_slot_locked catalog handle of
        None \<Rightarrow> (resource_refuse YVEX_ERR_STATE ''ready non-stale engine resource is required'', catalog)
      | Some i \<Rightarrow>
          if closing (cat_summary catalog) \<or>
             ent_state (entry_at catalog i) \<noteq> YVEX_ENGINE_RESOURCE_READY \<or>
             consumer_count (entry_at catalog i) = ULLONG_MAX \<or>
             acquisition_count (entry_at catalog i) = ULLONG_MAX \<or>
             total_acquisition_count (cat_summary catalog) = ULLONG_MAX
          then (resource_refuse YVEX_ERR_STATE ''ready non-stale engine resource is required'', catalog)
          else (Inr (slot_value (slots catalog ! i)),
            update_summary (\<lambda>s. s\<lparr>total_acquisition_count := total_acquisition_count s + 1\<rparr>)
              (update_entry i (\<lambda>e. e\<lparr>consumer_count := consumer_count e + 1,
                 acquisition_count := acquisition_count e + 1\<rparr>) catalog)))"

definition yvex_runtime_resource_publish_ready ::
  "bool \<Rightarrow> yvex_engine_resource_handle \<Rightarrow> yvex_engine_resource_catalog \<Rightarrow>
   unit outcome \<times> yvex_engine_resource_catalog" where
  "yvex_runtime_resource_publish_ready lock_ok handle catalog =
     (if \<not> cat_mutex_ready catalog \<or> \<not> lock_ok
      then (resource_refuse YVEX_ERR_INVALID_ARG ''resource catalog is required'', catalog)
      else case resource_slot_locked catalog handle of
        None \<Rightarrow> (resource_refuse YVEX_ERR_STATE
          ''one declared resource in an open catalog is required'', catalog)
      | Some i \<Rightarrow>
          if closing (cat_summary catalog) \<or>
             ent_state (entry_at catalog i) \<noteq> YVEX_ENGINE_RESOURCE_DECLARED
          then (resource_refuse YVEX_ERR_STATE
            ''one declared resource in an open catalog is required'', catalog)
          else (Inr (),
            update_summary (\<lambda>s. s\<lparr>ready_count := ready_count s + 1, generation := generation s + 1\<rparr>)
              (update_entry i (\<lambda>e. e\<lparr>ent_state := YVEX_ENGINE_RESOURCE_READY\<rparr>) catalog)))"

definition yvex_runtime_resource_drop ::
  "bool \<Rightarrow> yvex_engine_resource_handle \<Rightarrow> yvex_engine_resource_catalog \<Rightarrow>
   unit outcome \<times> yvex_engine_resource_catalog" where
  "yvex_runtime_resource_drop lock_ok handle catalog =
     (if \<not> cat_mutex_ready catalog \<or> \<not> lock_ok
      then (resource_refuse YVEX_ERR_INVALID_ARG ''resource catalog is required'', catalog)
      else case resource_slot_locked catalog handle of
        None \<Rightarrow> (resource_refuse YVEX_ERR_STATE
          ''one exact borrowed resource generation is required'', catalog)
      | Some i \<Rightarrow>
          if consumer_count (entry_at catalog i) = 0
          then (resource_refuse YVEX_ERR_STATE
            ''one exact borrowed resource generation is required'', catalog)
          else (Inr (),
            update_entry i (\<lambda>e. e\<lparr>consumer_count := consumer_count e - 1\<rparr>) catalog))"

text \<open>Eviction also clears the caller's handle on success.\<close>

definition yvex_runtime_resource_evict ::
  "bool \<Rightarrow> bool \<Rightarrow> (nat \<Rightarrow> nat \<Rightarrow> yvex_status \<times> yvex_error) \<Rightarrow> yvex_engine_resource_handle option \<Rightarrow>
   yvex_engine_resource_catalog \<Rightarrow>
   unit outcome \<times> yvex_engine_resource_handle option \<times> yvex_engine_resource_catalog" where
  "yvex_runtime_resource_evict lock1 lock2 callback handle catalog =
     (case handle of
        None \<Rightarrow> (resource_refuse YVEX_ERR_INVALID_ARG ''resource eviction handle is required'', None, catalog)
      | Some h \<Rightarrow>
          (case resource_release lock1 lock2 callback h True catalog of
             (Inr u, catalog1) \<Rightarrow> (Inr u, Some zero_handle, catalog1)
           | (Inl e, catalog1) \<Rightarrow> (Inl e, Some h, catalog1)))"

definition yvex_runtime_resource_snapshot ::
  "bool \<Rightarrow> nat \<Rightarrow> yvex_engine_resource_catalog \<Rightarrow>
   unit outcome \<times> (yvex_engine_resource_summary \<times> yvex_engine_resource_entry list \<times> nat) option" where
  "yvex_runtime_resource_snapshot lock_ok entry_capacity catalog =
     (if \<not> cat_mutex_ready catalog \<or> \<not> lock_ok
      then (resource_refuse YVEX_ERR_INVALID_ARG ''resource catalog snapshot outputs are required'', None)
      else
        let live = map slot_summary (filter in_use (take (unat (capacity (cat_summary catalog))) (slots catalog)));
            written = Some (cat_summary catalog, take entry_capacity live, length live)
        in if entry_capacity \<noteq> 0 \<and> length live > entry_capacity
           then (resource_refuse YVEX_ERR_BOUNDS ''resource snapshot capacity is insufficient'', written)
           else (Inr (), written))"

text \<open>
  Closing: the highest slot that is in use without consumers and dependents.  Counting down from
  \<open>n\<close>.
\<close>

fun close_candidate_from :: "engine_resource_slot list \<Rightarrow> nat \<Rightarrow> nat option" where
  "close_candidate_from ss 0 = None"
| "close_candidate_from ss (Suc n) =
     (if in_use (ss ! n) \<and> consumer_count (slot_summary (ss ! n)) = 0 \<and>
         dependent_count (slot_summary (ss ! n)) = 0
      then Some n else close_candidate_from ss n)"

definition close_candidate :: "yvex_engine_resource_catalog \<Rightarrow> yvex_engine_resource_handle" where
  "close_candidate catalog =
     (case close_candidate_from (slots catalog) (unat (capacity (cat_summary catalog))) of
        None \<Rightarrow> zero_handle
      | Some i \<Rightarrow> ent_handle (entry_at catalog i))"

text \<open>
  The releasing loop with fuel for its iterations; \<open>stuck\<close> is the message when resources remain that
  cannot be released, \<open>callback\<close> answers the release functions and all
  locks succeed.  The result carries the outcome, or \<open>None\<close> when the fuel ran out.
\<close>

fun close_loop ::
  "nat \<Rightarrow> string \<Rightarrow> (nat \<Rightarrow> nat \<Rightarrow> yvex_status \<times> yvex_error) \<Rightarrow> yvex_engine_resource_catalog \<Rightarrow>
   (unit outcome \<times> yvex_engine_resource_catalog) option" where
  "close_loop 0 stuck callback catalog = None"
| "close_loop (Suc fuel) stuck callback catalog =
     (let candidate = close_candidate catalog in
      if \<not> handle_present candidate
      then if resource_count (cat_summary catalog) \<noteq> 0
        then Some (resource_refuse YVEX_ERR_STATE stuck, catalog)
        else Some (Inr (), catalog)
      else case resource_release True True callback candidate False catalog of
        (Inl e, catalog1) \<Rightarrow> Some (Inl e, catalog1)
      | (Inr _, catalog1) \<Rightarrow>
          close_loop fuel ''resource catalog close found a dependency cycle'' callback catalog1)"

definition yvex_runtime_resource_catalog_close ::
  "nat \<Rightarrow> bool \<Rightarrow> (nat \<Rightarrow> nat \<Rightarrow> yvex_status \<times> yvex_error) \<Rightarrow> yvex_engine_resource_catalog \<Rightarrow>
   (unit outcome \<times> yvex_engine_resource_catalog) option" where
  "yvex_runtime_resource_catalog_close fuel lock_ok callback catalog =
     (if \<not> cat_mutex_ready catalog \<or> \<not> lock_ok
      then Some (resource_refuse YVEX_ERR_STATE
        ''resource catalog close synchronization is unavailable'', catalog)
      else close_loop fuel ''resource catalog still owns referenced or cyclic resources'' callback
        (update_summary (\<lambda>s. s\<lparr>closing := True\<rparr>) catalog))"

section \<open>Accounting by slots\<close>

text \<open>Every counter of the summary is a sum over the slots in use.\<close>

definition slot_weight :: "(yvex_engine_resource_entry \<Rightarrow> nat) \<Rightarrow> engine_resource_slot \<Rightarrow> nat" where
  "slot_weight f s = (if in_use s then f (slot_summary s) else 0)"

definition slot_sum :: "(yvex_engine_resource_entry \<Rightarrow> nat) \<Rightarrow> engine_resource_slot list \<Rightarrow> nat" where
  "slot_sum f ss = sum_list (map (slot_weight f) ss)"

lemma slot_sum_update:
  "i < length ss \<Longrightarrow> slot_sum f (ss[i := s]) + slot_weight f (ss ! i) = slot_sum f ss + slot_weight f s"
  by (induction ss arbitrary: i) (auto simp: slot_sum_def less_Suc_eq_0_disj algebra_simps)

lemma slot_weight_le_sum: "i < length ss \<Longrightarrow> slot_weight f (ss ! i) \<le> slot_sum f ss"
  unfolding slot_sum_def by (rule member_le_sum_list) simp_all

lemma slot_sum_bound: "(\<And>e. f e \<le> 1) \<Longrightarrow> slot_sum f ss \<le> length ss"
proof (induction ss)
  case (Cons s ss)
  have "slot_weight f s \<le> 1" using Cons.prems by (simp add: slot_weight_def)
  moreover have "slot_sum f ss \<le> length ss" using Cons by blast
  ultimately show ?case by (simp add: slot_sum_def)
qed (simp add: slot_sum_def)

lemma slot_sum_0_iff: "slot_sum f ss = 0 \<longleftrightarrow> (\<forall>i < length ss. slot_weight f (ss ! i) = 0)"
  by (auto simp: slot_sum_def all_set_conv_all_nth)

lemma slot_sum_append: "slot_sum f (ss @ ts) = slot_sum f ss + slot_sum f ts"
  by (simp add: slot_sum_def)

lemma slot_weight_zero_slot [simp]: "slot_weight f zero_slot = 0"
  by (simp add: slot_weight_def zero_slot_def)

lemma in_use_zero_slot [simp]: "\<not> in_use zero_slot"
  by (simp add: zero_slot_def)

lemma slot_sum_zero_slots [simp]: "slot_sum f (replicate n zero_slot) = 0"
  by (induction n) (simp_all add: slot_sum_def)

definition bytes_fields :: "(yvex_engine_resource_bytes \<Rightarrow> u64) list" where
  "bytes_fields = [mapped_package_bytes, host_resident_bytes, device_resident_bytes, prepared_bytes,
     sequence_state_bytes, workspace_bytes, temporary_bytes]"

lemma bytes_add_field:
  "resource_bytes_add a b = Some t \<Longrightarrow> field \<in> set bytes_fields \<Longrightarrow>
     unat (field t) = unat (field a) + unat (field b)"
  by (auto simp: resource_bytes_add_def bytes_fields_def unat_checked_add split: option.splits)

lemma bytes_subtract_field:
  "field \<in> set bytes_fields \<Longrightarrow> field (resource_bytes_subtract a b) = field a - field b"
  by (auto simp: resource_bytes_subtract_def bytes_fields_def)

text \<open>Counters of slots, with the entries they count.\<close>

definition count_meters ::
  "((yvex_engine_resource_summary \<Rightarrow> u64) \<times> (yvex_engine_resource_entry \<Rightarrow> nat)) set" where
  "count_meters =
     {(resource_count, \<lambda>e. 1),
      (ready_count, \<lambda>e. of_bool (ent_state e = YVEX_ENGINE_RESOURCE_READY)),
      (failed_count, \<lambda>e. of_bool (ent_state e = YVEX_ENGINE_RESOURCE_FAILED))} \<union>
     range (\<lambda>k. (\<lambda>s. count_by_kind s k, \<lambda>e. of_bool (ent_kind e = k)))"

definition byte_meters ::
  "((yvex_engine_resource_summary \<Rightarrow> u64) \<times> (yvex_engine_resource_entry \<Rightarrow> nat)) set" where
  "byte_meters = (\<lambda>field. (\<lambda>s. field (total_bytes s), \<lambda>e. unat (field (ent_bytes e)))) ` set bytes_fields"

definition metered :: "yvex_engine_resource_catalog \<Rightarrow> bool" where
  "metered catalog \<longleftrightarrow>
     (\<forall>(counter, f) \<in> count_meters \<union> byte_meters.
        unat (counter (cat_summary catalog)) = slot_sum f (slots catalog))"

section \<open>Structure\<close>

definition live :: "yvex_engine_resource_catalog \<Rightarrow> nat \<Rightarrow> bool" where
  "live catalog i \<longleftrightarrow> i < length (slots catalog) \<and> in_use (slots catalog ! i)"

definition slots_ok :: "yvex_engine_resource_catalog \<Rightarrow> bool" where
  "slots_ok catalog \<longleftrightarrow>
     engine_generation (cat_summary catalog) \<noteq> 0 \<and>
     length (slots catalog) = unat (capacity (cat_summary catalog)) \<and>
     length (slots catalog) \<le> 1024 \<and>
     (\<forall>i. live catalog i \<longrightarrow>
        h_engine_generation (ent_handle (entry_at catalog i)) = engine_generation (cat_summary catalog) \<and>
        h_slot (ent_handle (entry_at catalog i)) = of_nat i + 1 \<and>
        h_generation (ent_handle (entry_at catalog i)) \<noteq> 0)"

text \<open>The number of live resources that depend on a handle.\<close>

definition dependents :: "yvex_engine_resource_catalog \<Rightarrow> yvex_engine_resource_handle \<Rightarrow> nat" where
  "dependents catalog h = slot_sum (\<lambda>e. of_bool (ent_dependency e = h)) (slots catalog)"

definition link_ok :: "yvex_engine_resource_catalog \<Rightarrow> nat \<Rightarrow> bool" where
  "link_ok catalog i \<longleftrightarrow>
     unat (dependent_count (entry_at catalog i)) = dependents catalog (ent_handle (entry_at catalog i)) \<and>
     (handle_present (ent_dependency (entry_at catalog i)) \<longrightarrow>
        (\<exists>j. live catalog j \<and> ent_handle (entry_at catalog j) = ent_dependency (entry_at catalog i))) \<and>
     (ent_state (entry_at catalog i) = YVEX_ENGINE_RESOURCE_RELEASING \<longrightarrow>
        dependent_count (entry_at catalog i) = 0 \<and> consumer_count (entry_at catalog i) = 0)"

definition links_ok :: "yvex_engine_resource_catalog \<Rightarrow> bool" where
  "links_ok catalog \<longleftrightarrow> (\<forall>i. live catalog i \<longrightarrow> link_ok catalog i)"

lemma slot_word:
  assumes "i < 1024"
  shows "unat (of_nat i + 1 :: u64) = Suc i" and "(of_nat i + 1 :: u64) - 1 = of_nat i"
    and "unat (of_nat i :: u64) = i"
  using assms by (simp_all add: unat_word_ariths unat_eq_of_nat_u64)

lemma live_handle_present: "slots_ok c \<Longrightarrow> live c i \<Longrightarrow> handle_present (ent_handle (entry_at c i))"
  by (auto simp: slots_ok_def handle_present_def)

text \<open>A handle resolves exactly to the live slot that carries it.\<close>

lemma slot_locked_iff:
  assumes ok: "slots_ok c"
  shows "resource_slot_locked c h = Some i \<longleftrightarrow> live c i \<and> ent_handle (entry_at c i) = h"
proof
  assume found: "resource_slot_locked c h = Some i"
  then have slot: "h_slot h \<noteq> 0" "h_slot h \<le> capacity (cat_summary c)" "i = unat (h_slot h - 1)"
    and rest: "h_engine_generation h = engine_generation (cat_summary c)" "in_use (slots c ! i)"
      "h_generation (ent_handle (slot_summary (slots c ! i))) = h_generation h"
    by (auto simp: resource_slot_locked_def Let_def split: if_splits)
  have "unat (h_slot h) = Suc i" using slot(1,3) by (simp add: unat_dec unat_gt_0)
  moreover have "unat (h_slot h) \<le> length (slots c)"
    using slot(2) ok by (simp add: slots_ok_def word_le_nat_alt)
  ultimately have len: "i < length (slots c)" by simp
  then have "i < 1024" using ok by (auto simp: slots_ok_def)
  then have "h_slot h = of_nat i + 1"
    using \<open>unat (h_slot h) = Suc i\<close> slot_word [of i] by (simp add: word_unat_eq_iff)
  moreover have "live c i" using len rest by (simp add: live_def)
  ultimately show "live c i \<and> ent_handle (entry_at c i) = h"
    using ok rest by (auto simp: slots_ok_def entry_at_def)
next
  assume l: "live c i \<and> ent_handle (entry_at c i) = h"
  then have h: "h_engine_generation h = engine_generation (cat_summary c)"
    "h_slot h = of_nat i + 1" "h_generation h \<noteq> 0"
    using ok by (auto simp: slots_ok_def)
  have i: "i < 1024" "i < length (slots c)" using l ok by (auto simp: slots_ok_def live_def)
  have "h_slot h \<noteq> 0" "h_slot h \<le> capacity (cat_summary c)"
    using i ok slot_word [OF i(1)] by (auto simp: h(2) slots_ok_def word_le_nat_alt word_unat_eq_iff)
  then show "resource_slot_locked c h = Some i"
    using h l slot_word [OF i(1)]
    by (auto simp: resource_slot_locked_def Let_def entry_at_def live_def)
qed

lemma live_inject:
  "slots_ok c \<Longrightarrow> live c i \<Longrightarrow> live c j \<Longrightarrow>
     ent_handle (entry_at c i) = ent_handle (entry_at c j) \<longleftrightarrow> i = j"
  by (metis option.inject slot_locked_iff)

section \<open>Updates of one entry\<close>

lemma update_summary_simps [simp]:
  "slots (update_summary F c) = slots c"
  "cat_summary (update_summary F c) = F (cat_summary c)"
  "live (update_summary F c) i = live c i"
  "entry_at (update_summary F c) i = entry_at c i"
  "dependents (update_summary F c) h = dependents c h"
  "next_generation (update_summary F c) = next_generation c"
  "cat_mutex_ready (update_summary F c) = cat_mutex_ready c"
  by (simp_all add: update_summary_def live_def entry_at_def dependents_def)

lemma update_entry_simps [simp]:
  "cat_summary (update_entry i f c) = cat_summary c"
  "length (slots (update_entry i f c)) = length (slots c)"
  "live (update_entry i f c) j = live c j"
  "next_generation (update_entry i f c) = next_generation c"
  "cat_mutex_ready (update_entry i f c) = cat_mutex_ready c"
  by (cases "j = i"; auto simp: update_entry_def live_def)+

lemma entry_at_update_entry:
  "i < length (slots c) \<Longrightarrow> entry_at (update_entry i f c) j = (if j = i then f (entry_at c i) else entry_at c j)"
  by (auto simp: update_entry_def entry_at_def nth_list_update)

lemma slot_sum_update_entry:
  "live c i \<Longrightarrow> slot_sum g (slots (update_entry i f c)) + g (entry_at c i) =
     slot_sum g (slots c) + g (f (entry_at c i))"
  using slot_sum_update [of i "slots c" g "(slots c ! i)\<lparr>slot_summary := f (entry_at c i)\<rparr>"]
  by (simp add: update_entry_def live_def slot_weight_def entry_at_def)

text \<open>An update that keeps what identifies a resource.\<close>

definition keeps_identity :: "(yvex_engine_resource_entry \<Rightarrow> yvex_engine_resource_entry) \<Rightarrow> bool" where
  "keeps_identity f \<longleftrightarrow> (\<forall>e. ent_handle (f e) = ent_handle e \<and> ent_dependency (f e) = ent_dependency e \<and>
     ent_kind (f e) = ent_kind e \<and> ent_bytes (f e) = ent_bytes e)"

lemma keeps_identity_updates [simp]:
  "keeps_identity (\<lambda>e. e\<lparr>ent_state := v e\<rparr>)"
  "keeps_identity (\<lambda>e. e\<lparr>consumer_count := w e\<rparr>)"
  "keeps_identity (\<lambda>e. e\<lparr>consumer_count := w e, acquisition_count := w' e\<rparr>)"
  "keeps_identity (\<lambda>e. e\<lparr>dependent_count := w e\<rparr>)"
  by (simp_all add: keeps_identity_def)

lemma handle_update_entry:
  "i < length (slots c) \<Longrightarrow> keeps_identity f \<Longrightarrow>
     ent_handle (entry_at (update_entry i f c) j) = ent_handle (entry_at c j) \<and>
     ent_dependency (entry_at (update_entry i f c) j) = ent_dependency (entry_at c j)"
  by (simp add: entry_at_update_entry keeps_identity_def)

lemma slots_ok_update_entry:
  "slots_ok c \<Longrightarrow> live c i \<Longrightarrow> keeps_identity f \<Longrightarrow> slots_ok (update_entry i f c)"
  using handle_update_entry [of i c f] by (simp add: slots_ok_def live_def [of c i])

lemma dependents_update_entry:
  "live c i \<Longrightarrow> keeps_identity f \<Longrightarrow> dependents (update_entry i f c) h = dependents c h"
  using slot_sum_update_entry [of c i "\<lambda>e. of_bool (ent_dependency e = h)" f]
  by (simp add: dependents_def keeps_identity_def)

lemma slots_ok_update_summary:
  "slots_ok c \<Longrightarrow> engine_generation (F (cat_summary c)) = engine_generation (cat_summary c) \<Longrightarrow>
     capacity (F (cat_summary c)) = capacity (cat_summary c) \<Longrightarrow> slots_ok (update_summary F c)"
  by (simp add: slots_ok_def)

lemma links_ok_update_summary [simp]: "links_ok (update_summary F c) = links_ok c"
  by (simp add: links_ok_def link_ok_def)

lemma links_ok_update_entry:
  assumes "links_ok c" "live c i" "keeps_identity f"
    and "dependent_count (f (entry_at c i)) = dependent_count (entry_at c i)"
    and "ent_state (f (entry_at c i)) = YVEX_ENGINE_RESOURCE_RELEASING \<Longrightarrow>
      dependent_count (entry_at c i) = 0 \<and> consumer_count (f (entry_at c i)) = 0"
  shows "links_ok (update_entry i f c)"
  unfolding links_ok_def link_ok_def
proof (intro allI impI)
  fix j
  assume "live (update_entry i f c) j"
  then have l: "live c j" by simp
  have i: "i < length (slots c)" using assms(2) by (simp add: live_def)
  note hd = handle_update_entry [OF i assms(3)]
  show "unat (dependent_count (entry_at (update_entry i f c) j)) =
      dependents (update_entry i f c) (ent_handle (entry_at (update_entry i f c) j)) \<and>
    (handle_present (ent_dependency (entry_at (update_entry i f c) j)) \<longrightarrow>
      (\<exists>k. live (update_entry i f c) k \<and>
         ent_handle (entry_at (update_entry i f c) k) = ent_dependency (entry_at (update_entry i f c) j))) \<and>
    (ent_state (entry_at (update_entry i f c) j) = YVEX_ENGINE_RESOURCE_RELEASING \<longrightarrow>
      dependent_count (entry_at (update_entry i f c) j) = 0 \<and>
      consumer_count (entry_at (update_entry i f c) j) = 0)"
    using assms(1) l assms(4,5) unfolding links_ok_def link_ok_def
    by (cases "j = i")
      (simp_all add: hd dependents_update_entry [OF assms(2,3)], simp_all add: entry_at_update_entry [OF i])
qed

section \<open>Meters\<close>

definition meter ::
  "(yvex_engine_resource_summary \<Rightarrow> u64) \<Rightarrow> (yvex_engine_resource_entry \<Rightarrow> nat) \<Rightarrow>
   yvex_engine_resource_catalog \<Rightarrow> bool" where
  "meter counter g c \<longleftrightarrow> unat (counter (cat_summary c)) = slot_sum g (slots c)"

lemma metered_iff:
  "metered c \<longleftrightarrow> meter resource_count (\<lambda>e. 1) c \<and>
     meter ready_count (\<lambda>e. of_bool (ent_state e = YVEX_ENGINE_RESOURCE_READY)) c \<and>
     meter failed_count (\<lambda>e. of_bool (ent_state e = YVEX_ENGINE_RESOURCE_FAILED)) c \<and>
     (\<forall>k. meter (\<lambda>s. count_by_kind s k) (\<lambda>e. of_bool (ent_kind e = k)) c) \<and>
     (\<forall>field \<in> set bytes_fields.
        meter (\<lambda>s. field (total_bytes s)) (\<lambda>e. unat (field (ent_bytes e))) c)"
  by (auto simp: metered_def count_meters_def byte_meters_def meter_def)

lemma meter_touch:
  assumes "meter counter g c" "live c i"
    and "unat (counter (F (cat_summary c))) + g (entry_at c i) =
      unat (counter (cat_summary c)) + g (f (entry_at c i))"
  shows "meter counter g (update_summary F (update_entry i f c))"
  using assms slot_sum_update_entry [OF assms(2), of g f] by (simp add: meter_def)

lemma meter_le: "meter counter g c \<Longrightarrow> live c i \<Longrightarrow> g (entry_at c i) \<le> unat (counter (cat_summary c))"
  using slot_weight_le_sum [of i "slots c" g] by (simp add: meter_def live_def slot_weight_def entry_at_def)

text \<open>A counter of slots stays far below its width.\<close>

lemma meter_small:
  assumes "slots_ok c" "meter counter g c" "\<And>e. g e \<le> 1"
  shows "unat (counter (cat_summary c)) \<le> 1024"
  using assms slot_sum_bound [of g "slots c"] by (auto simp: meter_def slots_ok_def)

lemma unat_small_inc: "unat (x :: u64) \<le> 1024 \<Longrightarrow> unat (x + 1) = unat x + 1"
  by (simp add: unat_word_ariths)

lemma unat_dec_pos: "0 < unat (x :: u64) \<Longrightarrow> unat (x - 1) + 1 = unat x"
  by (simp add: unat_dec unat_gt_0)

text \<open>An update that leaves every metered quantity alone.\<close>

lemma metered_update_summary:
  assumes "metered c" "resource_count (F (cat_summary c)) = resource_count (cat_summary c)"
    "ready_count (F (cat_summary c)) = ready_count (cat_summary c)"
    "failed_count (F (cat_summary c)) = failed_count (cat_summary c)"
    "count_by_kind (F (cat_summary c)) = count_by_kind (cat_summary c)"
    "total_bytes (F (cat_summary c)) = total_bytes (cat_summary c)"
  shows "metered (update_summary F c)"
  using assms by (simp add: metered_iff meter_def)

lemma metered_update_entry:
  assumes "metered c" "live c i" "keeps_identity f" "ent_state (f (entry_at c i)) = ent_state (entry_at c i)"
  shows "metered (update_entry i f c)"
proof -
  have "slot_sum g (slots (update_entry i f c)) = slot_sum g (slots c)"
    if "g (f (entry_at c i)) = g (entry_at c i)" for g
    using slot_sum_update_entry [OF assms(2), of g f] that by simp
  then show ?thesis using assms by (simp add: metered_iff meter_def keeps_identity_def)
qed

text \<open>A change of the state of one entry together with the two counters of states.\<close>

definition state_count ::
  "yvex_engine_resource_state \<Rightarrow> yvex_engine_resource_state \<Rightarrow> yvex_engine_resource_state \<Rightarrow> u64 \<Rightarrow> u64" where
  "state_count st old new n = n - of_bool (old = st) + of_bool (new = st)"

lemma meter_state:
  assumes ok: "slots_ok c" and l: "live c i"
    and m: "meter counter (\<lambda>e. of_bool (ent_state e = st)) c"
    and c': "counter (F (cat_summary c)) =
      state_count st (ent_state (entry_at c i)) new (counter (cat_summary c))"
  shows "meter counter (\<lambda>e. of_bool (ent_state e = st))
    (update_summary F (update_entry i (\<lambda>e. e\<lparr>ent_state := new\<rparr>) c))"
proof (rule meter_touch [OF m l])
  let ?n = "counter (cat_summary c)"
  have small: "unat ?n \<le> 1024" by (rule meter_small [OF ok m]) simp
  have le: "of_bool (ent_state (entry_at c i) = st) \<le> unat ?n" using meter_le [OF m l] .
  have dec: "0 < unat ?n \<Longrightarrow> unat (?n - 1) + 1 = unat ?n" by (rule unat_dec_pos)
  have inc: "unat (?n + 1) = unat ?n + 1" by (rule unat_small_inc [OF small])
  show "unat (counter (F (cat_summary c))) + of_bool (ent_state (entry_at c i) = st) =
      unat ?n + of_bool (ent_state (entry_at c i\<lparr>ent_state := new\<rparr>) = st)"
    using le dec inc
    by (cases "ent_state (entry_at c i) = st"; cases "new = st") (simp_all add: c' state_count_def)
qed

lemma metered_state:
  assumes ok: "slots_ok c" and l: "live c i" and m: "metered c"
    and F: "resource_count (F (cat_summary c)) = resource_count (cat_summary c)"
      "count_by_kind (F (cat_summary c)) = count_by_kind (cat_summary c)"
      "total_bytes (F (cat_summary c)) = total_bytes (cat_summary c)"
      "ready_count (F (cat_summary c)) = state_count YVEX_ENGINE_RESOURCE_READY
         (ent_state (entry_at c i)) new (ready_count (cat_summary c))"
      "failed_count (F (cat_summary c)) = state_count YVEX_ENGINE_RESOURCE_FAILED
         (ent_state (entry_at c i)) new (failed_count (cat_summary c))"
  shows "metered (update_summary F (update_entry i (\<lambda>e. e\<lparr>ent_state := new\<rparr>) c))"
  unfolding metered_iff
proof (intro conjI allI ballI)
  let ?u = "update_summary F (update_entry i (\<lambda>e. e\<lparr>ent_state := new\<rparr>) c)"
  note mi = m [unfolded metered_iff]
  show "meter ready_count (\<lambda>e. of_bool (ent_state e = YVEX_ENGINE_RESOURCE_READY)) ?u"
    using mi by (intro meter_state [OF ok l]) (simp_all add: F)
  show "meter failed_count (\<lambda>e. of_bool (ent_state e = YVEX_ENGINE_RESOURCE_FAILED)) ?u"
    using mi by (intro meter_state [OF ok l]) (simp_all add: F)
  show "meter resource_count (\<lambda>e. 1) ?u" using mi by (intro meter_touch [OF _ l]) (simp_all add: F)
  show "meter (\<lambda>s. count_by_kind s k) (\<lambda>e. of_bool (ent_kind e = k)) ?u" for k
    using mi by (intro meter_touch [OF _ l]) (simp_all add: F)
  show "meter (\<lambda>s. field (total_bytes s)) (\<lambda>e. unat (field (ent_bytes e))) ?u"
    if "field \<in> set bytes_fields" for field
    using mi that by (intro meter_touch [OF _ l]) (simp_all add: F)
qed

section \<open>The catalog invariant under removal\<close>

definition cat_ok :: "yvex_engine_resource_catalog \<Rightarrow> bool" where
  "cat_ok c \<longleftrightarrow> slots_ok c \<and> metered c \<and> links_ok c"

lemma put_slot_simps [simp]:
  "cat_summary (put_slot i s c) = cat_summary c"
  "length (slots (put_slot i s c)) = length (slots c)"
  "next_generation (put_slot i s c) = next_generation c"
  "cat_mutex_ready (put_slot i s c) = cat_mutex_ready c"
  by (simp_all add: put_slot_def)

lemma live_put_slot:
  "i < length (slots c) \<Longrightarrow> live (put_slot i s c) j \<longleftrightarrow> (if j = i then in_use s else live c j)"
  by (auto simp: put_slot_def live_def nth_list_update)

lemma entry_at_put_slot:
  "i < length (slots c) \<Longrightarrow> entry_at (put_slot i s c) j = (if j = i then slot_summary s else entry_at c j)"
  by (auto simp: put_slot_def entry_at_def nth_list_update)

lemma slot_sum_put_slot:
  "i < length (slots c) \<Longrightarrow>
     slot_sum g (slots (put_slot i s c)) + slot_weight g (slots c ! i) = slot_sum g (slots c) + slot_weight g s"
  using slot_sum_update [of i "slots c" g s] by (simp add: put_slot_def)

lemma slot_weight_live: "live c i \<Longrightarrow> slot_weight g (slots c ! i) = g (entry_at c i)"
  by (simp add: slot_weight_def live_def entry_at_def)

lemma dependents_positive:
  assumes "live c i" "ent_dependency (entry_at c i) = h"
  shows "0 < dependents c h"
  using slot_weight_le_sum [of i "slots c" "\<lambda>e. of_bool (ent_dependency e = h)"] assms
  by (simp add: slot_weight_live dependents_def) (simp add: live_def)

lemma dependents_clear:
  assumes "live c i"
  shows "dependents (put_slot i zero_slot c) h + of_bool (ent_dependency (entry_at c i) = h) = dependents c h"
proof -
  have "i < length (slots c)" using assms by (simp add: live_def)
  from slot_sum_put_slot [OF this, of "\<lambda>e. of_bool (ent_dependency e = h)" zero_slot]
  show ?thesis by (simp only: slot_weight_live [OF assms] slot_weight_zero_slot dependents_def add_0_right)
qed

text \<open>What the dependency drop does when the catalog is consistent.\<close>

lemma dependency_drop_cases:
  assumes ok: "cat_ok c" and l: "live c i"
  obtains (none) "\<not> handle_present (ent_dependency (entry_at c i))"
      "resource_dependency_drop_locked (entry_at c i) c = c"
    | (some) d where "live c d" "ent_handle (entry_at c d) = ent_dependency (entry_at c i)"
      "0 < unat (dependent_count (entry_at c d))"
      "resource_dependency_drop_locked (entry_at c i) c =
         update_entry d (\<lambda>e. e\<lparr>dependent_count := dependent_count e - 1\<rparr>) c"
proof (cases "handle_present (ent_dependency (entry_at c i))")
  case True
  obtain d where d: "live c d" "ent_handle (entry_at c d) = ent_dependency (entry_at c i)"
    using ok l True by (auto simp: cat_ok_def links_ok_def link_ok_def)
  have "unat (dependent_count (entry_at c d)) = dependents c (ent_dependency (entry_at c i))"
    using ok d by (metis cat_ok_def links_ok_def link_ok_def)
  then have pos: "0 < unat (dependent_count (entry_at c d))"
    using dependents_positive [OF l refl] by simp
  moreover have "resource_slot_locked c (ent_dependency (entry_at c i)) = Some d"
    using ok d by (simp add: cat_ok_def slot_locked_iff)
  ultimately show ?thesis
    using True d by (intro some [of d]) (auto simp: resource_dependency_drop_locked_def)
next
  case False
  then show ?thesis by (intro none) (simp_all add: resource_dependency_drop_locked_def)
qed

lemma slots_ok_clear: "slots_ok c \<Longrightarrow> i < length (slots c) \<Longrightarrow> slots_ok (put_slot i zero_slot c)"
  by (simp add: slots_ok_def live_put_slot entry_at_put_slot zero_slot_def)

lemma links_ok_clear:
  assumes ok: "cat_ok c" and l: "live c i" and free: "dependent_count (entry_at c i) = 0"
  shows "links_ok (put_slot i zero_slot (resource_dependency_drop_locked (entry_at c i) c))"
    (is "links_ok (put_slot i zero_slot ?c1)")
proof -
  have i: "i < length (slots c)" using l by (simp add: live_def)
  have sok: "slots_ok c" using ok by (simp add: cat_ok_def)
  have none: "dependents c (ent_handle (entry_at c i)) = 0"
    using ok l free unfolding cat_ok_def links_ok_def link_ok_def by (metis unat_0)
  have resolved: "\<exists>k. live c k \<and> k \<noteq> i \<and> ent_handle (entry_at c k) = ent_dependency (entry_at c j)"
    if "live c j" "handle_present (ent_dependency (entry_at c j))" for j
    using ok that dependents_positive [OF that(1) refl] none
    unfolding cat_ok_def links_ok_def link_ok_def by (metis less_irrefl)
  have base: "unat (dependent_count (entry_at c j)) = dependents c (ent_handle (entry_at c j))"
    "ent_state (entry_at c j) = YVEX_ENGINE_RESOURCE_RELEASING \<Longrightarrow>
       dependent_count (entry_at c j) = 0 \<and> consumer_count (entry_at c j) = 0"
    if "live c j" for j
    using ok that by (auto simp: cat_ok_def links_ok_def link_ok_def)
  show ?thesis
  proof (cases rule: dependency_drop_cases [OF ok l])
    case none': 1
    have "dependents (put_slot i zero_slot c) (ent_handle (entry_at c j)) =
        dependents c (ent_handle (entry_at c j))" if "live c j" for j
      using dependents_clear [OF l, of "ent_handle (entry_at c j)"] none'(1)
        live_handle_present [OF sok that] by (auto simp: of_bool_def split: if_splits)
    then show ?thesis
      unfolding none'(2) links_ok_def link_ok_def
      using base resolved by (fastforce simp: live_put_slot [OF i] entry_at_put_slot [OF i])
  next
    case some: (2 d)
    let ?f = "\<lambda>e. e\<lparr>dependent_count := dependent_count e - 1\<rparr>"
    have di: "d \<noteq> i" using some(3) free by auto
    have d: "d < length (slots c)" using some(1) by (simp add: live_def)
    have li: "live (update_entry d ?f c) i" using l by simp
    note at = entry_at_update_entry [OF d, of ?f]
    have dep: "dependents (put_slot i zero_slot (update_entry d ?f c)) (ent_handle (entry_at c j)) +
        of_bool (j = d) = dependents c (ent_handle (entry_at c j))" if "live c j" for j
      using dependents_clear [OF li, of "ent_handle (entry_at c j)"] di
        live_inject [OF sok some(1) that] some(2)
      by (simp add: at dependents_update_entry [OF some(1)] eq_commute)
    let ?c2 = "put_slot i zero_slot (update_entry d ?f c)"
    have at2: "entry_at ?c2 k = (if k = d then ?f (entry_at c d) else entry_at c k)" if "k \<noteq> i" for k
      using that i by (simp add: entry_at_put_slot at)
    have live2: "live ?c2 k \<longleftrightarrow> live c k \<and> k \<noteq> i" for k using i by (simp add: live_put_slot)
    have hd2: "ent_handle (entry_at ?c2 k) = ent_handle (entry_at c k)"
      "ent_dependency (entry_at ?c2 k) = ent_dependency (entry_at c k)"
      "ent_state (entry_at ?c2 k) = ent_state (entry_at c k)"
      "consumer_count (entry_at ?c2 k) = consumer_count (entry_at c k)" if "k \<noteq> i" for k
      using at2 [OF that] by simp_all
    have "unat (dependent_count (entry_at c d) - 1) + 1 = unat (dependent_count (entry_at c d))"
      using some(3) by (rule unat_dec_pos)
    then have cnt: "unat (dependent_count (entry_at ?c2 j)) = dependents ?c2 (ent_handle (entry_at c j))"
      if "live c j" "j \<noteq> i" for j
      using base(1) [OF that(1)] dep [OF that(1)] at2 [OF that(2)] by (cases "j = d") simp_all
    have rel: "dependent_count (entry_at ?c2 j) = 0 \<and> consumer_count (entry_at ?c2 j) = 0"
      if "live c j" "j \<noteq> i" "ent_state (entry_at c j) = YVEX_ENGINE_RESOURCE_RELEASING" for j
      using base(2) [OF that(1,3)] at2 [OF that(2)] some(3) by (cases "j = d") simp_all
    show ?thesis
      unfolding some(4) links_ok_def
    proof (intro allI impI)
      fix j
      assume "live ?c2 j"
      then have j: "live c j" "j \<noteq> i" by (simp_all add: live2)
      have ex: "\<exists>k. live ?c2 k \<and> ent_handle (entry_at ?c2 k) = ent_dependency (entry_at c j)"
        if h: "handle_present (ent_dependency (entry_at c j))"
      proof -
        obtain k where "live c k" "k \<noteq> i" "ent_handle (entry_at c k) = ent_dependency (entry_at c j)"
          using resolved [OF j(1) h] by blast
        then have "live ?c2 k \<and> ent_handle (entry_at ?c2 k) = ent_dependency (entry_at c j)"
          by (simp add: live2 hd2)
        then show ?thesis ..
      qed
      show "link_ok ?c2 j"
        unfolding link_ok_def hd2 [OF j(2)] using cnt [OF j] rel [OF j] ex hd2(4) [OF j(2)] by simp
    qed
  qed
qed

lemma meter_clear:
  assumes "meter counter g c" "live c i"
    and "unat (counter (F (cat_summary c))) + g (entry_at c i) = unat (counter (cat_summary c))"
  shows "meter counter g (put_slot i zero_slot (update_summary F c))"
proof -
  have i: "i < length (slots (update_summary F c))" using assms(2) by (simp add: live_def)
  show ?thesis
    using assms slot_sum_put_slot [OF i, of g zero_slot] slot_weight_live [OF assms(2)]
    by (simp add: meter_def)
qed

text \<open>Two consistent catalogs that differ only in counts of dependents of entries other than \<open>i\<close>.\<close>

definition differ_in_dependents ::
  "nat \<Rightarrow> yvex_engine_resource_catalog \<Rightarrow> yvex_engine_resource_catalog \<Rightarrow> bool" where
  "differ_in_dependents i c c1 \<longleftrightarrow> metered c1 \<and> slots_ok c1 \<and> cat_summary c1 = cat_summary c \<and>
     (\<forall>j. live c1 j = live c j) \<and> next_generation c1 = next_generation c \<and>
     cat_mutex_ready c1 = cat_mutex_ready c \<and> length (slots c1) = length (slots c) \<and>
     entry_at c1 i = entry_at c i \<and>
     (\<forall>j. \<exists>n. entry_at c1 j = (entry_at c j)\<lparr>dependent_count := n\<rparr>)"

lemma differ_in_dependents_refl: "metered c \<Longrightarrow> slots_ok c \<Longrightarrow> differ_in_dependents i c c"
proof -
  have "\<exists>n. entry_at c j = (entry_at c j)\<lparr>dependent_count := n\<rparr>" for j
    by (rule exI [of _ "dependent_count (entry_at c j)"]) simp
  then show "metered c \<Longrightarrow> slots_ok c \<Longrightarrow> ?thesis" by (simp add: differ_in_dependents_def)
qed

lemma differ_in_dependents_update:
  assumes "metered c" "slots_ok c" "live c d" "d \<noteq> i"
  shows "differ_in_dependents i c (update_entry d (\<lambda>e. e\<lparr>dependent_count := f e\<rparr>) c)"
proof -
  let ?f = "\<lambda>e. e\<lparr>dependent_count := f e\<rparr>"
  have d: "d < length (slots c)" using assms(3) by (simp add: live_def)
  have "\<exists>n. entry_at (update_entry d ?f c) j = (entry_at c j)\<lparr>dependent_count := n\<rparr>" for j
    by (rule exI [of _ "if j = d then f (entry_at c j) else dependent_count (entry_at c j)"])
      (simp add: entry_at_update_entry [OF d])
  moreover have "metered (update_entry d ?f c)" "slots_ok (update_entry d ?f c)"
    using assms by (auto intro!: metered_update_entry slots_ok_update_entry)
  ultimately show ?thesis
    using assms(4) by (simp add: differ_in_dependents_def entry_at_update_entry [OF d])
qed

lemma dependency_drop_differs:
  assumes ok: "cat_ok c" and l: "live c i" and free: "dependent_count (entry_at c i) = 0"
  shows "differ_in_dependents i c (resource_dependency_drop_locked (entry_at c i) c)"
proof (cases rule: dependency_drop_cases [OF ok l])
  case 1
  then show ?thesis using ok by (simp add: cat_ok_def differ_in_dependents_refl)
next
  case (2 d)
  then have "d \<noteq> i" using free by auto
  then show ?thesis
    using ok 2 differ_in_dependents_update [of c d i "\<lambda>e. dependent_count e - 1"]
    by (simp add: cat_ok_def)
qed

text \<open>Removal, as the clearing of the slot after the drop of the dependency.\<close>

definition removal_summary ::
  "yvex_engine_resource_entry \<Rightarrow> bool \<Rightarrow> yvex_engine_resource_summary \<Rightarrow> yvex_engine_resource_summary" where
  "removal_summary entry evicted s = s\<lparr>
     total_bytes := resource_bytes_subtract (total_bytes s) (ent_bytes entry),
     resource_count := resource_count s - 1,
     count_by_kind := (count_by_kind s)(ent_kind entry := count_by_kind s (ent_kind entry) - 1),
     ready_count := (if ent_state entry = YVEX_ENGINE_RESOURCE_READY
       then ready_count s - 1 else ready_count s),
     failed_count := (if ent_state entry = YVEX_ENGINE_RESOURCE_FAILED
       then failed_count s - 1 else failed_count s),
     release_count := release_count s + 1,
     eviction_count := eviction_count s + (if evicted then 1 else 0),
     generation := generation s + 1\<rparr>"

lemma resource_remove_locked_eq:
  "resource_remove_locked i evicted c =
     put_slot i zero_slot (update_summary (removal_summary (entry_at c i) evicted)
       (resource_dependency_drop_locked (entry_at c i) c))"
  by (simp add: resource_remove_locked_def put_slot_def removal_summary_def Let_def)

lemma unat_minus_le: "unat (b :: u64) \<le> unat a \<Longrightarrow> unat (a - b) + unat b = unat a"
  by (simp add: unat_sub word_le_nat_alt)

lemma metered_removal:
  assumes m: "metered c" and l: "live c i"
  shows "metered (put_slot i zero_slot (update_summary (removal_summary (entry_at c i) ev) c))"
  unfolding metered_iff
proof (intro conjI allI ballI)
  let ?F = "removal_summary (entry_at c i) ev"
  let ?u = "put_slot i zero_slot (update_summary ?F c)"
  note mi = m [unfolded metered_iff]
  have dec: "unat ((if P then n - 1 else n) :: u64) + of_bool P = unat n"
    if "of_bool P \<le> unat n" for P and n :: u64
    using that unat_dec_pos [of n] by (cases P) simp_all
  have bounds: "g (entry_at c i) \<le> unat (counter (cat_summary c))" if "meter counter g c" for counter g
    using meter_le [OF that l] .
  show "meter resource_count (\<lambda>e. 1) ?u"
    using mi bounds [of resource_count "\<lambda>e. 1"] unat_dec_pos [of "resource_count (cat_summary c)"]
    by (intro meter_clear [OF _ l]) (simp_all add: removal_summary_def)
  show "meter ready_count (\<lambda>e. of_bool (ent_state e = YVEX_ENGINE_RESOURCE_READY)) ?u"
    using mi bounds [of ready_count "\<lambda>e. of_bool (ent_state e = YVEX_ENGINE_RESOURCE_READY)"]
      dec [of "ent_state (entry_at c i) = YVEX_ENGINE_RESOURCE_READY" "ready_count (cat_summary c)"]
    by (intro meter_clear [OF _ l]) (simp_all add: removal_summary_def)
  show "meter failed_count (\<lambda>e. of_bool (ent_state e = YVEX_ENGINE_RESOURCE_FAILED)) ?u"
    using mi bounds [of failed_count "\<lambda>e. of_bool (ent_state e = YVEX_ENGINE_RESOURCE_FAILED)"]
      dec [of "ent_state (entry_at c i) = YVEX_ENGINE_RESOURCE_FAILED" "failed_count (cat_summary c)"]
    by (intro meter_clear [OF _ l]) (simp_all add: removal_summary_def)
  show "meter (\<lambda>s. count_by_kind s k) (\<lambda>e. of_bool (ent_kind e = k)) ?u" for k
    using mi bounds [of "\<lambda>s. count_by_kind s k" "\<lambda>e. of_bool (ent_kind e = k)"]
      dec [of "ent_kind (entry_at c i) = k" "count_by_kind (cat_summary c) k"]
    by (intro meter_clear [OF _ l]) (auto simp: removal_summary_def)
  show "meter (\<lambda>s. field (total_bytes s)) (\<lambda>e. unat (field (ent_bytes e))) ?u"
    if f: "field \<in> set bytes_fields" for field
    using mi f bounds [of "\<lambda>s. field (total_bytes s)" "\<lambda>e. unat (field (ent_bytes e))"]
      unat_minus_le [of "field (ent_bytes (entry_at c i))" "field (total_bytes (cat_summary c))"]
    by (intro meter_clear [OF _ l]) (simp_all add: removal_summary_def bytes_subtract_field)
qed

lemma remove_ok:
  assumes ok: "cat_ok c" and l: "live c i" and free: "dependent_count (entry_at c i) = 0"
  shows "cat_ok (resource_remove_locked i ev c)"
proof -
  let ?c1 = "resource_dependency_drop_locked (entry_at c i) c"
  have d: "differ_in_dependents i c ?c1" using assms by (rule dependency_drop_differs)
  then have l1: "live ?c1 i" and e1: "entry_at ?c1 i = entry_at c i" and s1: "slots_ok ?c1"
    and m1: "metered ?c1"
    using l by (simp_all add: differ_in_dependents_def)
  let ?u = "update_summary (removal_summary (entry_at c i) ev) ?c1"
  have "i < length (slots ?u)" using l1 by (simp add: live_def)
  moreover have "slots_ok ?u"
    by (rule slots_ok_update_summary [OF s1]) (simp_all add: removal_summary_def)
  ultimately have "slots_ok (put_slot i zero_slot ?u)" by (simp add: slots_ok_clear)
  moreover have "metered (put_slot i zero_slot ?u)" using metered_removal [OF m1 l1] e1 by simp
  moreover have "links_ok (put_slot i zero_slot ?u)"
  proof -
    have "put_slot i zero_slot ?u = update_summary (removal_summary (entry_at c i) ev) (put_slot i zero_slot ?c1)"
      by (simp add: put_slot_def update_summary_def)
    then show ?thesis using links_ok_clear [OF assms] by simp
  qed
  ultimately show ?thesis by (simp add: cat_ok_def resource_remove_locked_eq)
qed

text \<open>What a removal leaves: every other live resource, up to its count of dependents.\<close>

lemma remove_live:
  assumes ok: "cat_ok c" and l: "live c i" and free: "dependent_count (entry_at c i) = 0"
  shows "live (resource_remove_locked i ev c) j \<longleftrightarrow> live c j \<and> j \<noteq> i"
    and "j \<noteq> i \<Longrightarrow> \<exists>n. entry_at (resource_remove_locked i ev c) j = (entry_at c j)\<lparr>dependent_count := n\<rparr>"
    and "next_generation (resource_remove_locked i ev c) = next_generation c"
    and "cat_mutex_ready (resource_remove_locked i ev c) = cat_mutex_ready c"
    and "closing (cat_summary (resource_remove_locked i ev c)) = closing (cat_summary c)"
proof -
  let ?c1 = "resource_dependency_drop_locked (entry_at c i) c"
  have d: "differ_in_dependents i c ?c1" using assms by (rule dependency_drop_differs)
  have i: "i < length (slots (update_summary (removal_summary (entry_at c i) ev) ?c1))"
    using d l by (simp add: differ_in_dependents_def live_def)
  show "live (resource_remove_locked i ev c) j \<longleftrightarrow> live c j \<and> j \<noteq> i"
    using d by (simp add: resource_remove_locked_eq live_put_slot [OF i] differ_in_dependents_def)
  show "j \<noteq> i \<Longrightarrow> \<exists>n. entry_at (resource_remove_locked i ev c) j = (entry_at c j)\<lparr>dependent_count := n\<rparr>"
    using d by (simp add: resource_remove_locked_eq entry_at_put_slot [OF i] differ_in_dependents_def)
  show "next_generation (resource_remove_locked i ev c) = next_generation c"
    "cat_mutex_ready (resource_remove_locked i ev c) = cat_mutex_ready c"
    "closing (cat_summary (resource_remove_locked i ev c)) = closing (cat_summary c)"
    using d by (simp_all add: resource_remove_locked_eq differ_in_dependents_def removal_summary_def)
qed

end
