(* ===== verification/Resource_Lifecycle.thy ===== *)
theory Resource_Lifecycle
  imports Resource_Catalog
begin

text \<open>
  The life of resources in the catalog of \<^verbatim>\<open>src/runtime/resource.c\<close>: every operation keeps the catalog
  consistent, threads interleave the critical sections, and closing releases everything.
\<close>

section \<open>Registration\<close>

lemma register_success:
  assumes "yvex_runtime_resource_register lock request c = (Inr h, c')"
  shows "\<exists>i d totals preparation.
    i < unat (capacity (cat_summary c)) \<and> \<not> in_use (slots c ! i) \<and> h = fresh_handle c i \<and>
    (if handle_present (req_dependency request)
     then \<exists>k. d = Some k \<and> resource_slot_locked c (req_dependency request) = Some k \<and>
       ent_state (entry_at c k) = YVEX_ENGINE_RESOURCE_READY
     else d = None) \<and>
    resource_bytes_add (total_bytes (cat_summary c)) (req_bytes request) = Some totals \<and>
    \<not> closing (cat_summary c) \<and> cat_mutex_ready c \<and>
    c' = update_summary (registration_summary request totals preparation)
      (link_dependency d (filled_catalog i (fresh_generation c) (registered_slot request h) c))"
proof -
  define d where "d = (if handle_present (req_dependency request)
    then resource_slot_locked c (req_dependency request) else None)"
  define i where "i = first_index (\<lambda>i. \<not> in_use (slots c ! i)) (unat (capacity (cat_summary c)))"
  have dep: "if handle_present (req_dependency request)
     then \<exists>k. d = Some k \<and> resource_slot_locked c (req_dependency request) = Some k \<and>
       ent_state (entry_at c k) = YVEX_ENGINE_RESOURCE_READY
     else d = None"
    and guards: "cat_mutex_ready c" "\<not> closing (cat_summary c)" "i \<noteq> unat (capacity (cat_summary c))"
    using assms unfolding yvex_runtime_resource_register_def d_def [symmetric] i_def Let_def
    by (auto simp: d_def split: if_splits)
  have i: "i < unat (capacity (cat_summary c))" using guards(3) by (simp add: i_def le_neq_implies_less)
  then have "\<not> in_use (slots c ! i)"
    using first_index_hit [of "\<lambda>i. \<not> in_use (slots c ! i)"] by (simp add: i_def)
  moreover have "h = fresh_handle c i \<and> (\<exists>totals preparation.
      resource_bytes_add (total_bytes (cat_summary c)) (req_bytes request) = Some totals \<and>
      c' = update_summary (registration_summary request totals preparation)
        (link_dependency d (filled_catalog i (fresh_generation c) (registered_slot request h) c)))"
    using assms unfolding yvex_runtime_resource_register_def d_def [symmetric] i_def [symmetric] Let_def
    by (auto split: if_splits option.splits)
  ultimately show ?thesis using dep guards i by blast
qed

lemma filled_simps [simp]:
  "cat_summary (filled_catalog i g s c) = cat_summary c"
  "next_generation (filled_catalog i g s c) = g"
  "cat_mutex_ready (filled_catalog i g s c) = cat_mutex_ready c"
  "length (slots (filled_catalog i g s c)) = length (slots c)"
  by (simp_all add: filled_catalog_def)

lemma live_filled:
  "i < length (slots c) \<Longrightarrow> live (filled_catalog i g s c) j \<longleftrightarrow> (if j = i then in_use s else live c j)"
  by (auto simp: filled_catalog_def put_slot_def live_def nth_list_update)

lemma entry_at_filled:
  "i < length (slots c) \<Longrightarrow> entry_at (filled_catalog i g s c) j = (if j = i then slot_summary s else entry_at c j)"
  by (auto simp: filled_catalog_def put_slot_def entry_at_def nth_list_update)

lemma slot_sum_filled:
  "i < length (slots c) \<Longrightarrow> \<not> in_use (slots c ! i) \<Longrightarrow> in_use s \<Longrightarrow>
     slot_sum f (slots (filled_catalog i g s c)) = slot_sum f (slots c) + f (slot_summary s)"
  using slot_sum_update [of i "slots c" f s]
  by (simp add: filled_catalog_def put_slot_def slot_weight_def)

lemma registered_slot_simps [simp]:
  "in_use (registered_slot r h)" "ent_handle (slot_summary (registered_slot r h)) = h"
  "ent_dependency (slot_summary (registered_slot r h)) = req_dependency r"
  "ent_kind (slot_summary (registered_slot r h)) = req_kind r"
  "ent_bytes (slot_summary (registered_slot r h)) = req_bytes r"
  "ent_state (slot_summary (registered_slot r h)) =
     (if req_ready r then YVEX_ENGINE_RESOURCE_READY else YVEX_ENGINE_RESOURCE_DECLARED)"
  "dependent_count (slot_summary (registered_slot r h)) = 0"
  "consumer_count (slot_summary (registered_slot r h)) = 0"
  by (simp_all add: registered_slot_def)

lemma fresh_handle_simps [simp]:
  "h_engine_generation (fresh_handle c i) = engine_generation (cat_summary c)"
  "h_slot (fresh_handle c i) = of_nat i + 1" "h_generation (fresh_handle c i) = fresh_generation c"
  by (simp_all add: fresh_handle_def)

lemma fresh_generation_not_0 [simp]: "fresh_generation c \<noteq> 0"
  by (simp add: fresh_generation_def)

text \<open>The situation after the guards of a registration.\<close>

definition register_ready ::
  "nat \<Rightarrow> nat option \<Rightarrow> yvex_engine_resource_request \<Rightarrow> yvex_engine_resource_catalog \<Rightarrow> bool" where
  "register_ready i d request c \<longleftrightarrow> cat_ok c \<and> i < length (slots c) \<and> \<not> in_use (slots c ! i) \<and>
     (case d of None \<Rightarrow> \<not> handle_present (req_dependency request)
      | Some k \<Rightarrow> live c k \<and> ent_handle (entry_at c k) = req_dependency request \<and>
          ent_state (entry_at c k) = YVEX_ENGINE_RESOURCE_READY)"

abbreviation (input) filled where
  "filled i request c \<equiv> filled_catalog i (fresh_generation c) (registered_slot request (fresh_handle c i)) c"

lemma slots_ok_filled:
  assumes "register_ready i d request c"
  shows "slots_ok (filled i request c)"
proof -
  have i: "i < length (slots c)" and ok: "slots_ok c"
    using assms by (auto simp: register_ready_def cat_ok_def)
  show ?thesis
    using ok unfolding slots_ok_def filled_simps
    by (simp add: live_filled [OF i] entry_at_filled [OF i])
qed

lemma fresh_handle_unused:
  assumes r: "register_ready i d request c"
  shows "live c j \<Longrightarrow> ent_handle (entry_at c j) \<noteq> fresh_handle c i"
    and "req_dependency request \<noteq> fresh_handle c i"
    and "dependents c (fresh_handle c i) = 0"
proof -
  have ok: "slots_ok c" and links: "links_ok c" and i: "i < length (slots c)" "\<not> in_use (slots c ! i)"
    using r by (auto simp: register_ready_def cat_ok_def)
  have small: "k < 1024" if "k < length (slots c)" for k using ok that by (auto simp: slots_ok_def)
  have not_live: "ent_handle (entry_at c j) \<noteq> fresh_handle c i" if l: "live c j" for j
  proof
    assume "ent_handle (entry_at c j) = fresh_handle c i"
    then have "(of_nat j + 1 :: u64) = of_nat i + 1" using ok l by (auto simp: slots_ok_def)
    then have "j = i"
      using slot_word(3) [OF small [OF i(1)]] slot_word(3) [of j] small [of j] l
      by (auto simp: live_def)
    then show False using l i by (simp add: live_def)
  qed
  then show "live c j \<Longrightarrow> ent_handle (entry_at c j) \<noteq> fresh_handle c i" .
  have present: "handle_present (fresh_handle c i)" by (simp add: handle_present_def)
  show "req_dependency request \<noteq> fresh_handle c i"
    using r not_live present by (auto simp: register_ready_def split: option.splits)
  have "ent_dependency (entry_at c j) \<noteq> fresh_handle c i" if l: "live c j" for j
  proof
    assume "ent_dependency (entry_at c j) = fresh_handle c i"
    then obtain k where "live c k" "ent_handle (entry_at c k) = fresh_handle c i"
      using links l present unfolding links_ok_def link_ok_def by metis
    then show False using not_live by blast
  qed
  then show "dependents c (fresh_handle c i) = 0"
    unfolding dependents_def slot_sum_0_iff
    by (auto simp: slot_weight_def live_def entry_at_def)
qed

lemma metered_filled:
  assumes r: "register_ready i d request c"
    and totals: "resource_bytes_add (total_bytes (cat_summary c)) (req_bytes request) = Some totals"
  shows "metered (update_summary (registration_summary request totals p) (filled i request c))"
  unfolding metered_iff
proof (intro conjI allI ballI)
  let ?u = "update_summary (registration_summary request totals p) (filled i request c)"
  have ok: "slots_ok c" and m: "metered c" and i: "i < length (slots c)" "\<not> in_use (slots c ! i)"
    using r by (auto simp: register_ready_def cat_ok_def)
  note mi = m [unfolded metered_iff]
  note sum = slot_sum_filled [OF i registered_slot_simps(1)]
  have inc: "unat (counter (cat_summary c) + 1) = unat (counter (cat_summary c)) + 1"
    if "meter counter (\<lambda>e. of_bool (P e)) c" for counter and P :: "yvex_engine_resource_entry \<Rightarrow> bool"
    by (intro unat_small_inc meter_small [OF ok that]) simp
  show "meter resource_count (\<lambda>e. 1) ?u"
    using mi inc [of resource_count "\<lambda>e. True"] by (simp add: meter_def sum registration_summary_def)
  show "meter ready_count (\<lambda>e. of_bool (ent_state e = YVEX_ENGINE_RESOURCE_READY)) ?u"
    using mi inc [of ready_count "\<lambda>e. ent_state e = YVEX_ENGINE_RESOURCE_READY"]
    by (simp add: meter_def sum registration_summary_def)
  show "meter failed_count (\<lambda>e. of_bool (ent_state e = YVEX_ENGINE_RESOURCE_FAILED)) ?u"
    using mi by (simp add: meter_def sum registration_summary_def)
  show "meter (\<lambda>s. count_by_kind s k) (\<lambda>e. of_bool (ent_kind e = k)) ?u" for k
    using mi inc [of "\<lambda>s. count_by_kind s k" "\<lambda>e. ent_kind e = k"]
    by (auto simp: meter_def sum registration_summary_def)
  show "meter (\<lambda>s. field (total_bytes s)) (\<lambda>e. unat (field (ent_bytes e))) ?u"
    if f: "field \<in> set bytes_fields" for field
    using mi f bytes_add_field [OF totals f] by (simp add: meter_def sum registration_summary_def)
qed

lemma dependents_filled:
  assumes "register_ready i d request c"
  shows "dependents (filled i request c) h = dependents c h + of_bool (req_dependency request = h)"
proof -
  have i: "i < length (slots c)" "\<not> in_use (slots c ! i)" using assms by (auto simp: register_ready_def)
  show ?thesis
    unfolding dependents_def
    by (simp only: slot_sum_filled [OF i registered_slot_simps(1)] registered_slot_simps)
qed

lemma dependents_small:
  assumes "slots_ok c"
  shows "dependents c h \<le> 1024"
proof -
  have "dependents c h \<le> length (slots c)" unfolding dependents_def by (rule slot_sum_bound) simp
  then show ?thesis using assms by (simp add: slots_ok_def)
qed

lemma link_ok_filled:
  assumes r: "register_ready i d request c"
  shows "links_ok (link_dependency d (filled i request c))"
proof -
  define c1 where "c1 = filled i request c"
  define c2 where "c2 = link_dependency d c1"
  have i: "i < length (slots c)" and ok: "slots_ok c" and links: "links_ok c" and free: "\<not> live c i"
    using r by (auto simp: register_ready_def cat_ok_def live_def)
  have at1: "entry_at c1 j = (if j = i then slot_summary (registered_slot request (fresh_handle c i))
      else entry_at c j)" for j
    by (simp add: c1_def entry_at_filled [OF i])
  have live1: "live c1 j \<longleftrightarrow> j = i \<or> live c j" for j by (simp add: c1_def live_filled [OF i])
  have d: "live c k" "ent_handle (entry_at c k) = req_dependency request"
    "ent_state (entry_at c k) = YVEX_ENGINE_RESOURCE_READY" "k \<noteq> i" if "d = Some k" for k
    using r that free by (auto simp: register_ready_def)
  have at2: "entry_at c2 j = (entry_at c1 j)\<lparr>dependent_count :=
      dependent_count (entry_at c1 j) + of_bool (d = Some j)\<rparr>" for j
    using d(1) i by (cases d) (auto simp: c2_def c1_def link_dependency_def live_def entry_at_update_entry)
  have live2: "live c2 j \<longleftrightarrow> j = i \<or> live c j" for j
    by (cases d) (simp_all add: c2_def link_dependency_def live1)
  have deps2: "dependents c2 h = dependents c h + of_bool (req_dependency request = h)" for h
  proof (cases d)
    case None
    then show ?thesis by (simp add: c2_def c1_def link_dependency_def dependents_filled [OF r])
  next
    case (Some k)
    then have "live c1 k" using d(1) by (simp add: live1)
    then show ?thesis
      using Some dependents_filled [OF r]
      by (simp add: c2_def link_dependency_def dependents_update_entry) (simp add: c1_def)
  qed
  have dep_iff: "req_dependency request = ent_handle (entry_at c j) \<longleftrightarrow> d = Some j" if l: "live c j" for j
  proof (cases d)
    case None
    then show ?thesis using r live_handle_present [OF ok l] by (auto simp: register_ready_def)
  next
    case (Some k)
    then show ?thesis using d(1,2) [OF Some] live_inject [OF ok l d(1) [OF Some]] by auto
  qed
  have "link_ok c2 j" if "live c2 j" for j
  proof -
  from that
  consider (new) "j = i" | (old) "live c j" "j \<noteq> i" using live2 free by auto
  then show ?thesis
  proof cases
    case new
    have "\<exists>k. live c2 k \<and> ent_handle (entry_at c2 k) = req_dependency request"
      if h: "handle_present (req_dependency request)"
    proof -
      obtain k where k: "d = Some k" using r h by (cases d) (auto simp: register_ready_def)
      have "live c2 k \<and> ent_handle (entry_at c2 k) = req_dependency request"
        using d [OF k] by (simp add: live2 at2 at1)
      then show ?thesis ..
    qed
    moreover have "d \<noteq> Some i" using d(4) by blast
    ultimately show ?thesis
      using new fresh_handle_unused(2,3) [OF r] by (simp add: link_ok_def at2 at1 deps2)
  next
    case old
    have base: "link_ok c j" using links old by (simp add: links_ok_def)
    have small: "dependents c (ent_handle (entry_at c j)) \<le> 1024"
      by (rule dependents_small [OF ok])
    then have inc: "unat (dependent_count (entry_at c j) + 1) = unat (dependent_count (entry_at c j)) + 1"
      using base by (intro unat_small_inc) (simp add: link_ok_def)
    have "\<exists>k. live c2 k \<and> ent_handle (entry_at c2 k) = ent_dependency (entry_at c j)"
      if h: "handle_present (ent_dependency (entry_at c j))"
    proof -
      obtain k where k: "live c k" "ent_handle (entry_at c k) = ent_dependency (entry_at c j)"
        using base h by (auto simp: link_ok_def)
      then have "k \<noteq> i" using free by blast
      then have "live c2 k \<and> ent_handle (entry_at c2 k) = ent_dependency (entry_at c j)"
        using k by (simp add: live2 at2 at1)
      then show ?thesis ..
    qed
    moreover have "d = Some j \<Longrightarrow> ent_state (entry_at c j) \<noteq> YVEX_ENGINE_RESOURCE_RELEASING"
      using d(3) by auto
    ultimately show ?thesis
      using old base inc dep_iff [OF old(1)]
      by (cases "d = Some j") (simp_all add: link_ok_def at2 at1 deps2)
  qed
  qed
  then show ?thesis by (simp add: links_ok_def c2_def c1_def)
qed

lemma register_ok:
  assumes r: "register_ready i d request c"
    and totals: "resource_bytes_add (total_bytes (cat_summary c)) (req_bytes request) = Some totals"
  shows "cat_ok (update_summary (registration_summary request totals p)
    (link_dependency d (filled i request c)))"
proof -
  let ?F = "registration_summary request totals p" and ?c1 = "filled i request c"
  have s1: "slots_ok ?c1" by (rule slots_ok_filled [OF r])
  have m1: "metered (update_summary ?F ?c1)" by (rule metered_filled [OF r totals])
  have keep: "engine_generation (?F s) = engine_generation s" "capacity (?F s) = capacity s" for s
    by (simp_all add: registration_summary_def)
  have su: "slots_ok (update_summary ?F ?c1)" using s1 keep by (intro slots_ok_update_summary)
  have "slots_ok (update_summary ?F (link_dependency d ?c1)) \<and> metered (update_summary ?F (link_dependency d ?c1))"
  proof (cases d)
    case None
    then show ?thesis using su m1 by (simp add: link_dependency_def)
  next
    case (Some k)
    have l: "live (update_summary ?F ?c1) k"
      using r Some by (auto simp: register_ready_def live_filled)
    have "update_summary ?F (link_dependency d ?c1) =
        update_entry k (\<lambda>e. e\<lparr>dependent_count := dependent_count e + 1\<rparr>) (update_summary ?F ?c1)"
      by (simp add: Some link_dependency_def update_summary_def update_entry_def entry_at_def)
    then show ?thesis using slots_ok_update_entry [OF su l] metered_update_entry [OF m1 l] by simp
  qed
  then show ?thesis using link_ok_filled [OF r] by (simp add: cat_ok_def)
qed

section \<open>The other operations\<close>

text \<open>
  What a successful operation on a handle did: the handle resolves to a live slot \<open>i\<close>, and the new
  catalog differs in that entry and in the summary.
\<close>

lemma acquire_success:
  assumes "yvex_runtime_resource_acquire l h c = (Inr v, c')"
  shows "\<exists>i. resource_slot_locked c h = Some i \<and> ent_state (entry_at c i) = YVEX_ENGINE_RESOURCE_READY \<and>
    consumer_count (entry_at c i) \<noteq> ULLONG_MAX \<and> \<not> closing (cat_summary c) \<and>
    v = slot_value (slots c ! i) \<and>
    c' = update_summary (\<lambda>s. s\<lparr>total_acquisition_count := total_acquisition_count s + 1\<rparr>)
      (update_entry i (\<lambda>e. e\<lparr>consumer_count := consumer_count e + 1,
         acquisition_count := acquisition_count e + 1\<rparr>) c)"
  using assms by (auto simp: yvex_runtime_resource_acquire_def split: if_splits option.splits)

lemma publish_success:
  assumes "yvex_runtime_resource_publish_ready l h c = (Inr u, c')"
  shows "\<exists>i. resource_slot_locked c h = Some i \<and> ent_state (entry_at c i) = YVEX_ENGINE_RESOURCE_DECLARED \<and>
    c' = update_summary (\<lambda>s. s\<lparr>ready_count := ready_count s + 1, generation := generation s + 1\<rparr>)
      (update_entry i (\<lambda>e. e\<lparr>ent_state := YVEX_ENGINE_RESOURCE_READY\<rparr>) c)"
  using assms by (auto simp: yvex_runtime_resource_publish_ready_def split: if_splits option.splits)

lemma drop_success:
  assumes "yvex_runtime_resource_drop l h c = (Inr u, c')"
  shows "\<exists>i. resource_slot_locked c h = Some i \<and> consumer_count (entry_at c i) \<noteq> 0 \<and>
    c' = update_entry i (\<lambda>e. e\<lparr>consumer_count := consumer_count e - 1\<rparr>) c"
  using assms by (auto simp: yvex_runtime_resource_drop_def split: if_splits option.splits)

lemma release_begin_success:
  assumes "resource_release_begin l h ev c = (Inr cb, c')"
  shows "\<exists>i. resource_slot_locked c h = Some i \<and> ent_state (entry_at c i) \<noteq> YVEX_ENGINE_RESOURCE_RELEASING \<and>
    consumer_count (entry_at c i) = 0 \<and> dependent_count (entry_at c i) = 0 \<and>
    (ev \<longrightarrow> ent_evictable (entry_at c i)) \<and>
    c' = update_entry i (\<lambda>e. e\<lparr>ent_state := YVEX_ENGINE_RESOURCE_RELEASING\<rparr>)
      (update_summary (\<lambda>s. s\<lparr>
         ready_count := (if ent_state (entry_at c i) = YVEX_ENGINE_RESOURCE_READY
           then ready_count s - 1 else ready_count s),
         failed_count := (if ent_state (entry_at c i) = YVEX_ENGINE_RESOURCE_FAILED
           then failed_count s - 1 else failed_count s)\<rparr>) c)"
  using assms by (auto simp: resource_release_begin_def Let_def split: if_splits option.splits)

lemma update_entry_summary_commute:
  "update_entry i f (update_summary F c) = update_summary F (update_entry i f c)"
  by (simp add: update_entry_def update_summary_def entry_at_def)

lemma acquire_ok:
  assumes ok: "cat_ok c" and "yvex_runtime_resource_acquire l h c = (Inr v, c')"
  shows "cat_ok c'"
proof -
  let ?f = "\<lambda>e. e\<lparr>consumer_count := consumer_count e + 1, acquisition_count := acquisition_count e + 1\<rparr>"
  let ?F = "\<lambda>s. s\<lparr>total_acquisition_count := total_acquisition_count s + 1\<rparr>"
  obtain i where i: "live c i" "ent_state (entry_at c i) = YVEX_ENGINE_RESOURCE_READY"
    and c': "c' = update_summary ?F (update_entry i ?f c)"
    using acquire_success [OF assms(2)] ok by (auto simp: cat_ok_def slot_locked_iff)
  have "slots_ok (update_entry i ?f c)" "metered (update_entry i ?f c)" "links_ok (update_entry i ?f c)"
    using ok i by (auto simp: cat_ok_def intro!: slots_ok_update_entry metered_update_entry links_ok_update_entry)
  then show ?thesis
    unfolding c' cat_ok_def by (auto intro!: slots_ok_update_summary metered_update_summary)
qed

lemma drop_ok:
  assumes ok: "cat_ok c" and "yvex_runtime_resource_drop l h c = (Inr u, c')"
  shows "cat_ok c'"
proof -
  let ?f = "\<lambda>e. e\<lparr>consumer_count := consumer_count e - 1\<rparr>"
  obtain i where i: "live c i" "consumer_count (entry_at c i) \<noteq> 0" and c': "c' = update_entry i ?f c"
    using drop_success [OF assms(2)] ok by (auto simp: cat_ok_def slot_locked_iff)
  have "ent_state (entry_at c i) \<noteq> YVEX_ENGINE_RESOURCE_RELEASING"
    using ok i by (auto simp: cat_ok_def links_ok_def link_ok_def)
  then show ?thesis
    using ok i unfolding c' cat_ok_def
    by (auto intro!: slots_ok_update_entry metered_update_entry links_ok_update_entry)
qed

lemma publish_ok:
  assumes ok: "cat_ok c" and "yvex_runtime_resource_publish_ready l h c = (Inr u, c')"
  shows "cat_ok c'"
proof -
  let ?f = "\<lambda>e. e\<lparr>ent_state := YVEX_ENGINE_RESOURCE_READY\<rparr>"
  let ?F = "\<lambda>s. s\<lparr>ready_count := ready_count s + 1, generation := generation s + 1\<rparr>"
  obtain i where i: "live c i" "ent_state (entry_at c i) = YVEX_ENGINE_RESOURCE_DECLARED"
    and c': "c' = update_summary ?F (update_entry i ?f c)"
    using publish_success [OF assms(2)] ok by (auto simp: cat_ok_def slot_locked_iff)
  have "slots_ok (update_entry i ?f c)" "links_ok (update_entry i ?f c)"
    using ok i by (auto simp: cat_ok_def intro!: slots_ok_update_entry links_ok_update_entry)
  moreover have "metered c'"
    unfolding c' using ok i by (intro metered_state) (auto simp: cat_ok_def state_count_def)
  ultimately show ?thesis
    unfolding c' cat_ok_def by (auto intro!: slots_ok_update_summary)
qed

lemma release_begin_ok:
  assumes ok: "cat_ok c" and "resource_release_begin l h ev c = (Inr cb, c')"
  shows "cat_ok c'"
proof -
  let ?f = "\<lambda>e. e\<lparr>ent_state := YVEX_ENGINE_RESOURCE_RELEASING\<rparr>"
  obtain i where i: "live c i" "consumer_count (entry_at c i) = 0" "dependent_count (entry_at c i) = 0"
    and c': "c' = update_entry i ?f (update_summary (\<lambda>s. s\<lparr>
         ready_count := (if ent_state (entry_at c i) = YVEX_ENGINE_RESOURCE_READY
           then ready_count s - 1 else ready_count s),
         failed_count := (if ent_state (entry_at c i) = YVEX_ENGINE_RESOURCE_FAILED
           then failed_count s - 1 else failed_count s)\<rparr>) c)"
    using release_begin_success [OF assms(2)] ok by (auto simp: cat_ok_def slot_locked_iff)
  have "slots_ok (update_entry i ?f c)" "links_ok (update_entry i ?f c)"
    using ok i by (auto simp: cat_ok_def intro!: slots_ok_update_entry links_ok_update_entry)
  moreover have "metered c'"
    unfolding c' update_entry_summary_commute
    using ok i by (intro metered_state) (auto simp: cat_ok_def state_count_def)
  ultimately show ?thesis
    unfolding c' update_entry_summary_commute cat_ok_def by (auto intro!: slots_ok_update_summary)
qed

lemma release_failed_ok:
  assumes ok: "cat_ok c" and l: "live c i"
    and st: "ent_state (entry_at c i) = YVEX_ENGINE_RESOURCE_RELEASING"
  shows "cat_ok (update_entry i (\<lambda>e. e\<lparr>ent_state := YVEX_ENGINE_RESOURCE_FAILED\<rparr>)
    (update_summary (\<lambda>s. s\<lparr>failed_count := failed_count s + 1,
       failed_release_count := failed_release_count s + 1\<rparr>) c))"
proof -
  let ?f = "\<lambda>e. e\<lparr>ent_state := YVEX_ENGINE_RESOURCE_FAILED\<rparr>"
  have "slots_ok (update_entry i ?f c)" "links_ok (update_entry i ?f c)"
    using ok l by (auto simp: cat_ok_def intro!: slots_ok_update_entry links_ok_update_entry)
  moreover have "metered (update_summary (\<lambda>s. s\<lparr>failed_count := failed_count s + 1,
       failed_release_count := failed_release_count s + 1\<rparr>) (update_entry i ?f c))"
    using ok l st by (intro metered_state) (auto simp: cat_ok_def state_count_def)
  ultimately show ?thesis
    unfolding update_entry_summary_commute cat_ok_def by (auto intro!: slots_ok_update_summary)
qed

text \<open>Reserving keeps the live slots and appends cleared ones.\<close>

lemma reserve_success:
  assumes "yvex_runtime_resource_catalog_reserve sb cb l a wanted mx c = (Inr retained, c')"
  shows "c' = c \<or> (capacity (cat_summary c) < wanted \<and> wanted \<le> 1024 \<and>
    c' = c\<lparr>slots := take (unat (capacity (cat_summary c))) (slots c) @
          replicate (unat wanted - unat (capacity (cat_summary c))) zero_slot,
        cat_summary := (cat_summary c)\<lparr>generation := generation (cat_summary c) +
          (if capacity (cat_summary c) \<noteq> 0 then 1 else 0), capacity := wanted\<rparr>\<rparr>)"
  using assms
  by (auto simp: yvex_runtime_resource_catalog_reserve_def Let_def update_summary_def
      split: if_splits option.splits)

lemma grown_live:
  assumes "length (slots c) = n"
    and c': "c' = c\<lparr>slots := slots c @ replicate k zero_slot, cat_summary := sm\<rparr>"
  shows "live c' i = live c i" "live c i \<Longrightarrow> entry_at c' i = entry_at c i"
    "dependents c' h = dependents c h" "slot_sum f (slots c') = slot_sum f (slots c)"
  using assms by (auto simp: live_def entry_at_def nth_append dependents_def slot_sum_append)

lemma reserve_ok:
  assumes ok: "cat_ok c"
    and run: "yvex_runtime_resource_catalog_reserve sb cb l a wanted mx c = (Inr retained, c')"
  shows "cat_ok c'"
  using reserve_success [OF run]
proof
  assume "c' = c"
  then show ?thesis using ok by simp
next
  assume "capacity (cat_summary c) < wanted \<and> wanted \<le> 1024 \<and>
    c' = c\<lparr>slots := take (unat (capacity (cat_summary c))) (slots c) @
          replicate (unat wanted - unat (capacity (cat_summary c))) zero_slot,
        cat_summary := (cat_summary c)\<lparr>generation := generation (cat_summary c) +
          (if capacity (cat_summary c) \<noteq> 0 then 1 else 0), capacity := wanted\<rparr>\<rparr>"
  moreover have len: "length (slots c) = unat (capacity (cat_summary c))"
    using ok by (simp add: cat_ok_def slots_ok_def)
  ultimately obtain g where w: "unat (capacity (cat_summary c)) < unat wanted" "unat wanted \<le> 1024"
    and c': "c' = c\<lparr>slots := slots c @ replicate (unat wanted - unat (capacity (cat_summary c))) zero_slot,
        cat_summary := (cat_summary c)\<lparr>generation := g, capacity := wanted\<rparr>\<rparr>"
    by (simp add: word_less_nat_alt word_le_nat_alt)
  note g = grown_live [OF len c']
  have "slots_ok c'"
    using ok w len g(1,2) unfolding cat_ok_def slots_ok_def by (simp add: c')
  moreover have "metered c'"
    using ok unfolding cat_ok_def metered_iff meter_def g(4) by (simp add: c')
  moreover have "links_ok c'"
    using ok g(1,2) unfolding cat_ok_def links_ok_def link_ok_def g(3) by metis
  ultimately show ?thesis by (simp add: cat_ok_def)
qed

section \<open>Interleaved clients\<close>

text \<open>
  The catalog with what its clients hold: releases between their two critical sections, outstanding
  borrows, and the logs of issued and removed handles.
\<close>

record resource_system =
  rs_catalog :: yvex_engine_resource_catalog
  rs_in_flight :: "(yvex_engine_resource_handle \<times> bool) list"
  rs_borrowed :: "yvex_engine_resource_handle list"
  rs_issued :: "yvex_engine_resource_handle list"
  rs_removed :: "yvex_engine_resource_handle list"

inductive resource_init :: "resource_system \<Rightarrow> bool" where
  "yvex_runtime_resource_catalog_open sb cb True True True engine identity wanted = Inr c \<Longrightarrow>
   resource_init \<lparr>rs_catalog = c, rs_in_flight = [], rs_borrowed = [], rs_issued = [], rs_removed = []\<rparr>"

inductive resource_step :: "resource_system \<Rightarrow> resource_system \<Rightarrow> bool" where
  step_register:
  "yvex_runtime_resource_register l request (rs_catalog s) = (Inr h, c) \<Longrightarrow>
   resource_step s (s\<lparr>rs_catalog := c, rs_issued := rs_issued s @ [h]\<rparr>)"
| step_publish_ready:
  "yvex_runtime_resource_publish_ready l h (rs_catalog s) = (Inr u, c) \<Longrightarrow>
   resource_step s (s\<lparr>rs_catalog := c\<rparr>)"
| step_acquire:
  "yvex_runtime_resource_acquire l h (rs_catalog s) = (Inr v, c) \<Longrightarrow>
   resource_step s (s\<lparr>rs_catalog := c, rs_borrowed := h # rs_borrowed s\<rparr>)"
| step_drop:
  "yvex_runtime_resource_drop l h (rs_catalog s) = (Inr u, c) \<Longrightarrow>
   resource_step s (s\<lparr>rs_catalog := c, rs_borrowed := remove1 h (rs_borrowed s)\<rparr>)"
| step_release_begin:
  "resource_release_begin l h ev (rs_catalog s) = (Inr callback, c) \<Longrightarrow>
   resource_step s (s\<lparr>rs_catalog := c, rs_in_flight := (h, ev) # rs_in_flight s\<rparr>)"
| step_release_finish:
  "(h, ev) \<in> set (rs_in_flight s) \<Longrightarrow>
   resource_release_finish l h ev rc cause (rs_catalog s) = (r, c) \<Longrightarrow>
   resource_step s (s\<lparr>rs_catalog := c, rs_in_flight := remove1 (h, ev) (rs_in_flight s),
     rs_removed := (if r = Inr () then h # rs_removed s else rs_removed s)\<rparr>)"
| step_reserve:
  "yvex_runtime_resource_catalog_reserve sb cb l a wanted mx (rs_catalog s) = (Inr retained, c) \<Longrightarrow>
   resource_step s (s\<lparr>rs_catalog := c\<rparr>)"
| step_closing:
  "resource_step s (s\<lparr>rs_catalog := update_summary (\<lambda>m. m\<lparr>closing := True\<rparr>) (rs_catalog s)\<rparr>)"

definition borrow_inv :: "yvex_engine_resource_catalog \<Rightarrow> yvex_engine_resource_handle list \<Rightarrow> bool" where
  "borrow_inv c borrowed \<longleftrightarrow>
     (\<forall>i. live c i \<longrightarrow>
        unat (consumer_count (entry_at c i)) = count_list borrowed (ent_handle (entry_at c i))) \<and>
     (\<forall>h \<in> set borrowed. \<exists>i. live c i \<and> ent_handle (entry_at c i) = h)"

definition flight_inv ::
  "yvex_engine_resource_catalog \<Rightarrow> (yvex_engine_resource_handle \<times> bool) list \<Rightarrow> bool" where
  "flight_inv c flights \<longleftrightarrow> distinct (map fst flights) \<and>
     (\<forall>h \<in> fst ` set flights. \<exists>i. live c i \<and> ent_handle (entry_at c i) = h \<and>
        ent_state (entry_at c i) = YVEX_ENGINE_RESOURCE_RELEASING)"

text \<open>
  Generations identify registrations as long as the 64-bit counter has not wrapped; a dependency is
  older than its dependent.
\<close>

definition generation_inv ::
  "yvex_engine_resource_catalog \<Rightarrow> yvex_engine_resource_handle list \<Rightarrow>
   yvex_engine_resource_handle list \<Rightarrow> bool" where
  "generation_inv c issued removed \<longleftrightarrow>
     (length issued < 2 ^ 64 \<longrightarrow>
        unat (next_generation c) = length issued \<and>
        (\<forall>h \<in> set issued. unat (h_generation h) \<le> length issued) \<and>
        set removed \<subseteq> set issued \<and>
        (\<forall>i. live c i \<longrightarrow> ent_handle (entry_at c i) \<in> set issued \<and>
           ent_handle (entry_at c i) \<notin> set removed \<and>
           (handle_present (ent_dependency (entry_at c i)) \<longrightarrow>
              unat (h_generation (ent_dependency (entry_at c i))) <
              unat (h_generation (ent_handle (entry_at c i))))))"

definition resource_inv :: "resource_system \<Rightarrow> bool" where
  "resource_inv s \<longleftrightarrow> cat_ok (rs_catalog s) \<and> borrow_inv (rs_catalog s) (rs_borrowed s) \<and>
     flight_inv (rs_catalog s) (rs_in_flight s) \<and>
     generation_inv (rs_catalog s) (rs_issued s) (rs_removed s)"

text \<open>Two catalogs with the same live resources.\<close>

definition same_resources :: "yvex_engine_resource_catalog \<Rightarrow> yvex_engine_resource_catalog \<Rightarrow> bool" where
  "same_resources c c' \<longleftrightarrow> next_generation c' = next_generation c \<and> (\<forall>j. live c' j = live c j) \<and>
     (\<forall>j. live c j \<longrightarrow> ent_handle (entry_at c' j) = ent_handle (entry_at c j) \<and>
        ent_dependency (entry_at c' j) = ent_dependency (entry_at c j))"

lemma same_resources_touch:
  "live c i \<Longrightarrow> keeps_identity f \<Longrightarrow> same_resources c (update_summary F (update_entry i f c))"
  "live c i \<Longrightarrow> keeps_identity f \<Longrightarrow> same_resources c (update_entry i f c)"
  "same_resources c (update_summary F c)"
  using handle_update_entry [of i c f] by (simp_all add: same_resources_def live_def [of c i])

lemma generation_inv_same:
  "same_resources c c' \<Longrightarrow> generation_inv c issued removed \<Longrightarrow> generation_inv c' issued removed"
  unfolding same_resources_def generation_inv_def by simp

lemma borrow_inv_same:
  assumes "same_resources c c'" "borrow_inv c b"
    and "\<And>j. live c j \<Longrightarrow> consumer_count (entry_at c' j) = consumer_count (entry_at c j)"
  shows "borrow_inv c' b"
  using assms unfolding same_resources_def borrow_inv_def by metis

lemma borrow_inv_change:
  assumes same: "same_resources c c'" and inv: "borrow_inv c b"
    and h: "live c i" "ent_handle (entry_at c i) = h" and sub: "set b' \<subseteq> insert h (set b)"
    and cnt: "\<And>j. live c j \<Longrightarrow>
      unat (consumer_count (entry_at c' j)) = count_list b' (ent_handle (entry_at c j))"
  shows "borrow_inv c' b'"
proof -
  have "\<exists>j. live c j \<and> ent_handle (entry_at c j) = k" if "k \<in> set b'" for k
    using that sub h inv by (auto simp: borrow_inv_def)
  then show ?thesis using same cnt unfolding same_resources_def borrow_inv_def by metis
qed

lemma flight_inv_same:
  assumes "same_resources c c'" "flight_inv c fl"
    and "\<And>j. live c j \<Longrightarrow> ent_state (entry_at c j) = YVEX_ENGINE_RESOURCE_RELEASING \<Longrightarrow>
      ent_state (entry_at c' j) = YVEX_ENGINE_RESOURCE_RELEASING"
  shows "flight_inv c' fl"
  using assms unfolding same_resources_def flight_inv_def by metis

section \<open>Preservation\<close>

lemma inv_acquire:
  assumes inv: "resource_inv s" and run: "yvex_runtime_resource_acquire l h (rs_catalog s) = (Inr v, c)"
  shows "resource_inv (s\<lparr>rs_catalog := c, rs_borrowed := h # rs_borrowed s\<rparr>)"
proof -
  let ?c = "rs_catalog s"
  let ?f = "\<lambda>e. e\<lparr>consumer_count := consumer_count e + 1, acquisition_count := acquisition_count e + 1\<rparr>"
  have ok: "cat_ok ?c" using inv by (simp add: resource_inv_def)
  then have sok: "slots_ok ?c" by (simp add: cat_ok_def)
  obtain i where i: "live ?c i" "ent_handle (entry_at ?c i) = h"
    "consumer_count (entry_at ?c i) \<noteq> ULLONG_MAX"
    and c: "c = update_summary (\<lambda>s. s\<lparr>total_acquisition_count := total_acquisition_count s + 1\<rparr>)
      (update_entry i ?f ?c)"
    using acquire_success [OF run] sok by (auto simp: slot_locked_iff)
  have len: "i < length (slots ?c)" using i(1) by (simp add: live_def)
  have at: "entry_at c j = (if j = i then ?f (entry_at ?c i) else entry_at ?c j)" for j
    by (simp add: c entry_at_update_entry [OF len])
  have same: "same_resources ?c c" unfolding c by (rule same_resources_touch(1)) (simp_all add: i)
  have other: "h = ent_handle (entry_at ?c j) \<longleftrightarrow> j = i" if "live ?c j" for j
    using live_inject [OF sok that i(1)] i(2) by auto
  have "unat (consumer_count (entry_at ?c i) + 1) = unat (consumer_count (entry_at ?c i)) + 1"
    by (rule unat_inc [OF i(3)])
  then have "unat (consumer_count (entry_at c j)) = count_list (h # rs_borrowed s) (ent_handle (entry_at ?c j))"
    if "live ?c j" for j
    using inv that other [OF that] by (cases "j = i") (simp_all add: resource_inv_def borrow_inv_def at)
  then have "borrow_inv c (h # rs_borrowed s)"
    using inv by (intro borrow_inv_change [OF same _ i(1,2)]) (auto simp: resource_inv_def)
  moreover have "flight_inv c (rs_in_flight s)"
    using inv by (intro flight_inv_same [OF same]) (auto simp: resource_inv_def at)
  ultimately show ?thesis
    using inv acquire_ok [OF ok run] generation_inv_same [OF same] by (simp add: resource_inv_def)
qed

lemma inv_drop:
  assumes inv: "resource_inv s" and run: "yvex_runtime_resource_drop l h (rs_catalog s) = (Inr u, c)"
  shows "resource_inv (s\<lparr>rs_catalog := c, rs_borrowed := remove1 h (rs_borrowed s)\<rparr>)"
proof -
  let ?c = "rs_catalog s"
  let ?f = "\<lambda>e. e\<lparr>consumer_count := consumer_count e - 1\<rparr>"
  have ok: "cat_ok ?c" using inv by (simp add: resource_inv_def)
  then have sok: "slots_ok ?c" by (simp add: cat_ok_def)
  obtain i where i: "live ?c i" "ent_handle (entry_at ?c i) = h" "consumer_count (entry_at ?c i) \<noteq> 0"
    and c: "c = update_entry i ?f ?c"
    using drop_success [OF run] sok by (auto simp: slot_locked_iff)
  have len: "i < length (slots ?c)" using i(1) by (simp add: live_def)
  have at: "entry_at c j = (if j = i then ?f (entry_at ?c i) else entry_at ?c j)" for j
    by (simp add: c entry_at_update_entry [OF len])
  have same: "same_resources ?c c" unfolding c by (rule same_resources_touch(2)) (simp_all add: i)
  have remove: "count_list (remove1 h xs) k = count_list xs k - of_bool (k = h)" for xs k
    by (induction xs) auto
  have other: "h = ent_handle (entry_at ?c j) \<longleftrightarrow> j = i" if "live ?c j" for j
    using live_inject [OF sok that i(1)] i(2) by auto
  have "unat (consumer_count (entry_at ?c i) - 1) = unat (consumer_count (entry_at ?c i)) - 1"
    by (rule unat_dec [OF i(3)])
  then have "unat (consumer_count (entry_at c j)) =
      count_list (remove1 h (rs_borrowed s)) (ent_handle (entry_at ?c j))" if "live ?c j" for j
    using inv that other [OF that]
    by (cases "j = i") (auto simp: resource_inv_def borrow_inv_def at remove)
  then have "borrow_inv c (remove1 h (rs_borrowed s))"
    using inv set_remove1_subset [of h "rs_borrowed s"]
    by (intro borrow_inv_change [OF same _ i(1,2)]) (auto simp: resource_inv_def)
  moreover have "flight_inv c (rs_in_flight s)"
    using inv by (intro flight_inv_same [OF same]) (auto simp: resource_inv_def at)
  ultimately show ?thesis
    using inv drop_ok [OF ok run] generation_inv_same [OF same] by (simp add: resource_inv_def)
qed

lemma inv_publish:
  assumes inv: "resource_inv s" and run: "yvex_runtime_resource_publish_ready l h (rs_catalog s) = (Inr u, c)"
  shows "resource_inv (s\<lparr>rs_catalog := c\<rparr>)"
proof -
  let ?c = "rs_catalog s"
  have ok: "cat_ok ?c" using inv by (simp add: resource_inv_def)
  obtain i where i: "live ?c i" "ent_state (entry_at ?c i) = YVEX_ENGINE_RESOURCE_DECLARED"
    and c: "c = update_summary (\<lambda>s. s\<lparr>ready_count := ready_count s + 1, generation := generation s + 1\<rparr>)
      (update_entry i (\<lambda>e. e\<lparr>ent_state := YVEX_ENGINE_RESOURCE_READY\<rparr>) ?c)"
    using publish_success [OF run] ok by (auto simp: cat_ok_def slot_locked_iff)
  have len: "i < length (slots ?c)" using i(1) by (simp add: live_def)
  have same: "same_resources ?c c" unfolding c by (rule same_resources_touch(1)) (simp_all add: i)
  have "borrow_inv c (rs_borrowed s)"
    using inv by (intro borrow_inv_same [OF same]) (auto simp: resource_inv_def c entry_at_update_entry [OF len])
  moreover have "flight_inv c (rs_in_flight s)"
    using inv i(2)
    by (intro flight_inv_same [OF same]) (auto simp: resource_inv_def c entry_at_update_entry [OF len])
  ultimately show ?thesis
    using inv publish_ok [OF ok run] generation_inv_same [OF same] by (simp add: resource_inv_def)
qed

lemma inv_release_begin:
  assumes inv: "resource_inv s" and run: "resource_release_begin l h ev (rs_catalog s) = (Inr cb, c)"
  shows "resource_inv (s\<lparr>rs_catalog := c, rs_in_flight := (h, ev) # rs_in_flight s\<rparr>)"
proof -
  let ?c = "rs_catalog s"
  have ok: "cat_ok ?c" using inv by (simp add: resource_inv_def)
  obtain i F where i: "live ?c i" "ent_handle (entry_at ?c i) = h"
    "ent_state (entry_at ?c i) \<noteq> YVEX_ENGINE_RESOURCE_RELEASING"
    and c: "c = update_summary F (update_entry i (\<lambda>e. e\<lparr>ent_state := YVEX_ENGINE_RESOURCE_RELEASING\<rparr>) ?c)"
    using release_begin_success [OF run] ok unfolding update_entry_summary_commute
    by (auto simp: cat_ok_def slot_locked_iff)
  have len: "i < length (slots ?c)" using i(1) by (simp add: live_def)
  have at: "entry_at c j = (if j = i then (entry_at ?c i)\<lparr>ent_state := YVEX_ENGINE_RESOURCE_RELEASING\<rparr>
      else entry_at ?c j)" for j
    by (simp add: c entry_at_update_entry [OF len])
  have same: "same_resources ?c c" unfolding c by (rule same_resources_touch(1)) (simp_all add: i)
  have fl: "flight_inv ?c (rs_in_flight s)" using inv by (simp add: resource_inv_def)
  have "h \<notin> fst ` set (rs_in_flight s)"
  proof
    assume "h \<in> fst ` set (rs_in_flight s)"
    then obtain k where "live ?c k" "ent_handle (entry_at ?c k) = h"
      "ent_state (entry_at ?c k) = YVEX_ENGINE_RESOURCE_RELEASING"
      using fl by (auto simp: flight_inv_def)
    then show False using i ok live_inject [of ?c k i] by (auto simp: cat_ok_def)
  qed
  moreover have "flight_inv c (rs_in_flight s)"
    using fl by (intro flight_inv_same [OF same]) (auto simp: at)
  moreover have "live c i \<and> ent_handle (entry_at c i) = h \<and>
      ent_state (entry_at c i) = YVEX_ENGINE_RESOURCE_RELEASING"
    using i same by (simp add: at same_resources_def)
  ultimately have "flight_inv c ((h, ev) # rs_in_flight s)" by (auto simp: flight_inv_def)
  moreover have "borrow_inv c (rs_borrowed s)"
    using inv by (intro borrow_inv_same [OF same]) (auto simp: resource_inv_def at)
  ultimately show ?thesis
    using inv release_begin_ok [OF ok run] generation_inv_same [OF same] by (simp add: resource_inv_def)
qed

lemma flights_remove:
  assumes "distinct (map fst fl)" "x \<in> set fl"
  shows "distinct (map fst (remove1 x fl))" "fst ` set (remove1 x fl) = fst ` set fl - {fst x}"
  using assms by (induction fl) (auto simp: image_iff)

lemma inv_release_finish:
  assumes inv: "resource_inv s" and fl: "(h, ev) \<in> set (rs_in_flight s)"
    and run: "resource_release_finish l h ev rc cause (rs_catalog s) = (r, c)"
  shows "resource_inv (s\<lparr>rs_catalog := c, rs_in_flight := remove1 (h, ev) (rs_in_flight s),
     rs_removed := (if r = Inr () then h # rs_removed s else rs_removed s)\<rparr>)"
proof -
  let ?c = "rs_catalog s" and ?fl = "remove1 (h, ev) (rs_in_flight s)"
  have ok: "cat_ok ?c" and fi: "flight_inv ?c (rs_in_flight s)" and b: "borrow_inv ?c (rs_borrowed s)"
    and gen: "generation_inv ?c (rs_issued s) (rs_removed s)"
    using inv by (simp_all add: resource_inv_def)
  have sok: "slots_ok ?c" using ok by (simp add: cat_ok_def)
  have rest: "distinct (map fst ?fl)" "fst ` set ?fl = fst ` set (rs_in_flight s) - {h}"
    using flights_remove [of "rs_in_flight s" "(h, ev)"] fi fl by (simp_all add: flight_inv_def)
  obtain i where i: "live ?c i" "ent_handle (entry_at ?c i) = h"
    and st: "ent_state (entry_at ?c i) = YVEX_ENGINE_RESOURCE_RELEASING"
    using fi fl by (force simp: flight_inv_def)
  then have found: "resource_slot_locked ?c h = Some i" using slot_locked_iff [OF sok] by simp
  have free: "dependent_count (entry_at ?c i) = 0" "consumer_count (entry_at ?c i) = 0"
    using ok i(1) st by (auto simp: cat_ok_def links_ok_def link_ok_def)
  have other: "ent_handle (entry_at ?c j) \<noteq> h" if "live ?c j" "j \<noteq> i" for j
    using live_inject [OF sok that(1) i(1)] that(2) i(2) by simp
  consider (lost) "\<not> l" "c = ?c" "r \<noteq> Inr ()"
    | (gone) "c = resource_remove_locked i ev ?c" "r = Inr ()"
    | (failed) "r \<noteq> Inr ()" "c = update_summary (\<lambda>s. s\<lparr>failed_count := failed_count s + 1,
         failed_release_count := failed_release_count s + 1\<rparr>)
       (update_entry i (\<lambda>e. e\<lparr>ent_state := YVEX_ENGINE_RESOURCE_FAILED\<rparr>) ?c)"
    using run found by (auto simp: resource_release_finish_def update_entry_summary_commute split: if_splits)
  then show ?thesis
  proof cases
    case lost
    then show ?thesis using inv rest by (auto simp: resource_inv_def flight_inv_def)
  next
    case gone
    note rl = remove_live [OF ok i(1) free(1), where ev = ev]
    have at: "ent_handle (entry_at c j) = ent_handle (entry_at ?c j) \<and>
        ent_dependency (entry_at c j) = ent_dependency (entry_at ?c j) \<and>
        ent_state (entry_at c j) = ent_state (entry_at ?c j) \<and>
        consumer_count (entry_at c j) = consumer_count (entry_at ?c j)" if "j \<noteq> i" for j
      using rl(2) [OF that] gone(1) by auto
    have lv: "live c j \<longleftrightarrow> live ?c j \<and> j \<noteq> i" for j using rl(1) gone(1) by simp
    have "h \<notin> set (rs_borrowed s)"
      using b i free(2) by (auto simp: borrow_inv_def count_list_0_iff)
    then have "borrow_inv c (rs_borrowed s)"
      using b at lv i(2) unfolding borrow_inv_def by metis
    moreover have "flight_inv c ?fl"
      using fi rest at lv i(2) unfolding flight_inv_def by (metis DiffD1 DiffD2 singletonI)
    moreover have "generation_inv c (rs_issued s) (h # rs_removed s)"
      using gen at lv i other rl(3) unfolding generation_inv_def gone(1) [symmetric] by auto
    ultimately show ?thesis
      using gone remove_ok [OF ok i(1) free(1)] by (simp add: resource_inv_def)
  next
    case failed
    have len: "i < length (slots ?c)" using i(1) by (simp add: live_def)
    have at: "entry_at c j = (if j = i then (entry_at ?c i)\<lparr>ent_state := YVEX_ENGINE_RESOURCE_FAILED\<rparr>
        else entry_at ?c j)" for j
      by (simp add: failed entry_at_update_entry [OF len])
    have same: "same_resources ?c c" unfolding failed by (rule same_resources_touch(1)) (simp_all add: i)
    have "flight_inv c ?fl"
      using fi rest at i(2) same unfolding flight_inv_def same_resources_def by (metis DiffD1 DiffD2 singletonI)
    moreover have "borrow_inv c (rs_borrowed s)" using b by (intro borrow_inv_same [OF same]) (simp_all add: at)
    ultimately show ?thesis
      using failed release_failed_ok [OF ok i(1) st] generation_inv_same [OF same gen]
      by (simp add: resource_inv_def update_entry_summary_commute)
  qed
qed

text \<open>What a registration changes, but for the counts of dependents.\<close>

lemma registered_view:
  assumes r: "register_ready i d request c"
    and c': "c' = update_summary F (link_dependency d (filled i request c))"
  shows "live c' j \<longleftrightarrow> j = i \<or> live c j" "next_generation c' = fresh_generation c"
    "\<exists>n. entry_at c' j = (if j = i then slot_summary (registered_slot request (fresh_handle c i))
       else entry_at c j)\<lparr>dependent_count := n\<rparr>"
proof -
  define c1 where "c1 = filled i request c"
  have i: "i < length (slots c)" using r by (simp add: register_ready_def)
  have c1: "live c1 j \<longleftrightarrow> j = i \<or> live c j" "next_generation c1 = fresh_generation c"
    "entry_at c1 j = (if j = i then slot_summary (registered_slot request (fresh_handle c i)) else entry_at c j)"
    for j
    by (simp_all add: c1_def live_filled [OF i] entry_at_filled [OF i])
  have link: "live (link_dependency d c1) j = live c1 j"
    "next_generation (link_dependency d c1) = next_generation c1" for j
    by (cases d; simp add: link_dependency_def)+
  have "\<exists>n. entry_at (link_dependency d c1) j = (entry_at c1 j)\<lparr>dependent_count := n\<rparr>"
  proof (cases d)
    case None
    then show ?thesis
      by (intro exI [of _ "dependent_count (entry_at c1 j)"]) (simp add: link_dependency_def)
  next
    case (Some k)
    then have "live c1 k" using r by (simp add: c1(1) register_ready_def)
    then have k: "k < length (slots c1)" by (simp add: live_def)
    show ?thesis
      using Some
      by (intro exI [of _ "dependent_count (entry_at c1 j) + of_bool (j = k)"])
        (simp add: link_dependency_def entry_at_update_entry [OF k])
  qed
  then show "\<exists>n. entry_at c' j = (if j = i then slot_summary (registered_slot request (fresh_handle c i))
       else entry_at c j)\<lparr>dependent_count := n\<rparr>"
    by (simp only: c' update_summary_simps c1_def [symmetric] c1(3))
  show "live c' j \<longleftrightarrow> j = i \<or> live c j" "next_generation c' = fresh_generation c"
    by (simp_all only: c' update_summary_simps c1_def [symmetric] link c1)
qed

lemma generation_inv_register:
  assumes r: "register_ready i d request c" and gen: "generation_inv c issued removed"
    and c': "c' = update_summary F (link_dependency d (filled i request c))"
  shows "generation_inv c' (issued @ [fresh_handle c i]) removed"
  unfolding generation_inv_def
proof (intro impI)
  let ?h = "fresh_handle c i"
  assume bound: "length (issued @ [?h]) < 2 ^ 64"
  note view = registered_view [OF r c']
  have next': "unat (next_generation c) = length issued"
    and le: "\<And>h. h \<in> set issued \<Longrightarrow> unat (h_generation h) \<le> length issued"
    and sub: "set removed \<subseteq> set issued"
    and old: "\<And>j. live c j \<Longrightarrow> ent_handle (entry_at c j) \<in> set issued \<and>
      ent_handle (entry_at c j) \<notin> set removed \<and> (handle_present (ent_dependency (entry_at c j)) \<longrightarrow>
        unat (h_generation (ent_dependency (entry_at c j))) < unat (h_generation (ent_handle (entry_at c j))))"
    using gen bound by (auto simp: generation_inv_def)
  have g: "unat (fresh_generation c) = length issued + 1"
  proof -
    have "unat (next_generation c + 1) = length issued + 1"
      using next' bound by (simp add: unat_word_ariths)
    then show ?thesis by (auto simp: fresh_generation_def)
  qed
  have new: "?h \<notin> set removed" using le [of ?h] sub g by auto
  have young: "unat (h_generation (req_dependency request)) < length issued + 1"
    if "handle_present (req_dependency request)"
    using r that old le by (fastforce simp: register_ready_def less_Suc_eq_le split: option.splits)
  have entries: "ent_handle (entry_at c' j) \<in> insert ?h (set issued) \<and> ent_handle (entry_at c' j) \<notin> set removed \<and>
      (handle_present (ent_dependency (entry_at c' j)) \<longrightarrow>
        unat (h_generation (ent_dependency (entry_at c' j))) < unat (h_generation (ent_handle (entry_at c' j))))"
    if "live c' j" for j
    using view(3) [of j] that new young old [of j] g by (cases "j = i") (auto simp: view(1))
  show "unat (next_generation c') = length (issued @ [?h]) \<and>
      (\<forall>h \<in> set (issued @ [?h]). unat (h_generation h) \<le> length (issued @ [?h])) \<and>
      set removed \<subseteq> set (issued @ [?h]) \<and>
      (\<forall>j. live c' j \<longrightarrow> ent_handle (entry_at c' j) \<in> set (issued @ [?h]) \<and>
         ent_handle (entry_at c' j) \<notin> set removed \<and>
         (handle_present (ent_dependency (entry_at c' j)) \<longrightarrow>
            unat (h_generation (ent_dependency (entry_at c' j))) <
            unat (h_generation (ent_handle (entry_at c' j)))))"
    using view(2) g le sub entries by (force simp: le_SucI)
qed

lemma inv_register:
  assumes inv: "resource_inv s" and run: "yvex_runtime_resource_register l request (rs_catalog s) = (Inr h, c)"
  shows "resource_inv (s\<lparr>rs_catalog := c, rs_issued := rs_issued s @ [h]\<rparr>)"
proof -
  let ?c = "rs_catalog s"
  have ok: "cat_ok ?c" and fi: "flight_inv ?c (rs_in_flight s)" and b: "borrow_inv ?c (rs_borrowed s)"
    and gen: "generation_inv ?c (rs_issued s) (rs_removed s)"
    using inv by (simp_all add: resource_inv_def)
  have sok: "slots_ok ?c" using ok by (simp add: cat_ok_def)
  obtain i d totals p where i: "i < unat (capacity (cat_summary ?c))" "\<not> in_use (slots ?c ! i)"
    and h: "h = fresh_handle ?c i"
    and d: "if handle_present (req_dependency request)
     then \<exists>k. d = Some k \<and> resource_slot_locked ?c (req_dependency request) = Some k \<and>
       ent_state (entry_at ?c k) = YVEX_ENGINE_RESOURCE_READY else d = None"
    and totals: "resource_bytes_add (total_bytes (cat_summary ?c)) (req_bytes request) = Some totals"
    and c: "c = update_summary (registration_summary request totals p)
      (link_dependency d (filled i request ?c))"
    using register_success [OF run] by blast
  have r: "register_ready i d request ?c"
    using ok i d sok by (auto simp: register_ready_def slots_ok_def slot_locked_iff [OF sok] split: if_splits)
  note view = registered_view [OF r c]
  have at: "ent_handle (entry_at c j) = ent_handle (entry_at ?c j) \<and>
      consumer_count (entry_at c j) = consumer_count (entry_at ?c j) \<and>
      ent_state (entry_at c j) = ent_state (entry_at ?c j)" if "j \<noteq> i" for j
    using view(3) [of j] that by auto
  have new: "ent_handle (entry_at c i) = h" "consumer_count (entry_at c i) = 0"
    using view(3) [of i] h by auto
  have free: "\<not> live ?c i" using i by (simp add: live_def)
  have "h \<notin> set (rs_borrowed s)"
    using b fresh_handle_unused(1) [OF r] by (auto simp: borrow_inv_def h)
  then have "unat (consumer_count (entry_at c j)) = count_list (rs_borrowed s) (ent_handle (entry_at c j))"
    if "live c j" for j
    using that b at [of j] new by (cases "j = i") (auto simp: view(1) borrow_inv_def count_list_0_iff)
  moreover have "\<exists>j. live c j \<and> ent_handle (entry_at c j) = k" if "k \<in> set (rs_borrowed s)" for k
    using b that free at view(1) unfolding borrow_inv_def by metis
  ultimately have "borrow_inv c (rs_borrowed s)" by (simp add: borrow_inv_def)
  moreover have "flight_inv c (rs_in_flight s)"
    using fi free at view(1) unfolding flight_inv_def by metis
  moreover have "cat_ok c" unfolding c by (rule register_ok [OF r totals])
  ultimately show ?thesis
    using generation_inv_register [OF r gen c] by (simp add: resource_inv_def h)
qed

lemma inv_reserve:
  assumes inv: "resource_inv s"
    and run: "yvex_runtime_resource_catalog_reserve sb cb l a wanted mx (rs_catalog s) = (Inr retained, c)"
  shows "resource_inv (s\<lparr>rs_catalog := c\<rparr>)"
  using reserve_success [OF run]
proof
  assume "c = rs_catalog s"
  then show ?thesis using inv by simp
next
  let ?c = "rs_catalog s"
  have ok: "cat_ok ?c" and b: "borrow_inv ?c (rs_borrowed s)" and fi: "flight_inv ?c (rs_in_flight s)"
    and gen: "generation_inv ?c (rs_issued s) (rs_removed s)"
    using inv by (simp_all add: resource_inv_def)
  have len: "length (slots ?c) = unat (capacity (cat_summary ?c))" using ok by (simp add: cat_ok_def slots_ok_def)
  assume "capacity (cat_summary ?c) < wanted \<and> wanted \<le> 1024 \<and>
    c = ?c\<lparr>slots := take (unat (capacity (cat_summary ?c))) (slots ?c) @
          replicate (unat wanted - unat (capacity (cat_summary ?c))) zero_slot,
        cat_summary := (cat_summary ?c)\<lparr>generation := generation (cat_summary ?c) +
          (if capacity (cat_summary ?c) \<noteq> 0 then 1 else 0), capacity := wanted\<rparr>\<rparr>"
  then obtain k sm where c: "c = ?c\<lparr>slots := slots ?c @ replicate k zero_slot, cat_summary := sm\<rparr>"
    using len by auto
  note g = grown_live [OF len c]
  have same: "same_resources ?c c" using g(1,2) by (simp add: same_resources_def) (simp add: c)
  show ?thesis
    using reserve_ok [OF ok run] generation_inv_same [OF same gen] borrow_inv_same [OF same b]
      flight_inv_same [OF same fi] g(2)
    by (simp add: resource_inv_def)
qed

lemma inv_closing:
  assumes "resource_inv s"
  shows "resource_inv (s\<lparr>rs_catalog := update_summary (\<lambda>m. m\<lparr>closing := True\<rparr>) (rs_catalog s)\<rparr>)"
proof -
  let ?c' = "update_summary (\<lambda>m. m\<lparr>closing := True\<rparr>) (rs_catalog s)"
  have same: "same_resources (rs_catalog s) ?c'" by (rule same_resources_touch(3))
  have "cat_ok ?c'"
    using assms unfolding resource_inv_def cat_ok_def
    by (auto intro!: slots_ok_update_summary metered_update_summary)
  then show ?thesis
    using assms generation_inv_same [OF same] borrow_inv_same [OF same] flight_inv_same [OF same]
    by (simp add: resource_inv_def)
qed

lemma inv_init:
  assumes "yvex_runtime_resource_catalog_open sb cb True True True engine identity wanted = Inr c"
  shows "resource_inv \<lparr>rs_catalog = c, rs_in_flight = [], rs_borrowed = [], rs_issued = [], rs_removed = []\<rparr>"
proof -
  obtain retained c0 where engine: "engine \<noteq> 0"
    and run: "yvex_runtime_resource_catalog_reserve sb cb True True wanted 0 (catalog_zero engine) = (Inr retained, c0)"
    and c: "c = update_summary (\<lambda>s. s\<lparr>engine_identity := the (yvex_core_text_copy (Some []) 65 identity)\<rparr>) c0"
    using assms
    by (auto simp: yvex_runtime_resource_catalog_open_def split: if_splits prod.splits sum.splits)
  let ?z = "\<lparr>rs_catalog = catalog_zero engine, rs_in_flight = [], rs_borrowed = [], rs_issued = [], rs_removed = []\<rparr>"
  have none: "\<not> live (catalog_zero engine) i" for i by (simp add: live_def catalog_zero_def)
  have "cat_ok (catalog_zero engine)"
    using engine none unfolding cat_ok_def slots_ok_def links_ok_def metered_iff meter_def
    by (auto simp: catalog_zero_def slot_sum_def bytes_fields_def zero_bytes_def)
  then have "resource_inv ?z"
    using none by (simp add: resource_inv_def borrow_inv_def flight_inv_def generation_inv_def)
      (simp add: catalog_zero_def)
  from inv_reserve [OF this, of sb cb True True wanted 0 retained c0] run
  have inv: "resource_inv (?z\<lparr>rs_catalog := c0\<rparr>)" by simp
  then have "cat_ok c"
    unfolding c resource_inv_def cat_ok_def by (auto intro!: slots_ok_update_summary metered_update_summary)
  moreover have same: "same_resources c0 c" unfolding c by (rule same_resources_touch(3))
  ultimately show ?thesis
    using inv generation_inv_same [OF same] borrow_inv_same [OF same] flight_inv_same [OF same]
    by (simp add: resource_inv_def c)
qed

interpretation resource_machine: invariant_system resource_init resource_step resource_inv
proof
  show "resource_inv s" if "resource_init s" for s
    using that by cases (auto intro: inv_init)
  show "resource_inv s'" if "resource_inv s" "resource_step s s'" for s s'
    using that(2,1)
    by cases (simp_all add: inv_register inv_publish inv_acquire inv_drop inv_release_begin
        inv_release_finish inv_reserve inv_closing)
qed

section \<open>Closing\<close>

text \<open>What a successful release leaves.\<close>

lemma release_success:
  assumes ok: "cat_ok c" and run: "resource_release l1 l2 callback h ev c = (Inr u, c')"
  obtains i where "live c i" "ent_handle (entry_at c i) = h" "cat_ok c'"
    "unat (resource_count (cat_summary c')) + 1 = unat (resource_count (cat_summary c))"
    "\<And>j. live c' j \<longleftrightarrow> live c j \<and> j \<noteq> i"
    "\<And>j. j \<noteq> i \<Longrightarrow> \<exists>n. entry_at c' j = (entry_at c j)\<lparr>dependent_count := n\<rparr>"
    "cat_mutex_ready c' = cat_mutex_ready c"
proof -
  obtain cb c1 rc cause where b: "resource_release_begin l1 h ev c = (Inr cb, c1)"
    and f: "resource_release_finish l2 h ev rc cause c1 = (Inr u, c')"
    using run by (fastforce simp: resource_release_def Let_def split: prod.splits sum.splits if_splits)
  obtain i F where i: "live c i" "ent_handle (entry_at c i) = h" "dependent_count (entry_at c i) = 0"
    and c1: "c1 = update_summary F (update_entry i (\<lambda>e. e\<lparr>ent_state := YVEX_ENGINE_RESOURCE_RELEASING\<rparr>) c)"
    and F: "resource_count (F (cat_summary c)) = resource_count (cat_summary c)"
    using release_begin_success [OF b] ok unfolding update_entry_summary_commute
    by (auto simp: cat_ok_def slot_locked_iff)
  have ok1: "cat_ok c1" by (rule release_begin_ok [OF ok b])
  have len: "i < length (slots c)" using i(1) by (simp add: live_def)
  have at: "entry_at c1 j = (if j = i then (entry_at c i)\<lparr>ent_state := YVEX_ENGINE_RESOURCE_RELEASING\<rparr>
      else entry_at c j)" "live c1 j = live c j" for j
    by (simp_all add: c1 entry_at_update_entry [OF len])
  have i1: "live c1 i" "dependent_count (entry_at c1 i) = 0" using i at by simp_all
  have "resource_slot_locked c1 h = Some i"
    using slot_locked_iff [of c1 h i] ok1 i at by (simp add: cat_ok_def)
  then have c': "c' = resource_remove_locked i ev c1"
    using f by (auto simp: resource_release_finish_def split: if_splits)
  have ok': "cat_ok c'" unfolding c' by (rule remove_ok [OF ok1 i1])
  have "slot_sum (\<lambda>e. 1) (slots c') + 1 = slot_sum (\<lambda>e. 1) (slots c1)"
    using meter_le [of resource_count "\<lambda>e. 1" c1 i] i1 ok1 ok' metered_iff [of c1] metered_iff [of c']
      unat_dec_pos [of "resource_count (cat_summary c1)"]
      dependency_drop_differs [OF ok1 i1]
    by (simp add: cat_ok_def meter_def c' resource_remove_locked_eq removal_summary_def
        differ_in_dependents_def)
  then have count: "unat (resource_count (cat_summary c')) + 1 = unat (resource_count (cat_summary c))"
    using ok' ok1 metered_iff [of c1] metered_iff [of c'] F by (simp add: cat_ok_def meter_def c1)
  show thesis
    using remove_live [OF ok1 i1, where ev = ev] at c1 by (intro that [OF i(1,2) ok' count]) (auto simp: c')
qed

lemma close_loop_returns:
  assumes "cat_ok c" "unat (resource_count (cat_summary c)) < fuel"
  shows "close_loop fuel stuck callback c \<noteq> None"
  using assms
proof (induction fuel arbitrary: stuck c)
  case (Suc fuel)
  obtain r c1 where run: "resource_release True True callback (close_candidate c) False c = (r, c1)"
    by (rule prod.exhaust)
  show ?case
  proof (cases r)
    case (Inr u)
    then have "cat_ok c1 \<and> unat (resource_count (cat_summary c1)) < fuel"
      using release_success [OF Suc.prems(1) run [unfolded Inr]] Suc.prems(2) by (metis Suc_eq_plus1 Suc_less_eq)
    then show ?thesis using Suc.IH Inr run by (auto simp: Let_def)
  qed (use run in \<open>auto simp: Let_def\<close>)
qed simp

text \<open>
  A catalog that can be emptied: nothing is borrowed or being released, and every dependency is
  older than its dependent.
\<close>

definition idle :: "yvex_engine_resource_catalog \<Rightarrow> bool" where
  "idle c \<longleftrightarrow> cat_ok c \<and> cat_mutex_ready c \<and>
     (\<forall>i. live c i \<longrightarrow> consumer_count (entry_at c i) = 0 \<and>
        ent_state (entry_at c i) \<noteq> YVEX_ENGINE_RESOURCE_RELEASING \<and>
        (handle_present (ent_dependency (entry_at c i)) \<longrightarrow>
           unat (h_generation (ent_dependency (entry_at c i))) < unat (h_generation (ent_handle (entry_at c i)))))"

lemma close_candidate_from_Some:
  "close_candidate_from ss n = Some i \<Longrightarrow> i < n \<and> in_use (ss ! i) \<and>
     consumer_count (slot_summary (ss ! i)) = 0 \<and> dependent_count (slot_summary (ss ! i)) = 0"
  by (induction n) (auto split: if_splits)

lemma close_candidate_from_None:
  "close_candidate_from ss n = None \<Longrightarrow> i < n \<Longrightarrow> in_use (ss ! i) \<Longrightarrow>
     consumer_count (slot_summary (ss ! i)) = 0 \<Longrightarrow> dependent_count (slot_summary (ss ! i)) \<noteq> 0"
  by (induction n) (auto simp: less_Suc_eq split: if_splits)

lemma not_live_empty: "\<nexists>i. live c i \<Longrightarrow> metered c \<Longrightarrow> resource_count (cat_summary c) = 0"
  using slot_sum_0_iff [of "\<lambda>e. 1" "slots c"]
  by (auto simp: metered_iff meter_def live_def slot_weight_def unat_eq_0)

text \<open>The youngest live resource has no dependents.\<close>

lemma idle_candidate:
  assumes "idle c" "live c i"
  obtains k where "live c k" "consumer_count (entry_at c k) = 0" "dependent_count (entry_at c k) = 0"
proof -
  let ?g = "\<lambda>j. unat (h_generation (ent_handle (entry_at c j)))"
  have ok: "cat_ok c" using assms(1) by (simp add: idle_def)
  have fin: "finite (?g ` {j. live c j})"
    by (rule finite_imageI [OF finite_subset [of _ "{..<length (slots c)}"]]) (auto simp: live_def)
  then have "Max (?g ` {j. live c j}) \<in> ?g ` {j. live c j}" using assms(2) by (intro Max_in) auto
  then obtain k where "live c k" and max: "Max (?g ` {j. live c j}) = ?g k" by blast
  then have k: "live c k" "\<And>j. live c j \<Longrightarrow> ?g j \<le> ?g k"
    using Max_ge [OF fin] by auto
  have "dependents c (ent_handle (entry_at c k)) = 0"
  proof (rule ccontr)
    assume "dependents c (ent_handle (entry_at c k)) \<noteq> 0"
    then obtain j where j: "live c j" "ent_dependency (entry_at c j) = ent_handle (entry_at c k)"
      unfolding dependents_def slot_sum_0_iff by (auto simp: slot_weight_def live_def entry_at_def split: if_splits)
    have "handle_present (ent_handle (entry_at c k))"
      using live_handle_present [of c k] ok k(1) by (simp add: cat_ok_def)
    then have "?g k < ?g j" using assms(1) j by (auto simp: idle_def)
    then show False using k(2) [OF j(1)] by simp
  qed
  then have "dependent_count (entry_at c k) = 0"
    using ok k(1) by (auto simp: cat_ok_def links_ok_def link_ok_def unat_eq_0)
  then show thesis using that k(1) assms(1) by (simp add: idle_def)
qed

lemma release_runs:
  assumes idle: "idle c" and k: "live c k" "dependent_count (entry_at c k) = 0"
    and callback: "\<And>r x. fst (callback r x) = YVEX_OK"
  shows "\<exists>c'. resource_release True True callback (ent_handle (entry_at c k)) False c = (Inr (), c')"
proof -
  let ?h = "ent_handle (entry_at c k)"
  have ok: "cat_ok c" using idle by (simp add: idle_def)
  then have "resource_slot_locked c ?h = Some k" "handle_present ?h"
    using k(1) slot_locked_iff [of c ?h k] live_handle_present [of c k] by (simp_all add: cat_ok_def)
  then obtain cb c1 where b: "resource_release_begin True ?h False c = (Inr cb, c1)"
    using idle k by (auto simp: resource_release_begin_def idle_def Let_def)
  have ok1: "cat_ok c1" by (rule release_begin_ok [OF ok b])
  obtain i F where i: "live c i" "ent_handle (entry_at c i) = ?h"
    and c1: "c1 = update_summary F (update_entry i (\<lambda>e. e\<lparr>ent_state := YVEX_ENGINE_RESOURCE_RELEASING\<rparr>) c)"
    using release_begin_success [OF b] ok unfolding update_entry_summary_commute
    by (auto simp: cat_ok_def slot_locked_iff)
  have "i < length (slots c)" using i(1) by (simp add: live_def)
  then have "live c1 i" "ent_handle (entry_at c1 i) = ?h"
    using i by (simp_all add: c1 entry_at_update_entry)
  then have found: "resource_slot_locked c1 ?h = Some i"
    using slot_locked_iff [of c1 ?h i] ok1 by (simp add: cat_ok_def)
  show ?thesis
  proof (cases cb)
    case (Pair release ctx)
    then show ?thesis
      using callback [of release ctx] b found
      by (cases "callback release ctx") (simp add: resource_release_def resource_release_finish_def)
  qed
qed

lemma idle_release:
  assumes "idle c" "resource_release True True callback h False c = (Inr u, c')"
  shows "idle c'" "unat (resource_count (cat_summary c')) + 1 = unat (resource_count (cat_summary c))"
proof -
  have ok: "cat_ok c" using assms(1) by (simp add: idle_def)
  obtain i where i: "cat_ok c'"
    and cnt: "unat (resource_count (cat_summary c')) + 1 = unat (resource_count (cat_summary c))"
    and l: "\<And>j. live c' j \<longleftrightarrow> live c j \<and> j \<noteq> i"
    and at: "\<And>j. j \<noteq> i \<Longrightarrow> \<exists>n. entry_at c' j = (entry_at c j)\<lparr>dependent_count := n\<rparr>"
    and m: "cat_mutex_ready c' = cat_mutex_ready c"
    using release_success [OF ok assms(2)] by blast
  show "unat (resource_count (cat_summary c')) + 1 = unat (resource_count (cat_summary c))" by (rule cnt)
  have "consumer_count (entry_at c' j) = consumer_count (entry_at c j) \<and>
      ent_state (entry_at c' j) = ent_state (entry_at c j) \<and>
      ent_dependency (entry_at c' j) = ent_dependency (entry_at c j) \<and>
      ent_handle (entry_at c' j) = ent_handle (entry_at c j)" if "j \<noteq> i" for j
    using at [OF that] by auto
  then show "idle c'" using assms(1) i l m by (simp add: idle_def)
qed

lemma close_loop_empties:
  assumes "idle c" "unat (resource_count (cat_summary c)) < fuel"
    and callback: "\<And>r x. fst (callback r x) = YVEX_OK"
  shows "\<exists>c'. close_loop fuel stuck callback c = Some (Inr (), c') \<and> resource_count (cat_summary c') = 0"
  using assms(1,2)
proof (induction fuel arbitrary: stuck c)
  case (Suc fuel)
  have ok: "cat_ok c" using Suc.prems(1) by (simp add: idle_def)
  have len: "length (slots c) = unat (capacity (cat_summary c))" using ok by (simp add: cat_ok_def slots_ok_def)
  show ?case
  proof (cases "close_candidate_from (slots c) (unat (capacity (cat_summary c)))")
    case None
    have none: "\<not> live c i" for i
    proof
      assume "live c i"
      with idle_candidate [OF Suc.prems(1)] obtain k where "live c k" "consumer_count (entry_at c k) = 0"
        "dependent_count (entry_at c k) = 0" by blast
      then show False using close_candidate_from_None [OF None, of k] len by (simp add: live_def entry_at_def)
    qed
    then have "resource_count (cat_summary c) = 0" using not_live_empty [of c] ok by (simp add: cat_ok_def)
    then show ?thesis using None by (simp add: close_candidate_def handle_present_def zero_handle_def)
  next
    case (Some k)
    then have k: "live c k" "dependent_count (entry_at c k) = 0"
      using close_candidate_from_Some [OF Some] len by (simp_all add: live_def entry_at_def)
    have h: "close_candidate c = ent_handle (entry_at c k)" "handle_present (ent_handle (entry_at c k))"
      using Some live_handle_present [of c k] ok k(1) by (simp_all add: close_candidate_def cat_ok_def)
    obtain c1 where run: "resource_release True True callback (ent_handle (entry_at c k)) False c = (Inr (), c1)"
      using release_runs [OF Suc.prems(1) k, of callback] callback by blast
    have "idle c1" "unat (resource_count (cat_summary c1)) < fuel"
      using idle_release [OF Suc.prems(1) run] Suc.prems(2) by simp_all
    from Suc.IH [OF this] show ?thesis using h run by (simp add: Let_def)
  qed
qed simp

section \<open>Properties\<close>

text \<open>The entries of the live slots, in slot order, as the snapshot lists them.\<close>

definition live_entries :: "yvex_engine_resource_catalog \<Rightarrow> yvex_engine_resource_entry list" where
  "live_entries c = map slot_summary (filter in_use (slots c))"

lemma slot_sum_live_entries: "slot_sum f (slots c) = sum_list (map f (live_entries c))"
proof -
  have "slot_sum f ss = sum_list (map f (map slot_summary (filter in_use ss)))" for ss
    by (induction ss) (simp_all add: slot_sum_def slot_weight_def)
  then show ?thesis by (simp add: live_entries_def)
qed

lemma sum_list_of_bool: "sum_list (map (\<lambda>e. of_bool (P e)) xs) = length (filter P xs)"
  by (induction xs) simp_all

text \<open>A handle that a client may still follow: borrowed, or the dependency of a live resource.\<close>

definition held :: "resource_system \<Rightarrow> yvex_engine_resource_handle \<Rightarrow> bool" where
  "held s h \<longleftrightarrow> h \<in> set (rs_borrowed s) \<or>
     handle_present h \<and> (\<exists>e \<in> set (live_entries (rs_catalog s)). ent_dependency e = h)"

lemma live_entries_iff: "e \<in> set (live_entries c) \<longleftrightarrow> (\<exists>i. live c i \<and> entry_at c i = e)"
  by (auto simp: live_entries_def live_def entry_at_def in_set_conv_nth)

lemma held_blocks:
  assumes inv: "resource_inv s" and "held s h"
  obtains i where "resource_slot_locked (rs_catalog s) h = Some i"
    "consumer_count (entry_at (rs_catalog s) i) \<noteq> 0 \<or> dependent_count (entry_at (rs_catalog s) i) \<noteq> 0"
proof -
  let ?c = "rs_catalog s"
  have ok: "cat_ok ?c" and b: "borrow_inv ?c (rs_borrowed s)" using inv by (simp_all add: resource_inv_def)
  obtain i where i: "live ?c i" "ent_handle (entry_at ?c i) = h"
    and held: "consumer_count (entry_at ?c i) \<noteq> 0 \<or> dependent_count (entry_at ?c i) \<noteq> 0"
  proof (cases "h \<in> set (rs_borrowed s)")
    case True
    then obtain i where i: "live ?c i" "ent_handle (entry_at ?c i) = h" using b by (auto simp: borrow_inv_def)
    then have "consumer_count (entry_at ?c i) \<noteq> 0"
      using b True by (auto simp: borrow_inv_def count_list_0_iff)
    then show thesis using that [OF i] by simp
  next
    case False
    then obtain j where j: "live ?c j" "ent_dependency (entry_at ?c j) = h" "handle_present h"
      using assms(2) by (auto simp: held_def live_entries_iff)
    then obtain i where i: "live ?c i" "ent_handle (entry_at ?c i) = h"
      using ok by (auto simp: cat_ok_def links_ok_def link_ok_def)
    then have "dependent_count (entry_at ?c i) \<noteq> 0"
      using ok dependents_positive [OF j(1,2)] by (auto simp: cat_ok_def links_ok_def link_ok_def)
    then show thesis using that [OF i] by simp
  qed
  then show thesis using that slot_locked_iff [of ?c h i] ok by (simp add: cat_ok_def)
qed

text \<open>A concrete run: a mapping, a component depending on it, a borrow, and a release.\<close>

definition demo_engine_identity :: string where
  "demo_engine_identity = replicate 64 (CHR ''b'')"

definition demo_bytes :: "u64 \<Rightarrow> yvex_engine_resource_bytes" where
  "demo_bytes n = zero_bytes\<lparr>host_resident_bytes := n\<rparr>"

definition demo_request ::
  "yvex_engine_resource_kind \<Rightarrow> yvex_engine_resource_handle \<Rightarrow> u64 \<Rightarrow> yvex_engine_resource_request" where
  "demo_request kind dependency n =
     \<lparr>req_kind = kind, req_owner = YVEX_ENGINE_RESOURCE_OWNER_ENGINE,
      req_lifetime = YVEX_ENGINE_RESOURCE_LIFETIME_ENGINE,
      req_numeric_class = YVEX_ENGINE_RESOURCE_NUMERIC_NONE, req_name = Some ''demo'',
      req_package_identity = Some demo_engine_identity, req_specialization_identity = None,
      req_admission_identity = None, req_dependency = dependency, req_bytes = demo_bytes n,
      req_preparation_nanoseconds = 5, req_value = 7, req_release = 1, req_release_context = 2,
      req_ready = True, req_evictable = True\<rparr>"

definition demo_handle :: "u64 \<Rightarrow> yvex_engine_resource_handle" where
  "demo_handle n = \<lparr>h_engine_generation = 9, h_slot = n, h_generation = n\<rparr>"

definition demo_catalog0 :: yvex_engine_resource_catalog where
  "demo_catalog0 = projr (yvex_runtime_resource_catalog_open 64 128 True True True 9 (Some demo_engine_identity) 2)"

definition demo_catalog1 :: yvex_engine_resource_catalog where
  "demo_catalog1 = snd (yvex_runtime_resource_register True
     (demo_request YVEX_ENGINE_RESOURCE_PACKAGE_MAPPING zero_handle 100) demo_catalog0)"

definition demo_catalog2 :: yvex_engine_resource_catalog where
  "demo_catalog2 = snd (yvex_runtime_resource_register True
     (demo_request YVEX_ENGINE_RESOURCE_COMPONENT (demo_handle 1) 23) demo_catalog1)"

definition demo_catalog3 :: yvex_engine_resource_catalog where
  "demo_catalog3 = snd (yvex_runtime_resource_acquire True (demo_handle 2) demo_catalog2)"

definition demo_catalog4 :: yvex_engine_resource_catalog where
  "demo_catalog4 = snd (resource_release_begin True (demo_handle 2) False demo_catalog2)"

definition demo_catalog5 :: yvex_engine_resource_catalog where
  "demo_catalog5 = snd (resource_release_finish True (demo_handle 2) False YVEX_OK (refusal YVEX_OK [] []) demo_catalog4)"

abbreviation (input) demo_system where
  "demo_system c flights borrowed issued removed \<equiv>
     \<lparr>rs_catalog = c, rs_in_flight = flights, rs_borrowed = borrowed, rs_issued = issued, rs_removed = removed\<rparr>"

lemma demo_results:
  "isl (yvex_runtime_resource_catalog_open 64 128 True True True 9 (Some demo_engine_identity) 2) = False"
  "fst (yvex_runtime_resource_register True
     (demo_request YVEX_ENGINE_RESOURCE_PACKAGE_MAPPING zero_handle 100) demo_catalog0) = Inr (demo_handle 1)"
  "fst (yvex_runtime_resource_register True
     (demo_request YVEX_ENGINE_RESOURCE_COMPONENT (demo_handle 1) 23) demo_catalog1) = Inr (demo_handle 2)"
  "fst (yvex_runtime_resource_acquire True (demo_handle 2) demo_catalog2) = Inr 7"
  "fst (resource_release_begin True (demo_handle 2) False demo_catalog2) = Inr (1, 2)"
  "fst (resource_release_finish True (demo_handle 2) False YVEX_OK (refusal YVEX_OK [] []) demo_catalog4) = Inr ()"
  by code_simp+

lemma demo_reachable:
  "reachable_from resource_init resource_step
     (demo_system demo_catalog2 [] [] [demo_handle 1, demo_handle 2] [])"
  "reachable_from resource_init resource_step
     (demo_system demo_catalog3 [] [demo_handle 2] [demo_handle 1, demo_handle 2] [])"
  "reachable_from resource_init resource_step
     (demo_system demo_catalog5 [] [] [demo_handle 1, demo_handle 2] [demo_handle 2])"
proof -
  let ?R = "reachable_from resource_init resource_step"
  have r0: "?R (demo_system demo_catalog0 [] [] [] [])"
    using demo_results(1)
    by (intro reachable_init resource_init.intros [of 64 128 9 "Some demo_engine_identity" 2])
      (simp add: demo_catalog0_def)
  have r1: "?R (demo_system demo_catalog1 [] [] [demo_handle 1] [])"
    using reachable_step [OF r0 step_register [of True _ _ "demo_handle 1" demo_catalog1]] demo_results(2)
    by (simp add: demo_catalog1_def prod_eq_iff)
  show r2: "?R (demo_system demo_catalog2 [] [] [demo_handle 1, demo_handle 2] [])"
    using reachable_step [OF r1 step_register [of True _ _ "demo_handle 2" demo_catalog2]] demo_results(3)
    by (simp add: demo_catalog2_def prod_eq_iff)
  show "?R (demo_system demo_catalog3 [] [demo_handle 2] [demo_handle 1, demo_handle 2] [])"
    using reachable_step [OF r2 step_acquire [of True "demo_handle 2" _ 7 demo_catalog3]] demo_results(4)
    by (simp add: demo_catalog3_def prod_eq_iff)
  have r4: "?R (demo_system demo_catalog4 [(demo_handle 2, False)] [] [demo_handle 1, demo_handle 2] [])"
    using reachable_step [OF r2 step_release_begin [of True "demo_handle 2" False _ "(1, 2)" demo_catalog4]]
      demo_results(5)
    by (simp add: demo_catalog4_def prod_eq_iff)
  show "?R (demo_system demo_catalog5 [] [] [demo_handle 1, demo_handle 2] [demo_handle 2])"
    using reachable_step [OF r4 step_release_finish [of "demo_handle 2" False _ True YVEX_OK
        "refusal YVEX_OK [] []" "Inr ()" demo_catalog5]] demo_results(6)
    by (simp add: demo_catalog5_def prod_eq_iff)
qed

text \<open>
  (C19) Accounting is exact: whatever the interleaving of registrations, publications, borrows,
  releases (also failed ones) and growth, the counters and byte totals of the catalog's summary are
  those of the live entries, with no drift and no wrap-around.
\<close>

theorem resource_accounting_exact:
  assumes "reachable_from resource_init resource_step s"
  shows "let m = cat_summary (rs_catalog s); es = live_entries (rs_catalog s) in
    unat (resource_count m) = length es \<and>
    unat (ready_count m) = length (filter (\<lambda>e. ent_state e = YVEX_ENGINE_RESOURCE_READY) es) \<and>
    unat (failed_count m) = length (filter (\<lambda>e. ent_state e = YVEX_ENGINE_RESOURCE_FAILED) es) \<and>
    (\<forall>k. unat (count_by_kind m k) = length (filter (\<lambda>e. ent_kind e = k) es)) \<and>
    (\<forall>field \<in> set bytes_fields.
       unat (field (total_bytes m)) = sum_list (map (\<lambda>e. unat (field (ent_bytes e))) es))"
  using resource_machine.reachable_inv [OF assms]
  by (simp add: Let_def resource_inv_def cat_ok_def metered_iff meter_def slot_sum_live_entries
      sum_list_of_bool sum_list_triv)

theorem resource_accounting_exact_witness:
  "unat (host_resident_bytes (total_bytes (cat_summary demo_catalog2))) = 123"
proof -
  have "map (\<lambda>e. unat (host_resident_bytes (ent_bytes e))) (live_entries demo_catalog2) = [100, 23]"
    by code_simp
  then show ?thesis
    using resource_accounting_exact [OF demo_reachable(1)] by (simp add: Let_def bytes_fields_def)
qed

text \<open>
  (C20) No use after release: a handle that is borrowed, or that a live resource depends on, resolves
  to its slot, and every attempt to release or evict it is refused without a change of the catalog.
\<close>

theorem resource_no_use_after_release:
  assumes "reachable_from resource_init resource_step s" and "held s h"
  shows "resource_slot_locked (rs_catalog s) h \<noteq> None \<and>
    (\<exists>e. resource_release_begin lock_ok h evict (rs_catalog s) = (Inl e, rs_catalog s))"
proof -
  obtain i where "resource_slot_locked (rs_catalog s) h = Some i"
    "consumer_count (entry_at (rs_catalog s) i) \<noteq> 0 \<or> dependent_count (entry_at (rs_catalog s) i) \<noteq> 0"
    using held_blocks [OF resource_machine.reachable_inv [OF assms(1)] assms(2)] .
  then show ?thesis by (auto simp: resource_release_begin_def resource_refuse_def Let_def)
qed

theorem resource_no_use_after_release_witness:
  "resource_slot_locked demo_catalog3 (demo_handle 1) \<noteq> None \<and>
   (\<exists>e. resource_release_begin True (demo_handle 1) False demo_catalog3 = (Inl e, demo_catalog3))"
proof -
  have "map ent_dependency (live_entries demo_catalog3) = [zero_handle, demo_handle 1]" by code_simp
  then have "demo_handle 1 \<in> set (map ent_dependency (live_entries demo_catalog3))" by simp
  then have "held (demo_system demo_catalog3 [] [demo_handle 2] [demo_handle 1, demo_handle 2] []) (demo_handle 1)"
    by (auto simp: held_def handle_present_def demo_handle_def)
  from resource_no_use_after_release [OF demo_reachable(2) this] show ?thesis by simp
qed

text \<open>
  (C21) Released handles stay stale: while the 64-bit generation counter has not wrapped, a handle
  whose release succeeded never resolves again, also after its slot is reused, and cannot be
  acquired.
\<close>

theorem resource_released_handle_stale:
  assumes "reachable_from resource_init resource_step s" and "length (rs_issued s) < 2 ^ 64"
    and "h \<in> set (rs_removed s)"
  shows "resource_slot_locked (rs_catalog s) h = None \<and>
    (\<exists>e. yvex_runtime_resource_acquire lock_ok h (rs_catalog s) = (Inl e, rs_catalog s))"
proof -
  have inv: "resource_inv s" by (rule resource_machine.reachable_inv [OF assms(1)])
  have "resource_slot_locked (rs_catalog s) h = None"
  proof (rule ccontr)
    assume "resource_slot_locked (rs_catalog s) h \<noteq> None"
    then obtain i where "live (rs_catalog s) i" "ent_handle (entry_at (rs_catalog s) i) = h"
      using inv slot_locked_iff [of "rs_catalog s" h] by (auto simp: resource_inv_def cat_ok_def)
    then show False using inv assms(2,3) by (auto simp: resource_inv_def generation_inv_def)
  qed
  then show ?thesis by (simp add: yvex_runtime_resource_acquire_def resource_refuse_def)
qed

theorem resource_released_handle_stale_witness:
  "resource_slot_locked demo_catalog5 (demo_handle 2) = None"
  using resource_released_handle_stale [OF demo_reachable(3), of "demo_handle 2"] by simp

text \<open>
  (C22) Closing ends: whatever the release callbacks answer, the closing loop returns after at most
  one round per live resource and one more.
\<close>

theorem resource_close_terminates:
  assumes "reachable_from resource_init resource_step s"
    and "unat (resource_count (cat_summary (rs_catalog s))) < fuel"
  shows "yvex_runtime_resource_catalog_close fuel lock_ok callback (rs_catalog s) \<noteq> None"
proof -
  have "resource_inv (s\<lparr>rs_catalog := update_summary (\<lambda>m. m\<lparr>closing := True\<rparr>) (rs_catalog s)\<rparr>)"
    by (rule inv_closing [OF resource_machine.reachable_inv [OF assms(1)]])
  then have "cat_ok (update_summary (\<lambda>m. m\<lparr>closing := True\<rparr>) (rs_catalog s))"
    by (simp add: resource_inv_def)
  then show ?thesis
    using close_loop_returns [of _ fuel] assms(2) by (simp add: yvex_runtime_resource_catalog_close_def)
qed

theorem resource_close_terminates_witness:
  "yvex_runtime_resource_catalog_close 3 True (\<lambda>_ _. (YVEX_ERR_IO, refusal YVEX_ERR_IO [] [])) demo_catalog2 \<noteq> None"
proof -
  have "unat (resource_count (cat_summary demo_catalog2)) = 2" by code_simp
  then show ?thesis using resource_close_terminates [OF demo_reachable(1), of 3] by simp
qed

text \<open>
  (C23) Closing an idle catalog releases everything: with no borrow outstanding, no release
  interrupted and successful callbacks, dependents are released before what they depend on, no
  cycle is ever reported, and no resource is left.
\<close>

theorem resource_close_releases_all:
  assumes "reachable_from resource_init resource_step s" and "length (rs_issued s) < 2 ^ 64"
    and "cat_mutex_ready (rs_catalog s)" and "rs_borrowed s = []"
    and "\<forall>e \<in> set (live_entries (rs_catalog s)). ent_state e \<noteq> YVEX_ENGINE_RESOURCE_RELEASING"
    and "\<And>release context. fst (callback release context) = YVEX_OK"
    and "unat (resource_count (cat_summary (rs_catalog s))) < fuel"
  shows "\<exists>c. yvex_runtime_resource_catalog_close fuel True callback (rs_catalog s) = Some (Inr (), c) \<and>
    resource_count (cat_summary c) = 0"
proof -
  let ?c = "update_summary (\<lambda>m. m\<lparr>closing := True\<rparr>) (rs_catalog s)"
  have inv: "resource_inv (s\<lparr>rs_catalog := ?c\<rparr>)"
    by (rule inv_closing [OF resource_machine.reachable_inv [OF assms(1)]])
  have "consumer_count (entry_at (rs_catalog s) i) = 0" if "live (rs_catalog s) i" for i
    using inv that assms(4) by (auto simp: resource_inv_def borrow_inv_def unat_eq_0)
  moreover have "ent_state (entry_at (rs_catalog s) i) \<noteq> YVEX_ENGINE_RESOURCE_RELEASING"
    if "live (rs_catalog s) i" for i
    using that assms(5) live_entries_iff by blast
  ultimately have "idle ?c"
    using inv assms(2,3) by (auto simp: idle_def resource_inv_def generation_inv_def)
  from close_loop_empties [OF this _ assms(6)] show ?thesis
    using assms(3,7) by (simp add: yvex_runtime_resource_catalog_close_def)
qed

theorem resource_close_releases_all_witness:
  "\<exists>c. yvex_runtime_resource_catalog_close 3 True (\<lambda>_ _. (YVEX_OK, refusal YVEX_OK [] [])) demo_catalog2 =
     Some (Inr (), c) \<and> resource_count (cat_summary c) = 0"
proof -
  have "unat (resource_count (cat_summary demo_catalog2)) = 2" "cat_mutex_ready demo_catalog2"
    "map ent_state (live_entries demo_catalog2) = [YVEX_ENGINE_RESOURCE_READY, YVEX_ENGINE_RESOURCE_READY]"
    by code_simp+
  moreover from this(3) have "set (map ent_state (live_entries demo_catalog2)) = {YVEX_ENGINE_RESOURCE_READY}"
    by simp
  ultimately show ?thesis
    using resource_close_releases_all [OF demo_reachable(1), of "\<lambda>_ _. (YVEX_OK, refusal YVEX_OK [] [])" 3]
    by auto
qed

end
