(* ===== verification/Artifact_File.thy ===== *)
theory Artifact_File
  imports Core_Status
begin

text \<open>
  \<^verbatim>\<open>src/artifact/core.c\<close>: the artifact, an open file bound to the identity it had when it was opened, and
  the positioned reads every parser of the system uses.  The operating system's \<open>pread\<close> is a function
  of the offset and the number of bytes wanted, after retries of interrupted calls; it may fail, report
  the end of the file, or return fewer bytes than wanted.  The contract \<open>reads_file\<close> states what is
  relied on: the bytes returned are those of the file.  Opening, closing and the identity checks are in
  \<open>Artifact_Snapshot\<close>.
\<close>

datatype pread_result = Pread_failed string | Pread_bytes "u8 list"

record yvex_artifact_snapshot =
  snap_device :: u64
  snap_inode :: u64
  snap_size :: u64
  mtime_seconds :: int
  mtime_nanoseconds :: int
  ctime_seconds :: int
  ctime_nanoseconds :: int

text \<open>
  The file behind the descriptor is represented by what \<open>pread\<close> answers on it; of the mapping only its
  length is kept.
\<close>

record yvex_artifact =
  art_path :: string
  art_size :: u64
  art_snapshot :: yvex_artifact_snapshot
  art_fd :: int
  art_mapping :: "u64 option"
  art_pread :: "u64 \<Rightarrow> nat \<Rightarrow> pread_result"

definition yvex_artifact_size :: "yvex_artifact option \<Rightarrow> u64" where
  "yvex_artifact_size artifact = (case artifact of None \<Rightarrow> 0 | Some a \<Rightarrow> art_size a)"

definition yvex_range_check :: "u64 \<Rightarrow> u64 \<Rightarrow> u64 \<Rightarrow> unit outcome" where
  "yvex_range_check file_size offset len =
     (if offset > file_size
      then Inl (refusal YVEX_ERR_BOUNDS ''yvex_range_check''
        (''offset '' @ decimal (unat offset) @ '' exceeds file size '' @ decimal (unat file_size)))
      else if len > file_size - offset
      then Inl (refusal YVEX_ERR_BOUNDS ''yvex_range_check''
        (''range offset='' @ decimal (unat offset) @ '' len='' @ decimal (unat len) @
         '' exceeds file size '' @ decimal (unat file_size)))
      else Inr ())"

text \<open>The loop of positioned reads; \<open>got\<close> are the bytes read so far.\<close>

function read_at_loop :: "(u64 \<Rightarrow> nat \<Rightarrow> pread_result) \<Rightarrow> u64 \<Rightarrow> nat \<Rightarrow> u8 list \<Rightarrow> u8 list outcome" where
  "read_at_loop pread offset len got =
     (if length got < len
      then let current = offset + of_nat (length got) in
        if current > 0x7fffffffffffffff
        then Inl (refusal YVEX_ERR_BOUNDS ''yvex_artifact_read_at''
          ''artifact offset exceeds positioned IO range'')
        else case pread current (len - length got) of
          Pread_failed reason \<Rightarrow> Inl (refusal YVEX_ERR_IO ''yvex_artifact_read_at''
            (''positioned read failed at offset '' @ decimal (unat current) @ '': '' @ reason))
        | Pread_bytes bytes \<Rightarrow>
            if bytes = []
            then Inl (refusal YVEX_ERR_IO ''yvex_artifact_read_at''
              (''short read at offset '' @ decimal (unat current)))
            else read_at_loop pread offset len (got @ bytes)
      else Inr got)"
  by pat_completeness auto
termination
  by (relation "measure (\<lambda>(_, _, len, got). len - length got)") (auto intro!: diff_less_mono2)

declare read_at_loop.simps [simp del]

definition yvex_artifact_read_at :: "yvex_artifact \<Rightarrow> u64 \<Rightarrow> u64 \<Rightarrow> u8 list outcome" where
  "yvex_artifact_read_at artifact offset len =
     (case yvex_range_check (art_size artifact) offset len of
        Inl e \<Rightarrow> Inl (e\<lparr>err_code := YVEX_ERR_BOUNDS\<rparr>)
      | Inr _ \<Rightarrow> read_at_loop (art_pread artifact) offset (unat len) [])"

section \<open>The contract of positioned reads\<close>

definition reads_file :: "yvex_artifact \<Rightarrow> u8 list \<Rightarrow> bool" where
  "reads_file artifact file \<longleftrightarrow> unat (art_size artifact) = length file \<and>
     (\<forall>offset n bytes. art_pread artifact offset n = Pread_bytes bytes \<longrightarrow>
        length bytes \<le> n \<and> bytes = take (length bytes) (drop (unat offset) file))"

lemma read_at_loop_bytes:
  assumes read: "\<And>offset n bytes. pread offset n = Pread_bytes bytes \<Longrightarrow>
      length bytes \<le> n \<and> bytes = take (length bytes) (drop (unat offset) file)"
    and run: "read_at_loop pread offset len got = Inr out"
    and fits: "unat offset + len \<le> length file" "length file < 2 ^ 64"
    and got: "length got \<le> len" "got = take (length got) (drop (unat offset) file)"
  shows "out = take len (drop (unat offset) file)"
  using run got
proof (induction "len - length got" arbitrary: got rule: less_induct)
  case less
  show ?case
  proof (cases "length got < len")
    case False
    then have "out = got" using less.prems(1) by (simp add: read_at_loop.simps)
    then show ?thesis using False less.prems(2,3) by simp
  next
    case True
    let ?current = "offset + of_nat (length got)"
    obtain bytes where bytes: "pread ?current (len - length got) = Pread_bytes bytes" "bytes \<noteq> []"
      and rest: "read_at_loop pread offset len (got @ bytes) = Inr out"
      using less.prems(1) True
      by (subst (asm) read_at_loop.simps) (auto simp: Let_def split: if_splits pread_result.splits)
    have "unat ?current = unat offset + length got"
      using True fits by (simp add: unat_word_ariths unat_of_nat)
    then have b: "length bytes \<le> len - length got"
      "bytes = take (length bytes) (drop (unat offset + length got) file)"
      using read [OF bytes(1)] by simp_all
    have all: "got @ bytes = take (length (got @ bytes)) (drop (unat offset) file)"
      unfolding length_append using b(2) less.prems(3) by (metis add.commute drop_drop take_add)
    show ?thesis
    proof (rule less.hyps [OF _ rest _ all])
      show "len - length (got @ bytes) < len - length got" "length (got @ bytes) \<le> len"
        using b(1) bytes(2) True by (auto intro: diff_less_mono2)
    qed
  qed
qed

lemma read_at_bytes:
  assumes "reads_file artifact file" and "yvex_artifact_read_at artifact offset len = Inr bytes"
  shows "bytes = take (unat len) (drop (unat offset) file)" "unat offset + unat len \<le> length file"
    "length bytes = unat len"
proof -
  have size: "unat (art_size artifact) = length file" using assms(1) by (simp add: reads_file_def)
  have ok: "yvex_range_check (art_size artifact) offset len = Inr ()"
    and run: "read_at_loop (art_pread artifact) offset (unat len) [] = Inr bytes"
    using assms(2) by (auto simp: yvex_artifact_read_at_def split: sum.splits)
  have "offset \<le> art_size artifact" "len \<le> art_size artifact - offset"
    using ok by (auto simp: yvex_range_check_def split: if_splits)
  then show fits: "unat offset + unat len \<le> length file"
    using size by (simp add: word_le_nat_alt unat_sub)
  have "length file < 2 ^ 64" using size unat_u64_less [of "art_size artifact"] by simp
  then show "bytes = take (unat len) (drop (unat offset) file)"
    using assms(1) fits by (intro read_at_loop_bytes [OF _ run]) (auto simp: reads_file_def)
  then show "length bytes = unat len" using fits by simp
qed

text \<open>A file whose reads make progress within it; then reading within the file succeeds.\<close>

definition serves_file :: "yvex_artifact \<Rightarrow> u8 list \<Rightarrow> bool" where
  "serves_file artifact file \<longleftrightarrow> reads_file artifact file \<and>
     (\<forall>offset n. 0 < n \<longrightarrow> unat offset + n \<le> length file \<longrightarrow>
        (\<exists>bytes. bytes \<noteq> [] \<and> art_pread artifact offset n = Pread_bytes bytes))"

lemma read_at_loop_progress:
  assumes serves: "serves_file artifact file" and fits: "unat offset + len \<le> length file" "length file < 2 ^ 63"
  shows "length got \<le> len \<Longrightarrow> \<exists>out. read_at_loop (art_pread artifact) offset len got = Inr out"
proof (induction "len - length got" arbitrary: got rule: less_induct)
  case less
  show ?case
  proof (cases "length got < len")
    case False
    then show ?thesis by (simp add: read_at_loop.simps)
  next
    case True
    let ?current = "offset + of_nat (length got)"
    have cur: "unat ?current = unat offset + length got" using True fits by (simp add: unat_word_ariths unat_of_nat)
    then have low: "\<not> ?current > 0x7fffffffffffffff" using True fits by (simp add: word_less_nat_alt)
    have "0 < len - length got" "unat ?current + (len - length got) \<le> length file" using cur True fits(1) by simp_all
    then obtain bytes where bytes: "bytes \<noteq> []" "art_pread artifact ?current (len - length got) = Pread_bytes bytes"
      using serves unfolding serves_file_def by blast
    have "length bytes \<le> len - length got" using serves bytes(2) by (auto simp: serves_file_def reads_file_def)
    then have "len - length (got @ bytes) < len - length got" "length (got @ bytes) \<le> len"
      using bytes(1) True by (auto intro: diff_less_mono2)
    then have "\<exists>out. read_at_loop (art_pread artifact) offset len (got @ bytes) = Inr out" by (rule less.hyps)
    then show ?thesis using True low bytes by (subst read_at_loop.simps) (simp add: Let_def)
  qed
qed

lemma serves_read_at:
  assumes "serves_file artifact file" "length file < 2 ^ 63" "unat offset + unat len \<le> length file"
  shows "\<exists>bytes. yvex_artifact_read_at artifact offset len = Inr bytes"
proof -
  have size: "unat (art_size artifact) = length file" using assms(1) by (simp add: serves_file_def reads_file_def)
  then have "offset \<le> art_size artifact" using assms(3) by (simp add: word_le_nat_alt)
  then have "yvex_range_check (art_size artifact) offset len = Inr ()"
    using assms(3) size by (simp add: yvex_range_check_def not_less word_le_nat_alt unat_sub)
  then show ?thesis
    using read_at_loop_progress [OF assms(1,3,2), of "[]"] by (simp add: yvex_artifact_read_at_def)
qed

text \<open>An artifact over a byte list in memory, whose reads return everything they can.\<close>

definition memory_artifact :: "u8 list \<Rightarrow> yvex_artifact" where
  "memory_artifact file = \<lparr>art_path = ''memory'', art_size = of_nat (length file),
     art_snapshot = \<lparr>snap_device = 0, snap_inode = 0, snap_size = of_nat (length file), mtime_seconds = 0,
       mtime_nanoseconds = 0, ctime_seconds = 0, ctime_nanoseconds = 0\<rparr>,
     art_fd = 3, art_mapping = None,
     art_pread = (\<lambda>offset n. Pread_bytes (take n (drop (unat offset) file)))\<rparr>"

lemma memory_artifact_reads: "length file < 2 ^ 64 \<Longrightarrow> reads_file (memory_artifact file) file"
  by (auto simp: reads_file_def memory_artifact_def unat_of_nat min_def)

lemma memory_artifact_serves: "length file < 2 ^ 64 \<Longrightarrow> serves_file (memory_artifact file) file"
  using memory_artifact_reads [of "file"] by (auto simp: serves_file_def memory_artifact_def)

end
