(* ===== verification/Gguf_Qtype.thy ===== *)
theory Gguf_Qtype
  imports Core_Status
begin

text \<open>
  \<^verbatim>\<open>src/gguf/qtype.c\<close>: the registry of tensor element types of the GGUF format and the exact number of
  bytes a tensor of a given type and shape occupies.  A null output pointer is not modelled except
  where the code returns through it; the result structure is returned with the fields written so far,
  also on a refusal.
\<close>

section \<open>The registry\<close>

datatype yvex_gguf_qtype_identity_status =
    YVEX_GGUF_QTYPE_IDENTITY_ADMITTED | YVEX_GGUF_QTYPE_IDENTITY_REMOVED
  | YVEX_GGUF_QTYPE_IDENTITY_RESERVED | YVEX_GGUF_QTYPE_IDENTITY_OUTSIDE_BASELINE
  | YVEX_GGUF_QTYPE_IDENTITY_UNKNOWN

datatype yvex_gguf_qtype_storage_class =
    YVEX_GGUF_QTYPE_STORAGE_UNKNOWN | YVEX_GGUF_QTYPE_STORAGE_SCALAR_FLOAT
  | YVEX_GGUF_QTYPE_STORAGE_SCALAR_INTEGER | YVEX_GGUF_QTYPE_STORAGE_BLOCK_QUANTIZED

datatype yvex_gguf_qtype_storage_status =
    YVEX_GGUF_QTYPE_STORAGE_OK | YVEX_GGUF_QTYPE_STORAGE_INVALID_ARGUMENT
  | YVEX_GGUF_QTYPE_STORAGE_UNKNOWN_ID | YVEX_GGUF_QTYPE_STORAGE_REMOVED_ID
  | YVEX_GGUF_QTYPE_STORAGE_RESERVED_ID | YVEX_GGUF_QTYPE_STORAGE_OUTSIDE_BASELINE
  | YVEX_GGUF_QTYPE_STORAGE_GEOMETRY_UNAVAILABLE | YVEX_GGUF_QTYPE_STORAGE_INVALID_RANK
  | YVEX_GGUF_QTYPE_STORAGE_INVALID_DIMENSION | YVEX_GGUF_QTYPE_STORAGE_ROW_BLOCK_MISMATCH
  | YVEX_GGUF_QTYPE_STORAGE_ELEMENT_COUNT_OVERFLOW | YVEX_GGUF_QTYPE_STORAGE_ROW_BYTE_OVERFLOW
  | YVEX_GGUF_QTYPE_STORAGE_ROW_COUNT_OVERFLOW | YVEX_GGUF_QTYPE_STORAGE_TOTAL_BYTE_OVERFLOW
  | YVEX_GGUF_QTYPE_STORAGE_EXPECTED_ACTUAL_MISMATCH

record yvex_gguf_qtype_geometry =
  geo_qtype :: u32
  geo_name :: string
  identity_status :: yvex_gguf_qtype_identity_status
  storage_class :: yvex_gguf_qtype_storage_class
  block_size :: u32
  bytes_per_block :: u32
  scalar_width :: u32
  geo_reason :: string

record yvex_gguf_qtype_storage_result =
  sr_status :: yvex_gguf_qtype_storage_status
  sr_qtype :: u32
  sr_rank :: u32
  row_width :: u64
  row_count :: u64
  element_count :: u64
  row_bytes :: u64
  sr_total_bytes :: u64
  sr_actual_bytes :: u64
  sr_reason :: string

definition YVEX_GGUF_QTYPE_ABI_UPSTREAM_MAX_ID :: u32 where
  "YVEX_GGUF_QTYPE_ABI_UPSTREAM_MAX_ID = 42"

definition YVEX_GGUF_QTYPE_MAX_DIMS :: u32 where
  "YVEX_GGUF_QTYPE_MAX_DIMS = 4"

definition geometry_row ::
  "u32 \<Rightarrow> string \<Rightarrow> yvex_gguf_qtype_identity_status \<Rightarrow> yvex_gguf_qtype_storage_class \<Rightarrow>
   u32 \<Rightarrow> u32 \<Rightarrow> u32 \<Rightarrow> string \<Rightarrow> yvex_gguf_qtype_geometry" where
  "geometry_row q n i s b y w r = \<lparr>geo_qtype = q, geo_name = n, identity_status = i, storage_class = s,
     block_size = b, bytes_per_block = y, scalar_width = w, geo_reason = r\<rparr>"

definition reason_admitted :: string where
  "reason_admitted = ''storage geometry admitted by pinned GGUF ABI''"

definition reason_removed :: string where
  "reason_removed = ''qtype ID was removed from the pinned GGUF ABI''"

definition reason_newer :: string where
  "reason_newer = ''qtype identity is newer than the pinned GGUF on-disk baseline''"

definition qtype_geometry :: "yvex_gguf_qtype_geometry list" where
  "qtype_geometry =
     [geometry_row 0 ''F32'' YVEX_GGUF_QTYPE_IDENTITY_ADMITTED YVEX_GGUF_QTYPE_STORAGE_SCALAR_FLOAT 1 4 4 reason_admitted,
      geometry_row 1 ''F16'' YVEX_GGUF_QTYPE_IDENTITY_ADMITTED YVEX_GGUF_QTYPE_STORAGE_SCALAR_FLOAT 1 2 2 reason_admitted,
      geometry_row 2 ''Q4_0'' YVEX_GGUF_QTYPE_IDENTITY_ADMITTED YVEX_GGUF_QTYPE_STORAGE_BLOCK_QUANTIZED 32 18 0 reason_admitted,
      geometry_row 3 ''Q4_1'' YVEX_GGUF_QTYPE_IDENTITY_ADMITTED YVEX_GGUF_QTYPE_STORAGE_BLOCK_QUANTIZED 32 20 0 reason_admitted,
      geometry_row 4 ''Q4_2'' YVEX_GGUF_QTYPE_IDENTITY_REMOVED YVEX_GGUF_QTYPE_STORAGE_UNKNOWN 0 0 0 reason_removed,
      geometry_row 5 ''Q4_3'' YVEX_GGUF_QTYPE_IDENTITY_REMOVED YVEX_GGUF_QTYPE_STORAGE_UNKNOWN 0 0 0 reason_removed,
      geometry_row 6 ''Q5_0'' YVEX_GGUF_QTYPE_IDENTITY_ADMITTED YVEX_GGUF_QTYPE_STORAGE_BLOCK_QUANTIZED 32 22 0 reason_admitted,
      geometry_row 7 ''Q5_1'' YVEX_GGUF_QTYPE_IDENTITY_ADMITTED YVEX_GGUF_QTYPE_STORAGE_BLOCK_QUANTIZED 32 24 0 reason_admitted,
      geometry_row 8 ''Q8_0'' YVEX_GGUF_QTYPE_IDENTITY_ADMITTED YVEX_GGUF_QTYPE_STORAGE_BLOCK_QUANTIZED 32 34 0 reason_admitted,
      geometry_row 9 ''Q8_1'' YVEX_GGUF_QTYPE_IDENTITY_ADMITTED YVEX_GGUF_QTYPE_STORAGE_BLOCK_QUANTIZED 32 36 0 reason_admitted,
      geometry_row 10 ''Q2_K'' YVEX_GGUF_QTYPE_IDENTITY_ADMITTED YVEX_GGUF_QTYPE_STORAGE_BLOCK_QUANTIZED 256 84 0 reason_admitted,
      geometry_row 11 ''Q3_K'' YVEX_GGUF_QTYPE_IDENTITY_ADMITTED YVEX_GGUF_QTYPE_STORAGE_BLOCK_QUANTIZED 256 110 0 reason_admitted,
      geometry_row 12 ''Q4_K'' YVEX_GGUF_QTYPE_IDENTITY_ADMITTED YVEX_GGUF_QTYPE_STORAGE_BLOCK_QUANTIZED 256 144 0 reason_admitted,
      geometry_row 13 ''Q5_K'' YVEX_GGUF_QTYPE_IDENTITY_ADMITTED YVEX_GGUF_QTYPE_STORAGE_BLOCK_QUANTIZED 256 176 0 reason_admitted,
      geometry_row 14 ''Q6_K'' YVEX_GGUF_QTYPE_IDENTITY_ADMITTED YVEX_GGUF_QTYPE_STORAGE_BLOCK_QUANTIZED 256 210 0 reason_admitted,
      geometry_row 15 ''Q8_K'' YVEX_GGUF_QTYPE_IDENTITY_ADMITTED YVEX_GGUF_QTYPE_STORAGE_BLOCK_QUANTIZED 256 292 0 reason_admitted,
      geometry_row 16 ''IQ2_XXS'' YVEX_GGUF_QTYPE_IDENTITY_ADMITTED YVEX_GGUF_QTYPE_STORAGE_BLOCK_QUANTIZED 256 66 0 reason_admitted,
      geometry_row 17 ''IQ2_XS'' YVEX_GGUF_QTYPE_IDENTITY_ADMITTED YVEX_GGUF_QTYPE_STORAGE_BLOCK_QUANTIZED 256 74 0 reason_admitted,
      geometry_row 18 ''IQ3_XXS'' YVEX_GGUF_QTYPE_IDENTITY_ADMITTED YVEX_GGUF_QTYPE_STORAGE_BLOCK_QUANTIZED 256 98 0 reason_admitted,
      geometry_row 19 ''IQ1_S'' YVEX_GGUF_QTYPE_IDENTITY_ADMITTED YVEX_GGUF_QTYPE_STORAGE_BLOCK_QUANTIZED 256 50 0 reason_admitted,
      geometry_row 20 ''IQ4_NL'' YVEX_GGUF_QTYPE_IDENTITY_ADMITTED YVEX_GGUF_QTYPE_STORAGE_BLOCK_QUANTIZED 32 18 0 reason_admitted,
      geometry_row 21 ''IQ3_S'' YVEX_GGUF_QTYPE_IDENTITY_ADMITTED YVEX_GGUF_QTYPE_STORAGE_BLOCK_QUANTIZED 256 110 0 reason_admitted,
      geometry_row 22 ''IQ2_S'' YVEX_GGUF_QTYPE_IDENTITY_ADMITTED YVEX_GGUF_QTYPE_STORAGE_BLOCK_QUANTIZED 256 82 0 reason_admitted,
      geometry_row 23 ''IQ4_XS'' YVEX_GGUF_QTYPE_IDENTITY_ADMITTED YVEX_GGUF_QTYPE_STORAGE_BLOCK_QUANTIZED 256 136 0 reason_admitted,
      geometry_row 24 ''I8'' YVEX_GGUF_QTYPE_IDENTITY_ADMITTED YVEX_GGUF_QTYPE_STORAGE_SCALAR_INTEGER 1 1 1 reason_admitted,
      geometry_row 25 ''I16'' YVEX_GGUF_QTYPE_IDENTITY_ADMITTED YVEX_GGUF_QTYPE_STORAGE_SCALAR_INTEGER 1 2 2 reason_admitted,
      geometry_row 26 ''I32'' YVEX_GGUF_QTYPE_IDENTITY_ADMITTED YVEX_GGUF_QTYPE_STORAGE_SCALAR_INTEGER 1 4 4 reason_admitted,
      geometry_row 27 ''I64'' YVEX_GGUF_QTYPE_IDENTITY_ADMITTED YVEX_GGUF_QTYPE_STORAGE_SCALAR_INTEGER 1 8 8 reason_admitted,
      geometry_row 28 ''F64'' YVEX_GGUF_QTYPE_IDENTITY_ADMITTED YVEX_GGUF_QTYPE_STORAGE_SCALAR_FLOAT 1 8 8 reason_admitted,
      geometry_row 29 ''IQ1_M'' YVEX_GGUF_QTYPE_IDENTITY_ADMITTED YVEX_GGUF_QTYPE_STORAGE_BLOCK_QUANTIZED 256 56 0 reason_admitted,
      geometry_row 30 ''BF16'' YVEX_GGUF_QTYPE_IDENTITY_ADMITTED YVEX_GGUF_QTYPE_STORAGE_SCALAR_FLOAT 1 2 2 reason_admitted,
      geometry_row 31 ''Q4_0_4_4'' YVEX_GGUF_QTYPE_IDENTITY_REMOVED YVEX_GGUF_QTYPE_STORAGE_UNKNOWN 0 0 0 reason_removed,
      geometry_row 32 ''Q4_0_4_8'' YVEX_GGUF_QTYPE_IDENTITY_REMOVED YVEX_GGUF_QTYPE_STORAGE_UNKNOWN 0 0 0 reason_removed,
      geometry_row 33 ''Q4_0_8_8'' YVEX_GGUF_QTYPE_IDENTITY_REMOVED YVEX_GGUF_QTYPE_STORAGE_UNKNOWN 0 0 0 reason_removed,
      geometry_row 34 ''TQ1_0'' YVEX_GGUF_QTYPE_IDENTITY_ADMITTED YVEX_GGUF_QTYPE_STORAGE_BLOCK_QUANTIZED 256 54 0 reason_admitted,
      geometry_row 35 ''TQ2_0'' YVEX_GGUF_QTYPE_IDENTITY_ADMITTED YVEX_GGUF_QTYPE_STORAGE_BLOCK_QUANTIZED 256 66 0 reason_admitted,
      geometry_row 36 ''IQ4_NL_4_4'' YVEX_GGUF_QTYPE_IDENTITY_REMOVED YVEX_GGUF_QTYPE_STORAGE_UNKNOWN 0 0 0 reason_removed,
      geometry_row 37 ''IQ4_NL_4_8'' YVEX_GGUF_QTYPE_IDENTITY_REMOVED YVEX_GGUF_QTYPE_STORAGE_UNKNOWN 0 0 0 reason_removed,
      geometry_row 38 ''IQ4_NL_8_8'' YVEX_GGUF_QTYPE_IDENTITY_REMOVED YVEX_GGUF_QTYPE_STORAGE_UNKNOWN 0 0 0 reason_removed,
      geometry_row 39 ''MXFP4'' YVEX_GGUF_QTYPE_IDENTITY_ADMITTED YVEX_GGUF_QTYPE_STORAGE_BLOCK_QUANTIZED 32 17 0 reason_admitted,
      geometry_row 40 ''NVFP4'' YVEX_GGUF_QTYPE_IDENTITY_OUTSIDE_BASELINE YVEX_GGUF_QTYPE_STORAGE_BLOCK_QUANTIZED 64 36 0 reason_newer,
      geometry_row 41 ''Q1_0'' YVEX_GGUF_QTYPE_IDENTITY_OUTSIDE_BASELINE YVEX_GGUF_QTYPE_STORAGE_BLOCK_QUANTIZED 128 18 0 reason_newer,
      geometry_row 42 ''Q2_0'' YVEX_GGUF_QTYPE_IDENTITY_OUTSIDE_BASELINE YVEX_GGUF_QTYPE_STORAGE_BLOCK_QUANTIZED 64 18 0 reason_newer]"

definition yvex_gguf_qtype_geometry_count :: nat where
  "yvex_gguf_qtype_geometry_count = length qtype_geometry"

definition yvex_gguf_qtype_geometry_at :: "nat \<Rightarrow> yvex_gguf_qtype_geometry option" where
  "yvex_gguf_qtype_geometry_at i =
     (if i \<ge> yvex_gguf_qtype_geometry_count then None else Some (qtype_geometry ! i))"

definition yvex_gguf_qtype_geometry_find :: "u32 \<Rightarrow> yvex_gguf_qtype_geometry option" where
  "yvex_gguf_qtype_geometry_find qtype =
     (if qtype > YVEX_GGUF_QTYPE_ABI_UPSTREAM_MAX_ID then None else Some (qtype_geometry ! unat qtype))"

definition yvex_gguf_qtype_geometry_find_by_name :: "string option \<Rightarrow> yvex_gguf_qtype_geometry option" where
  "yvex_gguf_qtype_geometry_find_by_name name =
     (case name of None \<Rightarrow> None
      | Some n \<Rightarrow>
          let i = first_index (\<lambda>i. geo_name (qtype_geometry ! i) = n) yvex_gguf_qtype_geometry_count
          in if i = yvex_gguf_qtype_geometry_count then None else Some (qtype_geometry ! i))"

definition yvex_gguf_qtype_name :: "u32 \<Rightarrow> string" where
  "yvex_gguf_qtype_name qtype =
     (case yvex_gguf_qtype_geometry_find qtype of Some g \<Rightarrow> geo_name g | None \<Rightarrow> ''UNKNOWN'')"

fun yvex_gguf_qtype_identity_status_name :: "yvex_gguf_qtype_identity_status \<Rightarrow> string" where
  "yvex_gguf_qtype_identity_status_name YVEX_GGUF_QTYPE_IDENTITY_ADMITTED = ''admitted''"
| "yvex_gguf_qtype_identity_status_name YVEX_GGUF_QTYPE_IDENTITY_REMOVED = ''removed''"
| "yvex_gguf_qtype_identity_status_name YVEX_GGUF_QTYPE_IDENTITY_RESERVED = ''reserved''"
| "yvex_gguf_qtype_identity_status_name YVEX_GGUF_QTYPE_IDENTITY_OUTSIDE_BASELINE = ''outside-baseline''"
| "yvex_gguf_qtype_identity_status_name YVEX_GGUF_QTYPE_IDENTITY_UNKNOWN = ''unknown''"

text \<open>Name and reason of a storage status.\<close>

fun storage_status_text :: "yvex_gguf_qtype_storage_status \<Rightarrow> string \<times> string" where
  "storage_status_text YVEX_GGUF_QTYPE_STORAGE_OK = (''ok'', ''GGUF tensor row geometry accepted'')"
| "storage_status_text YVEX_GGUF_QTYPE_STORAGE_INVALID_ARGUMENT =
     (''invalid-argument'', ''qtype storage requires dimensions and an output result'')"
| "storage_status_text YVEX_GGUF_QTYPE_STORAGE_UNKNOWN_ID = (''unknown-qtype-id'', ''unknown GGUF qtype ID'')"
| "storage_status_text YVEX_GGUF_QTYPE_STORAGE_REMOVED_ID =
     (''removed-qtype-id'', ''GGUF qtype ID was removed from the pinned on-disk ABI'')"
| "storage_status_text YVEX_GGUF_QTYPE_STORAGE_RESERVED_ID =
     (''reserved-qtype-id'', ''GGUF qtype ID is reserved by the pinned on-disk ABI'')"
| "storage_status_text YVEX_GGUF_QTYPE_STORAGE_OUTSIDE_BASELINE =
     (''outside-on-disk-baseline'', ''GGUF qtype ID is outside the pinned on-disk ABI'')"
| "storage_status_text YVEX_GGUF_QTYPE_STORAGE_GEOMETRY_UNAVAILABLE =
     (''storage-geometry-unavailable'', ''admitted GGUF qtype has no storage geometry'')"
| "storage_status_text YVEX_GGUF_QTYPE_STORAGE_INVALID_RANK =
     (''invalid-rank'', ''GGUF tensor rank is outside the admitted range'')"
| "storage_status_text YVEX_GGUF_QTYPE_STORAGE_INVALID_DIMENSION =
     (''invalid-dimension'', ''GGUF tensor dimension is zero'')"
| "storage_status_text YVEX_GGUF_QTYPE_STORAGE_ROW_BLOCK_MISMATCH =
     (''row-width-block-mismatch'', ''GGUF row width is not divisible by qtype block width'')"
| "storage_status_text YVEX_GGUF_QTYPE_STORAGE_ELEMENT_COUNT_OVERFLOW =
     (''element-count-overflow'', ''GGUF tensor element count overflows'')"
| "storage_status_text YVEX_GGUF_QTYPE_STORAGE_ROW_BYTE_OVERFLOW =
     (''row-byte-overflow'', ''GGUF qtype row byte count overflows'')"
| "storage_status_text YVEX_GGUF_QTYPE_STORAGE_ROW_COUNT_OVERFLOW =
     (''row-count-overflow'', ''GGUF tensor row count overflows'')"
| "storage_status_text YVEX_GGUF_QTYPE_STORAGE_TOTAL_BYTE_OVERFLOW =
     (''total-byte-overflow'', ''GGUF tensor total byte count overflows'')"
| "storage_status_text YVEX_GGUF_QTYPE_STORAGE_EXPECTED_ACTUAL_MISMATCH =
     (''expected-actual-storage-mismatch'', ''GGUF tensor storage bytes do not match qtype row geometry'')"

definition yvex_gguf_qtype_storage_status_name :: "yvex_gguf_qtype_storage_status \<Rightarrow> string" where
  "yvex_gguf_qtype_storage_status_name status = fst (storage_status_text status)"

definition storage_status_reason :: "yvex_gguf_qtype_storage_status \<Rightarrow> string" where
  "storage_status_reason status = snd (storage_status_text status)"

section \<open>Storage\<close>

definition qtype_admission_status :: "yvex_gguf_qtype_geometry option \<Rightarrow> yvex_gguf_qtype_storage_status" where
  "qtype_admission_status geometry =
     (case geometry of None \<Rightarrow> YVEX_GGUF_QTYPE_STORAGE_UNKNOWN_ID
      | Some g \<Rightarrow>
          (case identity_status g of
             YVEX_GGUF_QTYPE_IDENTITY_REMOVED \<Rightarrow> YVEX_GGUF_QTYPE_STORAGE_REMOVED_ID
           | YVEX_GGUF_QTYPE_IDENTITY_RESERVED \<Rightarrow> YVEX_GGUF_QTYPE_STORAGE_RESERVED_ID
           | YVEX_GGUF_QTYPE_IDENTITY_OUTSIDE_BASELINE \<Rightarrow> YVEX_GGUF_QTYPE_STORAGE_OUTSIDE_BASELINE
           | YVEX_GGUF_QTYPE_IDENTITY_UNKNOWN \<Rightarrow> YVEX_GGUF_QTYPE_STORAGE_UNKNOWN_ID
           | YVEX_GGUF_QTYPE_IDENTITY_ADMITTED \<Rightarrow>
               if storage_class g = YVEX_GGUF_QTYPE_STORAGE_UNKNOWN \<or> block_size g = 0 \<or>
                  bytes_per_block g = 0
               then YVEX_GGUF_QTYPE_STORAGE_GEOMETRY_UNAVAILABLE else YVEX_GGUF_QTYPE_STORAGE_OK))"

definition set_storage_status ::
  "yvex_gguf_qtype_storage_result \<Rightarrow> yvex_gguf_qtype_storage_status \<Rightarrow>
   yvex_gguf_qtype_storage_status \<times> yvex_gguf_qtype_storage_result" where
  "set_storage_status out status = (status, out\<lparr>sr_status := status, sr_reason := storage_status_reason status\<rparr>)"

text \<open>The product of the outer dimensions; a product that overflows leaves the last one that did not.\<close>

fun row_count_loop :: "u64 \<Rightarrow> u64 list \<Rightarrow> bool \<times> u64" where
  "row_count_loop n [] = (True, n)"
| "row_count_loop n (d # ds) =
     (case checked_mul n d of None \<Rightarrow> (False, n) | Some m \<Rightarrow> row_count_loop m ds)"

definition zero_storage_result :: "u32 \<Rightarrow> u32 \<Rightarrow> yvex_gguf_qtype_storage_result" where
  "zero_storage_result qtype rank = \<lparr>sr_status = YVEX_GGUF_QTYPE_STORAGE_INVALID_ARGUMENT,
     sr_qtype = qtype, sr_rank = rank, row_width = 0, row_count = 0, element_count = 0, row_bytes = 0,
     sr_total_bytes = 0, sr_actual_bytes = 0,
     sr_reason = storage_status_reason YVEX_GGUF_QTYPE_STORAGE_INVALID_ARGUMENT\<rparr>"

definition yvex_gguf_qtype_tensor_storage ::
  "u32 \<Rightarrow> u64 list option \<Rightarrow> u32 \<Rightarrow>
   yvex_gguf_qtype_storage_status \<times> yvex_gguf_qtype_storage_result" where
  "yvex_gguf_qtype_tensor_storage qtype dims rank =
     (let out = zero_storage_result qtype rank; geometry = yvex_gguf_qtype_geometry_find qtype;
          status = qtype_admission_status geometry in
      case dims of None \<Rightarrow> (sr_status out, out)
      | Some all_dims \<Rightarrow>
      if status \<noteq> YVEX_GGUF_QTYPE_STORAGE_OK then set_storage_status out status
      else if rank = 0 \<or> rank > YVEX_GGUF_QTYPE_MAX_DIMS
      then set_storage_status out YVEX_GGUF_QTYPE_STORAGE_INVALID_RANK
      else
        let ds = take (unat rank) all_dims; g = the geometry in
        if \<exists>d \<in> set ds. d = 0 then set_storage_status out YVEX_GGUF_QTYPE_STORAGE_INVALID_DIMENSION
        else
          let out = out\<lparr>row_width := hd ds\<rparr> in
          if row_width out mod ucast (block_size g) \<noteq> 0
          then set_storage_status out YVEX_GGUF_QTYPE_STORAGE_ROW_BLOCK_MISMATCH
          else case checked_mul (row_width out div ucast (block_size g)) (ucast (bytes_per_block g)) of
            None \<Rightarrow> set_storage_status out YVEX_GGUF_QTYPE_STORAGE_ROW_BYTE_OVERFLOW
          | Some bytes \<Rightarrow>
              let (complete, rows) = row_count_loop 1 (tl ds);
                  out = out\<lparr>row_bytes := bytes, row_count := rows\<rparr>
              in if \<not> complete then set_storage_status out YVEX_GGUF_QTYPE_STORAGE_ROW_COUNT_OVERFLOW
                 else case checked_mul (row_width out) rows of
                   None \<Rightarrow> set_storage_status out YVEX_GGUF_QTYPE_STORAGE_ELEMENT_COUNT_OVERFLOW
                 | Some elements \<Rightarrow>
                     let out = out\<lparr>element_count := elements\<rparr> in
                     (case checked_mul bytes rows of
                        None \<Rightarrow> set_storage_status out YVEX_GGUF_QTYPE_STORAGE_TOTAL_BYTE_OVERFLOW
                      | Some bytes_total \<Rightarrow>
                          set_storage_status (out\<lparr>sr_total_bytes := bytes_total\<rparr>)
                            YVEX_GGUF_QTYPE_STORAGE_OK))"

definition yvex_gguf_qtype_validate_tensor_storage ::
  "u32 \<Rightarrow> u64 list option \<Rightarrow> u32 \<Rightarrow> u64 \<Rightarrow>
   yvex_gguf_qtype_storage_status \<times> yvex_gguf_qtype_storage_result" where
  "yvex_gguf_qtype_validate_tensor_storage qtype dims rank actual =
     (let (status, out) = yvex_gguf_qtype_tensor_storage qtype dims rank in
      if status \<noteq> YVEX_GGUF_QTYPE_STORAGE_OK then (status, out)
      else
        let out = out\<lparr>sr_actual_bytes := actual\<rparr> in
        if sr_total_bytes out \<noteq> actual
        then set_storage_status out YVEX_GGUF_QTYPE_STORAGE_EXPECTED_ACTUAL_MISMATCH
        else (status, out))"

definition yvex_gguf_qtype_supported_for_storage :: "u32 \<Rightarrow> bool \<times> string" where
  "yvex_gguf_qtype_supported_for_storage qtype =
     (let status = qtype_admission_status (yvex_gguf_qtype_geometry_find qtype)
      in (status = YVEX_GGUF_QTYPE_STORAGE_OK, storage_status_reason status))"

text \<open>The bytes of one row of the given number of elements, \<open>None\<close> when the call answers 0.\<close>

definition yvex_gguf_qtype_storage_bytes :: "u32 \<Rightarrow> u64 \<Rightarrow> u64 option \<times> string" where
  "yvex_gguf_qtype_storage_bytes qtype elements =
     (let (status, result) = yvex_gguf_qtype_tensor_storage qtype (Some [elements]) 1
      in (if status \<noteq> YVEX_GGUF_QTYPE_STORAGE_OK then None else Some (sr_total_bytes result),
          sr_reason result))"

section \<open>The registry is consistent\<close>

lemma registry_length: "length qtype_geometry = 43"
  by (simp add: qtype_geometry_def)

lemma registry_rows:
  "list_all (\<lambda>i. geo_qtype (qtype_geometry ! i) = of_nat i \<and>
     (identity_status (qtype_geometry ! i) = YVEX_GGUF_QTYPE_IDENTITY_ADMITTED \<longleftrightarrow>
        i \<le> 39 \<and> i \<notin> {4, 5, 31, 32, 33, 36, 37, 38}) \<and>
     (identity_status (qtype_geometry ! i) = YVEX_GGUF_QTYPE_IDENTITY_ADMITTED \<longrightarrow>
        storage_class (qtype_geometry ! i) \<noteq> YVEX_GGUF_QTYPE_STORAGE_UNKNOWN \<and>
        block_size (qtype_geometry ! i) \<noteq> 0 \<and> bytes_per_block (qtype_geometry ! i) \<noteq> 0)) [0..<43]"
  by code_simp

lemma registry_names_distinct: "distinct (map geo_name qtype_geometry)"
  by code_simp

lemma registry_row:
  assumes "q \<le> YVEX_GGUF_QTYPE_ABI_UPSTREAM_MAX_ID"
  shows "unat q < 43" "geo_qtype (qtype_geometry ! unat q) = q"
    "identity_status (qtype_geometry ! unat q) = YVEX_GGUF_QTYPE_IDENTITY_ADMITTED \<longleftrightarrow>
       unat q \<le> 39 \<and> unat q \<notin> {4, 5, 31, 32, 33, 36, 37, 38}"
    "identity_status (qtype_geometry ! unat q) = YVEX_GGUF_QTYPE_IDENTITY_ADMITTED \<Longrightarrow>
       storage_class (qtype_geometry ! unat q) \<noteq> YVEX_GGUF_QTYPE_STORAGE_UNKNOWN \<and>
       block_size (qtype_geometry ! unat q) \<noteq> 0 \<and> bytes_per_block (qtype_geometry ! unat q) \<noteq> 0"
proof -
  show "unat q < 43"
    using assms by (simp add: YVEX_GGUF_QTYPE_ABI_UPSTREAM_MAX_ID_def word_le_nat_alt)
  then have "unat q \<in> set [0..<43]" by simp
  with registry_rows show "geo_qtype (qtype_geometry ! unat q) = q"
    "identity_status (qtype_geometry ! unat q) = YVEX_GGUF_QTYPE_IDENTITY_ADMITTED \<longleftrightarrow>
       unat q \<le> 39 \<and> unat q \<notin> {4, 5, 31, 32, 33, 36, 37, 38}"
    "identity_status (qtype_geometry ! unat q) = YVEX_GGUF_QTYPE_IDENTITY_ADMITTED \<Longrightarrow>
       storage_class (qtype_geometry ! unat q) \<noteq> YVEX_GGUF_QTYPE_STORAGE_UNKNOWN \<and>
       block_size (qtype_geometry ! unat q) \<noteq> 0 \<and> bytes_per_block (qtype_geometry ! unat q) \<noteq> 0"
    unfolding list_all_iff by auto
qed

text \<open>The admitted identities.\<close>

definition qtype_admitted :: "u32 \<Rightarrow> bool" where
  "qtype_admitted q \<longleftrightarrow> unat q \<le> 39 \<and> unat q \<notin> {4, 5, 31, 32, 33, 36, 37, 38}"

lemma admission_ok_iff:
  "qtype_admission_status (yvex_gguf_qtype_geometry_find q) = YVEX_GGUF_QTYPE_STORAGE_OK \<longleftrightarrow> qtype_admitted q"
proof (cases "q \<le> YVEX_GGUF_QTYPE_ABI_UPSTREAM_MAX_ID")
  case True
  note r = registry_row [OF True]
  show ?thesis
    using r(3,4) True
    by (auto simp: qtype_admission_status_def yvex_gguf_qtype_geometry_find_def qtype_admitted_def
        split: yvex_gguf_qtype_identity_status.splits)
next
  case False
  then show ?thesis
    by (auto simp: qtype_admission_status_def yvex_gguf_qtype_geometry_find_def qtype_admitted_def
        YVEX_GGUF_QTYPE_ABI_UPSTREAM_MAX_ID_def word_le_nat_alt word_less_nat_alt)
qed

lemma admitted_geometry:
  assumes "qtype_admitted q"
  obtains g where "yvex_gguf_qtype_geometry_find q = Some g" "g = qtype_geometry ! unat q"
    "block_size g \<noteq> 0" "bytes_per_block g \<noteq> 0"
proof -
  have le: "q \<le> YVEX_GGUF_QTYPE_ABI_UPSTREAM_MAX_ID"
    using assms by (simp add: qtype_admitted_def YVEX_GGUF_QTYPE_ABI_UPSTREAM_MAX_ID_def word_le_nat_alt)
  show thesis
    using that registry_row(3,4) [OF le] le assms
    by (auto simp: yvex_gguf_qtype_geometry_find_def qtype_admitted_def)
qed

section \<open>Storage is exact\<close>

lemma unat_ucast_u32 [simp]: "unat (ucast (x :: u32) :: u64) = unat x"
proof -
  have "unat x < 2 ^ 32" using unsigned_less [of x, where ?'a = nat] by simp
  then show ?thesis by (simp add: unsigned_ucast_eq take_bit_nat_eq_self)
qed

lemma row_count_loop:
  "0 \<notin> set ds \<Longrightarrow>
     (fst (row_count_loop n ds) \<longleftrightarrow> unat n * prod_list (map unat ds) < 2 ^ 64) \<and>
     (fst (row_count_loop n ds) \<longrightarrow> unat (snd (row_count_loop n ds)) = unat n * prod_list (map unat ds))"
proof (induction ds arbitrary: n)
  case (Cons d ds)
  have "0 < prod_list (map unat ds)"
    using Cons.prems by (induction ds) (auto simp: unat_gt_0)
  then have le: "unat n * unat d \<le> unat n * (unat d * prod_list (map unat ds))"
    unfolding mult.assoc [symmetric] by (metis mult.right_neutral mult_le_mono2 Suc_leI One_nat_def)
  show ?case
  proof (cases "checked_mul n d")
    case None
    then have "2 ^ 64 \<le> unat n * unat d" by (simp only: mul.refused_iff)
    then have "\<not> unat n * (unat d * prod_list (map unat ds)) < 2 ^ 64" by (rule leD [OF order_trans [OF _ le]])
    then show ?thesis using None by simp
  next
    case (Some m)
    then show ?thesis using Cons unat_checked_mul [OF Some] by (simp add: mult.assoc)
  qed
qed (use unat_u64_less in simp)

text \<open>The successful path of the storage computation, as numbers.\<close>

definition storable :: "yvex_gguf_qtype_geometry \<Rightarrow> u64 list \<Rightarrow> bool" where
  "storable g ds \<longleftrightarrow> ds \<noteq> [] \<and> length ds \<le> 4 \<and> 0 \<notin> set ds \<and> unat (block_size g) dvd unat (hd ds) \<and>
     prod_list (map unat ds) < 2 ^ 64 \<and>
     prod_list (map unat ds) div unat (block_size g) * unat (bytes_per_block g) < 2 ^ 64"

lemma storage_arithmetic:
  fixes w r b y :: nat
  assumes "b dvd w"
  shows "w * r div b * y = w div b * y * r"
  using assms by (cases "b = 0") (auto elim!: dvdE simp: ac_simps)

lemma storage_tail:
  fixes M P :: nat
  assumes "unat bytes = M" "unat rows = P"
    and R: "R = (case checked_mul w rows of
          None \<Rightarrow> set_storage_status o2 YVEX_GGUF_QTYPE_STORAGE_ELEMENT_COUNT_OVERFLOW
        | Some elements \<Rightarrow>
            (case checked_mul bytes rows of
               None \<Rightarrow> set_storage_status (o2\<lparr>element_count := elements\<rparr>)
                 YVEX_GGUF_QTYPE_STORAGE_TOTAL_BYTE_OVERFLOW
             | Some bytes_total \<Rightarrow>
                 set_storage_status (o2\<lparr>element_count := elements, sr_total_bytes := bytes_total\<rparr>)
                   YVEX_GGUF_QTYPE_STORAGE_OK))"
  shows "(fst R = YVEX_GGUF_QTYPE_STORAGE_OK \<longleftrightarrow> unat w * P < 2 ^ 64 \<and> M * P < 2 ^ 64) \<and>
    (fst R = YVEX_GGUF_QTYPE_STORAGE_OK \<longrightarrow> row_width (snd R) = row_width o2 \<and>
       unat (element_count (snd R)) = unat w * P \<and> unat (sr_total_bytes (snd R)) = M * P)"
proof -
  have mul: "checked_mul x rows = (if unat x * P < 2 ^ 64 then Some (x * rows) else None)" for x
    using assms(2) by (simp only: checked_mul_eq)
  have val: "unat (x * rows) = unat x * P" if "unat x * P < 2 ^ 64" for x
    using unat_checked_mul [of x rows "x * rows"] that assms(2) by (simp only: mul if_True)
  show ?thesis
    using val [of w] val [of bytes] assms(1)
    by (cases "unat w * P < 2 ^ 64"; cases "M * P < 2 ^ 64")
      (simp_all only: R mul if_True if_False option.case set_storage_status_def fst_conv snd_conv, simp_all)
qed

lemma storage_ok_iff:
  assumes adm: "qtype_admitted q" and len: "length ds = unat rank"
    and g: "yvex_gguf_qtype_geometry_find q = Some g"
  shows "fst (yvex_gguf_qtype_tensor_storage q (Some ds) rank) = YVEX_GGUF_QTYPE_STORAGE_OK \<longleftrightarrow> storable g ds"
    and "fst (yvex_gguf_qtype_tensor_storage q (Some ds) rank) = YVEX_GGUF_QTYPE_STORAGE_OK \<Longrightarrow>
      (let r = snd (yvex_gguf_qtype_tensor_storage q (Some ds) rank) in
       row_width r = hd ds \<and> unat (element_count r) = prod_list (map unat ds) \<and>
       unat (sr_total_bytes r) = prod_list (map unat ds) div unat (block_size g) * unat (bytes_per_block g))"
proof -
  let ?R = "yvex_gguf_qtype_tensor_storage q (Some ds) rank"
  have b: "block_size g \<noteq> 0" "bytes_per_block g \<noteq> 0" using admitted_geometry [OF adm] g by auto
  have ok: "qtype_admission_status (Some g) = YVEX_GGUF_QTYPE_STORAGE_OK"
    using admission_ok_iff [of q] adm g by simp
  have rank: "rank = 0 \<longleftrightarrow> ds = []" "rank > YVEX_GGUF_QTYPE_MAX_DIMS \<longleftrightarrow> length ds > 4"
    using len by (auto simp: YVEX_GGUF_QTYPE_MAX_DIMS_def word_less_nat_alt unat_eq_0)
  have "(fst ?R = YVEX_GGUF_QTYPE_STORAGE_OK \<longleftrightarrow> storable g ds) \<and>
    (fst ?R = YVEX_GGUF_QTYPE_STORAGE_OK \<longrightarrow> row_width (snd ?R) = hd ds \<and>
       unat (element_count (snd ?R)) = prod_list (map unat ds) \<and>
       unat (sr_total_bytes (snd ?R)) = prod_list (map unat ds) div unat (block_size g) * unat (bytes_per_block g))"
  proof (cases "ds = [] \<or> length ds > 4 \<or> 0 \<in> set ds")
    case True
    then show ?thesis
      using len ok g rank
      by (auto simp: yvex_gguf_qtype_tensor_storage_def set_storage_status_def Let_def storable_def)
  next
    case False
    then obtain w rs where ds: "ds = w # rs" by (cases ds) auto
    let ?B = "ucast (block_size g) :: u64" and ?Y = "ucast (bytes_per_block g) :: u64"
    have nz: "0 \<notin> set rs" "0 < unat w" using False ds by (auto simp: unat_gt_0)
    obtain complete rows where loop: "row_count_loop 1 rs = (complete, rows)" by (rule prod.exhaust)
    have lp: "complete \<longleftrightarrow> prod_list (map unat rs) < 2 ^ 64" "complete \<longrightarrow> unat rows = prod_list (map unat rs)"
      using row_count_loop [OF nz(1), of 1] loop by simp_all
    have pos: "0 < prod_list (map unat rs)" using nz(1) by (induction rs) (auto simp: unat_gt_0)
    have div: "w mod ?B = 0 \<longleftrightarrow> unat (block_size g) dvd unat w"
      by (simp add: word_unat_eq_iff unat_mod dvd_eq_mod_eq_0)
    have q: "unat (w div ?B) = unat w div unat (block_size g)" by (simp add: unat_div)
    let ?o1 = "(zero_storage_result q rank)\<lparr>row_width := w\<rparr>"
    let ?M = "unat w div unat (block_size g) * unat (bytes_per_block g)"
    show ?thesis
    proof (cases "unat (block_size g) dvd unat w")
      case False
      then show ?thesis
        using len ok g rank ds \<open>\<not> (ds = [] \<or> length ds > 4 \<or> 0 \<in> set ds)\<close>
        by (auto simp: yvex_gguf_qtype_tensor_storage_def set_storage_status_def Let_def storable_def div)
    next
      case dvd: True
      have arith: "unat w * prod_list (map unat rs) div unat (block_size g) * unat (bytes_per_block g) =
          ?M * prod_list (map unat rs)"
        by (rule storage_arithmetic [OF dvd])
      have le: "?M \<le> ?M * prod_list (map unat rs)" "prod_list (map unat rs) \<le> unat w * prod_list (map unat rs)"
        using pos nz(2) by simp_all
      have "?R = (case checked_mul (w div ?B) ?Y of
            None \<Rightarrow> set_storage_status ?o1 YVEX_GGUF_QTYPE_STORAGE_ROW_BYTE_OVERFLOW
          | Some bytes \<Rightarrow>
              let out = ?o1\<lparr>row_bytes := bytes, row_count := rows\<rparr>
              in if \<not> complete then set_storage_status out YVEX_GGUF_QTYPE_STORAGE_ROW_COUNT_OVERFLOW
                 else case checked_mul w rows of
                   None \<Rightarrow> set_storage_status out YVEX_GGUF_QTYPE_STORAGE_ELEMENT_COUNT_OVERFLOW
                 | Some elements \<Rightarrow>
                     (case checked_mul bytes rows of
                        None \<Rightarrow> set_storage_status (out\<lparr>element_count := elements\<rparr>)
                          YVEX_GGUF_QTYPE_STORAGE_TOTAL_BYTE_OVERFLOW
                      | Some bytes_total \<Rightarrow>
                          set_storage_status (out\<lparr>element_count := elements, sr_total_bytes := bytes_total\<rparr>)
                            YVEX_GGUF_QTYPE_STORAGE_OK))"
        using len ok g rank ds dvd False
        by (simp add: yvex_gguf_qtype_tensor_storage_def Let_def div loop split: option.split)
      note R = this
      let ?P = "prod_list (map unat rs)"
      have st: "storable g ds \<longleftrightarrow> unat w * ?P < 2 ^ 64 \<and> ?M * ?P < 2 ^ 64"
        unfolding arith [symmetric] using False ds dvd by (simp add: storable_def)
      have val: "prod_list (map unat ds) = unat w * ?P" "hd ds = w" using ds by simp_all
      show ?thesis
      proof (cases "checked_mul (w div ?B) ?Y")
        case None
        then have "2 ^ 64 \<le> ?M" by (simp only: mul.refused_iff q unat_ucast_u32)
        then have "\<not> ?M * ?P < 2 ^ 64" by (rule leD [OF order_trans [OF _ le(1)]])
        then show ?thesis using None st by (simp add: R set_storage_status_def)
      next
        case (Some bytes)
        then have bytes: "unat bytes = ?M" using unat_checked_mul [OF Some] q by simp
        show ?thesis
        proof (cases complete)
          case False
          then have "2 ^ 64 \<le> ?P" using lp(1) by (simp only: not_less)
          then have "\<not> unat w * ?P < 2 ^ 64" by (rule leD [OF order_trans [OF _ le(2)]])
          then show ?thesis using Some False st by (simp add: R set_storage_status_def Let_def)
        next
          case True
          then have rows: "unat rows = ?P" using lp(2) by simp
          have "?R = (case checked_mul w rows of
                 None \<Rightarrow> set_storage_status (?o1\<lparr>row_bytes := bytes, row_count := rows\<rparr>)
                   YVEX_GGUF_QTYPE_STORAGE_ELEMENT_COUNT_OVERFLOW
               | Some elements \<Rightarrow>
                   (case checked_mul bytes rows of
                      None \<Rightarrow> set_storage_status (?o1\<lparr>row_bytes := bytes, row_count := rows, element_count := elements\<rparr>)
                        YVEX_GGUF_QTYPE_STORAGE_TOTAL_BYTE_OVERFLOW
                    | Some bytes_total \<Rightarrow>
                        set_storage_status (?o1\<lparr>row_bytes := bytes, row_count := rows, element_count := elements,
                          sr_total_bytes := bytes_total\<rparr>) YVEX_GGUF_QTYPE_STORAGE_OK))"
            using True by (simp add: R Some Let_def)
          from storage_tail [OF bytes rows this] show ?thesis
            unfolding st val arith by simp
        qed
      qed
    qed
  qed
  then show "fst ?R = YVEX_GGUF_QTYPE_STORAGE_OK \<longleftrightarrow> storable g ds"
    and "fst ?R = YVEX_GGUF_QTYPE_STORAGE_OK \<Longrightarrow> (let r = snd ?R in
       row_width r = hd ds \<and> unat (element_count r) = prod_list (map unat ds) \<and>
       unat (sr_total_bytes r) = prod_list (map unat ds) div unat (block_size g) * unat (bytes_per_block g))"
    by (simp_all add: Let_def)
qed

section \<open>Properties\<close>

text \<open>
  (C24) Storage is exact: for an admitted type the computation accepts exactly the shapes of rank one
  to four with positive dimensions whose row width is a whole number of blocks and whose element and
  byte counts fit in 64 bits, and then returns the mathematical counts.
\<close>

theorem qtype_storage_exact:
  assumes "qtype_admitted q" and "length ds = unat rank"
  shows "\<exists>g. yvex_gguf_qtype_geometry_find q = Some g \<and>
    (fst (yvex_gguf_qtype_tensor_storage q (Some ds) rank) = YVEX_GGUF_QTYPE_STORAGE_OK \<longleftrightarrow>
       ds \<noteq> [] \<and> length ds \<le> 4 \<and> 0 \<notin> set ds \<and> unat (block_size g) dvd unat (hd ds) \<and>
       prod_list (map unat ds) < 2 ^ 64 \<and>
       prod_list (map unat ds) div unat (block_size g) * unat (bytes_per_block g) < 2 ^ 64) \<and>
    (fst (yvex_gguf_qtype_tensor_storage q (Some ds) rank) = YVEX_GGUF_QTYPE_STORAGE_OK \<longrightarrow>
       unat (element_count (snd (yvex_gguf_qtype_tensor_storage q (Some ds) rank))) = prod_list (map unat ds) \<and>
       unat (sr_total_bytes (snd (yvex_gguf_qtype_tensor_storage q (Some ds) rank))) =
         prod_list (map unat ds) div unat (block_size g) * unat (bytes_per_block g))"
proof -
  obtain g where g: "yvex_gguf_qtype_geometry_find q = Some g" using admitted_geometry [OF assms(1)] by blast
  show ?thesis
    using storage_ok_iff [OF assms g] g unfolding storable_def Let_def by blast
qed

theorem qtype_storage_exact_witness:
  "\<exists>g. yvex_gguf_qtype_geometry_find 12 = Some g \<and>
     (fst (yvex_gguf_qtype_tensor_storage 12 (Some [512, 3]) 2) = YVEX_GGUF_QTYPE_STORAGE_OK \<longleftrightarrow>
        unat (block_size g) dvd 512 \<and> 1536 div unat (block_size g) * unat (bytes_per_block g) < 2 ^ 64)"
  using qtype_storage_exact [of 12 "[512, 3]" 2] by (auto simp: qtype_admitted_def)

text \<open>
  (C25) Refusals are by identity: outside the admitted identities the storage computation reports
  removed, newer or unknown identities as such for every shape, and computes no size.
\<close>

theorem qtype_refusals_by_identity:
  assumes "\<not> qtype_admitted q"
  shows "fst (yvex_gguf_qtype_tensor_storage q (Some ds) rank) =
      (if unat q > 42 then YVEX_GGUF_QTYPE_STORAGE_UNKNOWN_ID
       else if unat q \<ge> 40 then YVEX_GGUF_QTYPE_STORAGE_OUTSIDE_BASELINE
       else YVEX_GGUF_QTYPE_STORAGE_REMOVED_ID) \<and>
    sr_total_bytes (snd (yvex_gguf_qtype_tensor_storage q (Some ds) rank)) = 0 \<and>
    \<not> fst (yvex_gguf_qtype_supported_for_storage q)"
proof -
  let ?st = "qtype_admission_status (yvex_gguf_qtype_geometry_find q)"
  have refused: "?st \<noteq> YVEX_GGUF_QTYPE_STORAGE_OK" using admission_ok_iff [of q] assms by simp
  have "?st = (if unat q > 42 then YVEX_GGUF_QTYPE_STORAGE_UNKNOWN_ID
       else if unat q \<ge> 40 then YVEX_GGUF_QTYPE_STORAGE_OUTSIDE_BASELINE
       else YVEX_GGUF_QTYPE_STORAGE_REMOVED_ID)"
  proof (cases "unat q > 42")
    case True
    then show ?thesis
      by (simp add: yvex_gguf_qtype_geometry_find_def YVEX_GGUF_QTYPE_ABI_UPSTREAM_MAX_ID_def
          qtype_admission_status_def word_less_nat_alt)
  next
    case False
    then have "unat q \<in> set [0..<43]" by auto
    moreover have "list_all (\<lambda>i. i \<le> 39 \<and> i \<notin> {4, 5, 31, 32, 33, 36, 37, 38} \<or>
        identity_status (qtype_geometry ! i) = (if i \<ge> 40 then YVEX_GGUF_QTYPE_IDENTITY_OUTSIDE_BASELINE
          else YVEX_GGUF_QTYPE_IDENTITY_REMOVED)) [0..<43]"
      by code_simp
    ultimately have "identity_status (qtype_geometry ! unat q) =
        (if unat q \<ge> 40 then YVEX_GGUF_QTYPE_IDENTITY_OUTSIDE_BASELINE
         else YVEX_GGUF_QTYPE_IDENTITY_REMOVED)"
      using assms unfolding list_all_iff qtype_admitted_def by blast
    then show ?thesis
      using False by (simp add: yvex_gguf_qtype_geometry_find_def YVEX_GGUF_QTYPE_ABI_UPSTREAM_MAX_ID_def
          qtype_admission_status_def word_less_nat_alt)
  qed
  then show ?thesis
    using refused by (simp add: yvex_gguf_qtype_tensor_storage_def set_storage_status_def Let_def
        zero_storage_result_def yvex_gguf_qtype_supported_for_storage_def)
qed

theorem qtype_refusals_by_identity_witness:
  "fst (yvex_gguf_qtype_tensor_storage 4 (Some [32]) 1) = YVEX_GGUF_QTYPE_STORAGE_REMOVED_ID"
  using qtype_refusals_by_identity [of 4 "[32]" 1] by (simp add: qtype_admitted_def)

text \<open>
  Names and identities correspond: the name of every registered identity resolves back to its row, which
  carries that identity.
\<close>

theorem qtype_name_roundtrip:
  assumes "unat q \<le> 42"
  shows "yvex_gguf_qtype_geometry_find_by_name (Some (yvex_gguf_qtype_name q)) = yvex_gguf_qtype_geometry_find q \<and>
    (\<exists>g. yvex_gguf_qtype_geometry_find q = Some g \<and> geo_qtype g = q)"
proof -
  have le: "q \<le> YVEX_GGUF_QTYPE_ABI_UPSTREAM_MAX_ID"
    using assms by (simp add: YVEX_GGUF_QTYPE_ABI_UPSTREAM_MAX_ID_def word_le_nat_alt)
  let ?row = "qtype_geometry ! unat q"
  have find: "yvex_gguf_qtype_geometry_find q = Some ?row" using le by (simp add: yvex_gguf_qtype_geometry_find_def)
  have hit: "geo_name (qtype_geometry ! i) = geo_name ?row \<longleftrightarrow> i = unat q" if "i < 43" for i
    using nth_eq_iff_index_eq [OF registry_names_distinct, of i "unat q"] that registry_row(1) [OF le]
    by (simp add: registry_length)
  have "first_index (\<lambda>i. geo_name (qtype_geometry ! i) = geo_name ?row) 43 = unat q"
    using hit registry_row(1) [OF le] by (intro first_index_eqI) auto
  then have "yvex_gguf_qtype_geometry_find_by_name (Some (yvex_gguf_qtype_name q)) = Some ?row"
    using registry_row(1) [OF le]
    by (simp add: yvex_gguf_qtype_geometry_find_by_name_def yvex_gguf_qtype_name_def find Let_def
        yvex_gguf_qtype_geometry_count_def registry_length)
  then show ?thesis using find registry_row(2) [OF le] by simp
qed

theorem qtype_name_roundtrip_witness:
  "yvex_gguf_qtype_geometry_find_by_name (Some (yvex_gguf_qtype_name 30)) = yvex_gguf_qtype_geometry_find 30"
  using qtype_name_roundtrip [of 30] by simp

end
