(* ===== verification/Gguf_Text.thy ===== *)
theory Gguf_Text
  imports Yvex_Prelude
begin

unbundle bit_operations_syntax

text \<open>
  The two text predicates of the GGUF reader, \<^verbatim>\<open>src/gguf/core.c\<close>: the validity of UTF-8 and the grammar of
  metadata keys, with their specifications.
\<close>

section \<open>UTF-8\<close>

text \<open>
  The lead byte of a multi-byte sequence: how many continuation bytes follow, the bits it carries,
  and the least code point that needs the length.
\<close>

definition utf8_lead :: "u8 \<Rightarrow> (nat \<times> u32 \<times> u32) option" where
  "utf8_lead first =
     (if first \<ge> 0xc2 \<and> first \<le> 0xdf then Some (1, ucast (first AND 0x1f), 0x80)
      else if first \<ge> 0xe0 \<and> first \<le> 0xef then Some (2, ucast (first AND 0x0f), 0x800)
      else if first \<ge> 0xf0 \<and> first \<le> 0xf4 then Some (3, ucast (first AND 0x07), 0x10000)
      else None)"

fun utf8_continue :: "nat \<Rightarrow> u32 \<Rightarrow> u8 list \<Rightarrow> u32 option" where
  "utf8_continue 0 codepoint text = Some codepoint"
| "utf8_continue (Suc need) codepoint [] = None"
| "utf8_continue (Suc need) codepoint (c # text) =
     (if c AND 0xc0 \<noteq> 0x80 then None
      else utf8_continue need (push_bit 6 codepoint OR ucast (c AND 0x3f)) text)"

function utf8_valid :: "u8 list \<Rightarrow> bool" where
  "utf8_valid [] = True"
| "utf8_valid (first # text) =
     (if first < 0x80 then utf8_valid text
      else case utf8_lead first of
        None \<Rightarrow> False
      | Some (need, codepoint, minimum) \<Rightarrow>
          if need > length text then False
          else case utf8_continue need codepoint text of
            None \<Rightarrow> False
          | Some cp \<Rightarrow>
              if cp < minimum \<or> cp > 0x10ffff \<or> (cp \<ge> 0xd800 \<and> cp \<le> 0xdfff) then False
              else utf8_valid (drop need text))"
  by pat_completeness auto
termination
  by (relation "measure length") (auto simp: utf8_lead_def split: if_splits)

text \<open>The encoding of a Unicode scalar value.\<close>

definition unicode_scalar :: "nat \<Rightarrow> bool" where
  "unicode_scalar cp \<longleftrightarrow> cp < 0xd800 \<or> (0xe000 \<le> cp \<and> cp \<le> 0x10ffff)"

definition utf8_encode :: "nat \<Rightarrow> u8 list" where
  "utf8_encode cp =
     (if cp < 0x80 then [of_nat cp]
      else if cp < 0x800 then [of_nat (0xc0 + cp div 64), of_nat (0x80 + cp mod 64)]
      else if cp < 0x10000 then
        [of_nat (0xe0 + cp div 4096), of_nat (0x80 + cp div 64 mod 64), of_nat (0x80 + cp mod 64)]
      else [of_nat (0xf0 + cp div 262144), of_nat (0x80 + cp div 4096 mod 64),
        of_nat (0x80 + cp div 64 mod 64), of_nat (0x80 + cp mod 64)])"

text \<open>Bytes read through their numbers.\<close>

lemma unat_u8_less: "unat (c :: u8) < 256"
  using unsigned_less [of c, where ?'a = nat] by simp

lemma u8_bits:
  "(c AND 0xc0 = 0x80) = (0x80 \<le> unat c \<and> unat c \<le> 0xbf)"
  "unat (c AND 0x3f) = unat c mod 64" "unat (c AND 0x1f) = unat c mod 32"
  "unat (c AND 0x0f) = unat c mod 16" "unat (c AND 0x07) = unat c mod 8" for c :: u8
proof -
  have low: "unat (c AND mask n) = unat c mod 2 ^ n" for n
    by (simp only: take_bit_eq_mask [symmetric] unsigned_take_bit_eq) (simp only: take_bit_eq_mod)
  show "unat (c AND 0x3f) = unat c mod 64" "unat (c AND 0x1f) = unat c mod 32"
    "unat (c AND 0x0f) = unat c mod 16" "unat (c AND 0x07) = unat c mod 8"
    using low [of 6] low [of 5] low [of 4] low [of 3] by (simp_all add: mask_eq_exp_minus_1)
  have "(c AND 0x3f) AND (c AND 0xc0) = c AND (0x3f AND 0xc0)"
    by (rule bit_eqI) (auto simp only: bit_and_iff)
  then have "(c AND 0x3f) AND (c AND 0xc0) = 0" by simp
  moreover have "(c AND 0x3f) OR (c AND 0xc0) = c AND (0x3f OR 0xc0)"
    by (rule bit_eqI) (auto simp only: bit_and_iff bit_or_iff)
  moreover have "c AND 0xff = c"
    using low [of 8] unat_u8_less [of c] by (simp add: word_unat_eq_iff mask_eq_exp_minus_1)
  ultimately have sum: "(c AND 0x3f) + (c AND 0xc0) = c" using word_plus_and_or [of "c AND 0x3f" "c AND 0xc0"] by simp
  have "unat c mod 64 \<le> unat c" by simp
  then have "unat (c AND 0xc0) = unat c - unat c mod 64"
    using sum unat_sub [of "c AND 0x3f" c] \<open>unat (c AND 0x3f) = unat c mod 64\<close>
    by (metis add_diff_cancel_left' word_le_nat_alt)
  then have "c AND 0xc0 = 0x80 \<longleftrightarrow> unat c - unat c mod 64 = 128" by (simp add: word_unat_eq_iff)
  also have "\<dots> \<longleftrightarrow> unat c div 64 = 2"
    using minus_mod_eq_mult_div [of "unat c" 64] by auto
  also have "\<dots> \<longleftrightarrow> 0x80 \<le> unat c \<and> unat c \<le> 0xbf" by auto
  finally show "(c AND 0xc0 = 0x80) = (0x80 \<le> unat c \<and> unat c \<le> 0xbf)" .
qed

lemma unat_shift_or:
  fixes x y :: u32
  assumes "unat y < 64" "unat x < 2 ^ 26"
  shows "unat (push_bit 6 x OR y) = 64 * unat x + unat y"
proof -
  have "push_bit 6 x AND y = 0"
  proof (rule bit_eqI)
    fix n
    have "take_bit 6 y = y"
      using assms(1) by (simp add: word_unat_eq_iff unsigned_take_bit_eq take_bit_nat_eq_self)
    then have "bit y n \<Longrightarrow> n < 6" by (metis bit_take_bit_iff)
    then show "bit (push_bit 6 x AND y) n = bit 0 n" by (auto simp: bit_and_iff bit_push_bit_iff)
  qed
  then have "push_bit 6 x OR y = push_bit 6 x + y" using word_plus_and_or [of "push_bit 6 x" y] by simp
  moreover have "unat (push_bit 6 x) = 64 * unat x"
    using assms(2) by (simp add: push_bit_eq_mult unat_word_ariths)
  ultimately show ?thesis using assms by (simp add: unat_word_ariths)
qed

lemma unat_ucast_u8 [simp]: "unat (ucast (c :: u8) :: u32) = unat c"
  using unat_u8_less [of c] by (simp add: unsigned_ucast_eq take_bit_nat_eq_self)

text \<open>Continuation bytes over numbers.\<close>

fun continue_nat :: "nat \<Rightarrow> nat \<Rightarrow> u8 list \<Rightarrow> nat option" where
  "continue_nat 0 x text = Some x"
| "continue_nat (Suc need) x [] = None"
| "continue_nat (Suc need) x (c # text) =
     (if 0x80 \<le> unat c \<and> unat c \<le> 0xbf then continue_nat need (64 * x + unat c mod 64) text else None)"

lemma utf8_continue_nat:
  "(unat x + 1) * 64 ^ need \<le> 2 ^ 32 \<Longrightarrow>
     map_option unat (utf8_continue need x bs) = continue_nat need (unat x) bs"
proof (induction need x bs rule: utf8_continue.induct)
  case (3 need x c bs)
  have "unat x + 1 \<le> (unat x + 1) * 64 ^ need"
    using mult_le_mono2 [of 1 "64 ^ need" "unat x + 1"] by simp
  with 3(2) have "unat x < 2 ^ 26" by simp
  moreover have small: "unat (c AND 0x3f) < 64" by (simp add: u8_bits)
  ultimately have v: "unat (push_bit 6 x OR ucast (c AND 0x3f)) = 64 * unat x + unat c mod 64"
    using unat_shift_or [of "ucast (c AND 0x3f)" x] by (simp add: u8_bits)
  have "(64 * unat x + unat c mod 64 + 1) * 64 ^ need \<le> (64 * (unat x + 1)) * 64 ^ need"
    by (rule mult_le_mono1) (simp add: Suc_le_eq)
  also have "\<dots> \<le> 2 ^ 32" using 3(2) by (simp add: algebra_simps)
  finally show ?case using 3(1) v u8_bits(1) [of c] by simp
qed simp_all

definition lead_nat :: "nat \<Rightarrow> (nat \<times> nat \<times> nat) option" where
  "lead_nat f =
     (if 0xc2 \<le> f \<and> f \<le> 0xdf then Some (1, f mod 32, 0x80)
      else if 0xe0 \<le> f \<and> f \<le> 0xef then Some (2, f mod 16, 0x800)
      else if 0xf0 \<le> f \<and> f \<le> 0xf4 then Some (3, f mod 8, 0x10000)
      else None)"

lemma utf8_step:
  assumes "0x80 \<le> unat first"
  shows "utf8_valid (first # bs) = (case lead_nat (unat first) of None \<Rightarrow> False
    | Some (need, x, least) \<Rightarrow> need \<le> length bs \<and>
        (case continue_nat need x bs of None \<Rightarrow> False
         | Some cp \<Rightarrow> least \<le> cp \<and> unicode_scalar cp \<and> utf8_valid (drop need bs)))"
proof -
  have hi: "\<not> first < 0x80" using assms by (simp add: word_less_nat_alt)
  have lead: "map_option (\<lambda>(n, x, m). (n, unat x, unat m)) (utf8_lead first) = lead_nat (unat first)"
    by (simp add: utf8_lead_def lead_nat_def word_le_nat_alt u8_bits)
  show ?thesis
  proof (cases "utf8_lead first")
    case None
    then show ?thesis using hi lead by (simp add: lead [symmetric])
  next
    case (Some l)
    obtain need x least where l: "l = (need, x, least)" by (rule prod_cases3)
    have "need \<le> 3 \<and> unat x < 32"
      using Some l mod_less_divisor [of 32 "unat first"] mod_less_divisor [of 16 "unat first"]
        mod_less_divisor [of 8 "unat first"]
      by (auto simp: utf8_lead_def u8_bits split: if_splits)
    then have "(unat x + 1) * 64 ^ need \<le> 32 * 64 ^ 3"
      by (intro mult_le_mono power_increasing) auto
    then have "(unat x + 1) * 64 ^ need \<le> 2 ^ 32" by simp
    from utf8_continue_nat [OF this, of bs, symmetric] show ?thesis
      using hi Some l
      by (cases "utf8_continue need x bs")
        (auto simp: lead [symmetric] word_less_nat_alt word_le_nat_alt unicode_scalar_def)
  qed
qed

lemma continue_nat_Suc:
  "continue_nat (Suc need) x bs = (case bs of [] \<Rightarrow> None
     | c # rest \<Rightarrow> if 0x80 \<le> unat c \<and> unat c \<le> 0xbf
         then continue_nat need (64 * x + unat c mod 64) rest else None)"
  by (cases bs) simp_all

lemma continue_nat_Some:
  "continue_nat 1 x bs = Some cp \<longleftrightarrow>
     (\<exists>c rest. bs = c # rest \<and> 0x80 \<le> unat c \<and> unat c \<le> 0xbf \<and> cp = 64 * x + unat c mod 64)"
  "continue_nat 2 x bs = Some cp \<longleftrightarrow>
     (\<exists>c d rest. bs = c # d # rest \<and> 0x80 \<le> unat c \<and> unat c \<le> 0xbf \<and> 0x80 \<le> unat d \<and> unat d \<le> 0xbf \<and>
        cp = 64 * (64 * x + unat c mod 64) + unat d mod 64)"
  "continue_nat 3 x bs = Some cp \<longleftrightarrow>
     (\<exists>c d e rest. bs = c # d # e # rest \<and> 0x80 \<le> unat c \<and> unat c \<le> 0xbf \<and> 0x80 \<le> unat d \<and>
        unat d \<le> 0xbf \<and> 0x80 \<le> unat e \<and> unat e \<le> 0xbf \<and>
        cp = 64 * (64 * (64 * x + unat c mod 64) + unat d mod 64) + unat e mod 64)"
  by (auto simp: numeral_2_eq_2 numeral_3_eq_3 continue_nat_Suc simp del: continue_nat.simps(2,3)
      split: if_splits list.splits)

text \<open>A valid text starts with the encoding of a scalar value, and the rest is valid.\<close>

lemma u8_eqI: "unat c = n \<Longrightarrow> c = (of_nat n :: u8)"
  using unat_u8_less [of c] by (auto simp: word_unat_eq_iff unat_of_nat)

lemma mod_window:
  fixes n b m :: nat
  assumes "b mod m = 0" "b \<le> n" "n < b + m"
  shows "n = b + n mod m"
proof -
  obtain k where k: "n = b + k" "k < m" using assms(2,3) le_Suc_ex by force
  have "(b + k) mod m = k mod m" by (metis add_0 assms(1) mod_add_left_eq)
  then show ?thesis using k by simp
qed

lemma cont_split: "0x80 \<le> n \<Longrightarrow> n \<le> 0xbf \<Longrightarrow> n = 0x80 + n mod 64" for n :: nat
  using mod_window [of 128 64 n] by simp

text \<open>Base-64 digits.\<close>

lemma digits_64:
  fixes x :: nat
  assumes "c < 64" "d < 64"
  shows "(64 * (64 * x + c) + d) div 64 mod 64 = c" "(64 * (64 * x + c) + d) mod 64 = d"
    "(64 * (64 * x + c) + d) div 4096 = x"
proof -
  have one: "(64 * y + d) div 64 = y" "(64 * y + d) mod 64 = d" for y :: nat using assms(2) by simp_all
  show "(64 * (64 * x + c) + d) div 64 mod 64 = c" "(64 * (64 * x + c) + d) mod 64 = d"
    using one [of "64 * x + c"] assms(1) by simp_all
  have "(64 * (64 * x + c) + d) div 4096 = (64 * (64 * x + c) + d) div 64 div 64"
    by (simp only: div_mult2_eq [symmetric]) simp
  then show "(64 * (64 * x + c) + d) div 4096 = x" using one [of "64 * x + c"] assms(1) by simp
qed

lemma digits_64_3:
  fixes x :: nat
  assumes "c < 64" "d < 64" "e < 64"
  shows "(64 * (64 * (64 * x + c) + d) + e) div 4096 mod 64 = c"
    "(64 * (64 * (64 * x + c) + d) + e) div 262144 = x"
proof -
  have four: "(64 * (64 * (64 * x + c) + d) + e) div 4096 = 64 * x + c"
    by (rule digits_64(3) [OF assms(2,3)])
  then show "(64 * (64 * (64 * x + c) + d) + e) div 4096 mod 64 = c" using assms(1) by simp
  have "(64 * (64 * (64 * x + c) + d) + e) div 262144 = (64 * (64 * (64 * x + c) + d) + e) div 4096 div 64"
    by (simp only: div_mult2_eq [symmetric]) simp
  then show "(64 * (64 * (64 * x + c) + d) + e) div 262144 = x" unfolding four using assms(1) by simp
qed

lemma utf8_valid_first:
  assumes "utf8_valid (first # bs)"
  shows "\<exists>cp rest. unicode_scalar cp \<and> first # bs = utf8_encode cp @ rest \<and> utf8_valid rest"
proof (cases "unat first < 0x80")
  case True
  then show ?thesis
    using assms by (intro exI [of _ "unat first"] exI [of _ bs])
      (simp add: unicode_scalar_def utf8_encode_def word_less_nat_alt)
next
  case False
  then have hi: "0x80 \<le> unat first" by simp
  obtain need x least cp where lead: "lead_nat (unat first) = Some (need, x, least)"
    and cont: "continue_nat need x bs = Some cp"
    and cp: "least \<le> cp" "unicode_scalar cp" "utf8_valid (drop need bs)"
    using assms unfolding utf8_step [OF hi] by (auto split: option.splits)
  have "first # bs = utf8_encode cp @ drop need bs"
  proof -
    consider "need = 1" "unat first = 0xc0 + x" "x < 32" "least = 0x80"
      | "need = 2" "unat first = 0xe0 + x" "x < 16" "least = 0x800"
      | "need = 3" "unat first = 0xf0 + x" "x < 5" "least = 0x10000"
    proof -
      show thesis
        using lead that mod_window [of 192 32 "unat first"] mod_window [of 224 16 "unat first"]
          mod_window [of 240 8 "unat first"]
        by (auto simp: lead_nat_def split: if_splits)
    qed
    then show ?thesis
    proof cases
      case 1
      obtain c rest where bs: "bs = c # rest" and c: "0x80 \<le> unat c" "unat c \<le> 0xbf"
        and v: "cp = 64 * x + unat c mod 64"
        using cont unfolding 1(1) continue_nat_Some by blast
      have n: "cp div 64 = x" "cp mod 64 = unat c mod 64" "cp < 0x800" using 1(3) v by simp_all
      have "first = of_nat (0xc0 + cp div 64)" "c = of_nat (0x80 + cp mod 64)"
        unfolding n by (rule u8_eqI [OF 1(2)] u8_eqI [OF cont_split [OF c]])+
      then show ?thesis using 1 cp(1) bs n(3) by (simp add: utf8_encode_def del: of_nat_add)
    next
      case 2
      obtain c d rest where bs: "bs = c # d # rest" and c: "0x80 \<le> unat c" "unat c \<le> 0xbf"
        and d: "0x80 \<le> unat d" "unat d \<le> 0xbf"
        and v: "cp = 64 * (64 * x + unat c mod 64) + unat d mod 64"
        using cont unfolding 2(1) continue_nat_Some by blast
      have lt: "unat c mod 64 < 64" "unat d mod 64 < 64" by simp_all
      have n: "cp div 4096 = x" "cp div 64 mod 64 = unat c mod 64" "cp mod 64 = unat d mod 64"
        unfolding v by (fact digits_64 [OF lt])+
      have "64 * (64 * x + a) + b < 0x10000" if "a < 64" "b < 64" for a b using 2(3) that by simp
      from this [OF lt] have "cp < 0x10000" by (simp only: v)
      have "first = of_nat (0xe0 + cp div 4096)" "c = of_nat (0x80 + cp div 64 mod 64)"
        "d = of_nat (0x80 + cp mod 64)"
        unfolding n by (rule u8_eqI [OF 2(2)] u8_eqI [OF cont_split [OF c]] u8_eqI [OF cont_split [OF d]])+
      then show ?thesis using 2 cp(1) bs \<open>cp < 0x10000\<close> by (simp add: utf8_encode_def del: of_nat_add)
    next
      case 3
      obtain c d e rest where bs: "bs = c # d # e # rest" and c: "0x80 \<le> unat c" "unat c \<le> 0xbf"
        and d: "0x80 \<le> unat d" "unat d \<le> 0xbf" and e: "0x80 \<le> unat e" "unat e \<le> 0xbf"
        and v: "cp = 64 * (64 * (64 * x + unat c mod 64) + unat d mod 64) + unat e mod 64"
        using cont unfolding 3(1) continue_nat_Some by blast
      have lt: "unat c mod 64 < 64" "unat d mod 64 < 64" "unat e mod 64 < 64" by simp_all
      have n: "cp div 262144 = x" "cp div 4096 mod 64 = unat c mod 64" "cp div 64 mod 64 = unat d mod 64"
        "cp mod 64 = unat e mod 64"
        unfolding v by (fact digits_64_3 [OF lt] digits_64 [OF lt(2,3)])+
      have "first = of_nat (0xf0 + cp div 262144)" "c = of_nat (0x80 + cp div 4096 mod 64)"
        "d = of_nat (0x80 + cp div 64 mod 64)" "e = of_nat (0x80 + cp mod 64)"
        unfolding n by (rule u8_eqI [OF 3(2)] u8_eqI [OF cont_split [OF c]] u8_eqI [OF cont_split [OF d]]
            u8_eqI [OF cont_split [OF e]])+
      then show ?thesis using 3 cp(1) bs by (simp add: utf8_encode_def numeral_3_eq_3 del: of_nat_add)
    qed
  qed
  then show ?thesis using cp by blast
qed

lemma unat_of_nat_u8: "n < 256 \<Longrightarrow> unat (of_nat n :: u8) = n"
  by (simp add: unat_of_nat)

lemma add_mod_base: "b mod m = 0 \<Longrightarrow> (b + k) mod m = k mod m" for b m k :: nat
  by (metis add_0 mod_add_left_eq)

lemma continuation_byte:
  assumes "m < 64"
  shows "0x80 \<le> unat (of_nat (0x80 + m) :: u8)" "unat (of_nat (0x80 + m) :: u8) \<le> 0xbf"
    "unat (of_nat (0x80 + m) :: u8) mod 64 = m"
proof -
  have v: "unat (of_nat (0x80 + m) :: u8) = 0x80 + m" using assms by (intro unat_of_nat_u8) simp
  show "0x80 \<le> unat (of_nat (0x80 + m) :: u8)" "unat (of_nat (0x80 + m) :: u8) \<le> 0xbf"
    "unat (of_nat (0x80 + m) :: u8) mod 64 = m"
    unfolding v using assms add_mod_base [of 128 64 m] by simp_all
qed

lemma utf8_valid_encode:
  assumes "unicode_scalar cp"
  shows "utf8_valid (utf8_encode cp @ bs) = utf8_valid bs"
proof -
  have max: "cp \<le> 0x10ffff" using assms by (auto simp: unicode_scalar_def)
  consider "cp < 0x80" | "0x80 \<le> cp" "cp < 0x800" | "0x800 \<le> cp" "cp < 0x10000" | "0x10000 \<le> cp"
    by linarith
  then show ?thesis
  proof cases
    case 1
    then show ?thesis by (simp add: utf8_encode_def word_less_nat_alt unat_of_nat)
  next
    case 2
    let ?k = "cp div 64" and ?f = "of_nat (0xc0 + cp div 64) :: u8"
    have k: "2 \<le> ?k" "?k < 32" using 2 by auto
    have f: "unat ?f = 0xc0 + ?k" using k by (intro unat_of_nat_u8) simp
    have "lead_nat (unat ?f) = Some (1, ?k, 0x80)"
      unfolding f using k add_mod_base [of 192 32 ?k] by (simp add: lead_nat_def)
    moreover have "continue_nat 1 ?k (of_nat (0x80 + cp mod 64) # bs) = Some cp"
      using continuation_byte [of "cp mod 64"] by (simp add: continue_nat_Suc del: of_nat_add)
    ultimately have "utf8_valid (?f # of_nat (0x80 + cp mod 64) # bs) = utf8_valid bs"
      using assms 2 f by (subst utf8_step) (simp_all del: of_nat_add)
    then show ?thesis using 2 by (simp add: utf8_encode_def del: of_nat_add)
  next
    case 3
    let ?k = "cp div 4096" and ?f = "of_nat (0xe0 + cp div 4096) :: u8"
    have k: "?k < 16" using 3 by auto
    have f: "unat ?f = 0xe0 + ?k" using k by (intro unat_of_nat_u8) simp
    have "lead_nat (unat ?f) = Some (2, ?k, 0x800)"
      unfolding f using k add_mod_base [of 224 16 ?k] by (simp add: lead_nat_def)
    moreover have "64 * (64 * ?k + cp div 64 mod 64) + cp mod 64 = cp"
      using div_mult2_eq [of cp 64 64] by simp
    then have "continue_nat 2 ?k (of_nat (0x80 + cp div 64 mod 64) # of_nat (0x80 + cp mod 64) # bs) = Some cp"
      using continuation_byte [of "cp mod 64"] continuation_byte [of "cp div 64 mod 64"]
      by (simp add: numeral_2_eq_2 continue_nat_Suc del: of_nat_add)
    ultimately have "utf8_valid (?f # of_nat (0x80 + cp div 64 mod 64) # of_nat (0x80 + cp mod 64) # bs) =
        utf8_valid bs"
      using assms 3 f by (subst utf8_step) (simp_all del: of_nat_add)
    then show ?thesis using 3 by (simp add: utf8_encode_def del: of_nat_add)
  next
    case 4
    let ?k = "cp div 262144" and ?f = "of_nat (0xf0 + cp div 262144) :: u8"
    have k: "?k < 5" using max by auto
    have f: "unat ?f = 0xf0 + ?k" using k by (intro unat_of_nat_u8) simp
    have "lead_nat (unat ?f) = Some (3, ?k, 0x10000)"
      unfolding f using k add_mod_base [of 240 8 ?k] by (simp add: lead_nat_def)
    moreover have "64 * (64 * (64 * ?k + cp div 4096 mod 64) + cp div 64 mod 64) + cp mod 64 = cp"
      using div_mult2_eq [of cp 64 64] div_mult2_eq [of cp 4096 64] by simp
    then have "continue_nat 3 ?k (of_nat (0x80 + cp div 4096 mod 64) # of_nat (0x80 + cp div 64 mod 64) #
        of_nat (0x80 + cp mod 64) # bs) = Some cp"
      using continuation_byte [of "cp mod 64"] continuation_byte [of "cp div 64 mod 64"]
        continuation_byte [of "cp div 4096 mod 64"]
      by (simp add: numeral_3_eq_3 continue_nat_Suc del: of_nat_add)
    ultimately have "utf8_valid (?f # of_nat (0x80 + cp div 4096 mod 64) # of_nat (0x80 + cp div 64 mod 64) #
        of_nat (0x80 + cp mod 64) # bs) = utf8_valid bs"
      using assms 4 f by (subst utf8_step) (simp_all del: of_nat_add)
    then show ?thesis using 4 by (simp add: utf8_encode_def del: of_nat_add)
  qed
qed

lemma utf8_valid_iff:
  "utf8_valid bs \<longleftrightarrow> (\<exists>cps. (\<forall>cp \<in> set cps. unicode_scalar cp) \<and> bs = concat (map utf8_encode cps))"
proof
  have pos: "length rest < length (utf8_encode cp @ rest)" for cp rest by (simp add: utf8_encode_def)
  show "utf8_valid bs \<Longrightarrow> \<exists>cps. (\<forall>cp \<in> set cps. unicode_scalar cp) \<and> bs = concat (map utf8_encode cps)"
  proof (induction bs rule: length_induct)
    case (1 bs)
    show ?case
    proof (cases bs)
      case Nil
      then show ?thesis by (intro exI [of _ "[]"]) simp
    next
      case (Cons first tl)
      then obtain cp rest where cp: "unicode_scalar cp" "bs = utf8_encode cp @ rest" "utf8_valid rest"
        using 1(2) utf8_valid_first by metis
      then obtain cps where "\<forall>cp \<in> set cps. unicode_scalar cp" "rest = concat (map utf8_encode cps)"
        using 1(1) pos by metis
      then show ?thesis using cp by (intro exI [of _ "cp # cps"]) simp
    qed
  qed
  have "\<forall>cp \<in> set cps. unicode_scalar cp \<Longrightarrow> utf8_valid (concat (map utf8_encode cps))" for cps
    by (induction cps) (simp_all add: utf8_valid_encode)
  then show "\<exists>cps. (\<forall>cp \<in> set cps. unicode_scalar cp) \<and> bs = concat (map utf8_encode cps) \<Longrightarrow> utf8_valid bs"
    by blast
qed

section \<open>Metadata keys\<close>

text \<open>The loop over the bytes of a key, with its two flags.\<close>

fun metadata_key_loop :: "bool \<Rightarrow> bool \<Rightarrow> u8 list \<Rightarrow> bool" where
  "metadata_key_loop segment_start previous_underscore [] = (\<not> segment_start \<and> \<not> previous_underscore)"
| "metadata_key_loop segment_start previous_underscore (ch # key) =
     (if ch \<ge> 128 then False
      else if ch = 46 then
        if segment_start \<or> previous_underscore \<or> key = [] then False else metadata_key_loop True False key
      else if segment_start then
        if ch < 97 \<or> ch > 122 then False else metadata_key_loop False False key
      else if ch = 95 then
        if previous_underscore then False else metadata_key_loop False True key
      else if \<not> ((ch \<ge> 97 \<and> ch \<le> 122) \<or> (ch \<ge> 48 \<and> ch \<le> 57)) then False
      else metadata_key_loop False False key)"

definition metadata_key_valid :: "u8 list \<Rightarrow> bool" where
  "metadata_key_valid key = (if key = [] then False else metadata_key_loop True False key)"

text \<open>
  The grammar: segments separated by dots; a segment starts with a lower-case letter, continues with
  lower-case letters, digits and single underscores, and does not end with an underscore.
\<close>

fun key_segments :: "u8 list \<Rightarrow> u8 list list" where
  "key_segments [] = [[]]"
| "key_segments (ch # key) =
     (if ch = 46 then [] # key_segments key
      else case key_segments key of [] \<Rightarrow> [[ch]] | seg # segs \<Rightarrow> (ch # seg) # segs)"

definition key_letter :: "u8 \<Rightarrow> bool" where
  "key_letter ch \<longleftrightarrow> 97 \<le> ch \<and> ch \<le> 122"

definition key_char :: "u8 \<Rightarrow> bool" where
  "key_char ch \<longleftrightarrow> key_letter ch \<or> (48 \<le> ch \<and> ch \<le> 57) \<or> ch = 95"

definition key_segment_ok :: "u8 list \<Rightarrow> bool" where
  "key_segment_ok seg \<longleftrightarrow> seg \<noteq> [] \<and> key_letter (hd seg) \<and> (\<forall>ch \<in> set seg. key_char ch) \<and>
     last seg \<noteq> 95 \<and> (\<forall>i. Suc i < length seg \<longrightarrow> \<not> (seg ! i = 95 \<and> seg ! Suc i = 95))"

lemma key_segments_not_Nil [simp]: "key_segments key \<noteq> []"
  by (cases key) (auto split: list.splits)

text \<open>The rest of a segment, given whether the byte before it is an underscore.\<close>

fun segment_rest_ok :: "bool \<Rightarrow> u8 list \<Rightarrow> bool" where
  "segment_rest_ok us [] = (\<not> us)"
| "segment_rest_ok us (ch # seg) = (key_char ch \<and> \<not> (us \<and> ch = 95) \<and> segment_rest_ok (ch = 95) seg)"

lemma segment_rest_ok_iff:
  "segment_rest_ok (ch = 95) seg \<longleftrightarrow> (\<forall>c \<in> set seg. key_char c) \<and> last (ch # seg) \<noteq> 95 \<and>
     (\<forall>i. Suc i < length (ch # seg) \<longrightarrow> \<not> ((ch # seg) ! i = 95 \<and> (ch # seg) ! Suc i = 95))"
proof (induction seg arbitrary: ch)
  case (Cons c seg)
  show ?case
    by (simp only: segment_rest_ok.simps Cons.IH) (auto simp: less_Suc_eq_0_disj nth_Cons' split: if_splits)
qed simp

lemma key_segment_ok_Cons: "key_segment_ok (ch # seg) \<longleftrightarrow> key_letter ch \<and> segment_rest_ok (ch = 95) seg"
  using segment_rest_ok_iff [of ch seg] by (auto simp: key_segment_ok_def key_char_def)

lemma metadata_key_loop_iff:
  "(metadata_key_loop True False key \<longleftrightarrow> (\<forall>seg \<in> set (key_segments key). key_segment_ok seg)) \<and>
   (metadata_key_loop False us key \<longleftrightarrow> segment_rest_ok us (hd (key_segments key)) \<and>
      (\<forall>seg \<in> set (tl (key_segments key)). key_segment_ok seg))"
proof (induction key arbitrary: us)
  case Nil
  then show ?case by (simp add: key_segment_ok_def)
next
  case (Cons ch key)
  obtain seg segs where segs: "key_segments key = seg # segs"
    using key_segments_not_Nil [of key] by (cases "key_segments key") auto
  have empty: "\<not> key_segment_ok []" by (simp add: key_segment_ok_def)
  show ?case
  proof (cases "ch = 46")
    case True
    have "key = [] \<Longrightarrow> seg = []" using segs by simp
    then show ?thesis
      using Cons.IH [of False] segs True empty by (cases "key = []") auto
  next
    case False
    have char: "key_char ch \<longleftrightarrow> (ch < 128 \<and> (ch = 95 \<or> 97 \<le> ch \<and> ch \<le> 122 \<or> 48 \<le> ch \<and> ch \<le> 57))"
      by (auto simp: key_char_def key_letter_def word_le_nat_alt word_less_nat_alt)
    have letter: "key_letter ch \<Longrightarrow> ch \<noteq> 95 \<and> ch < 128"
      by (auto simp: key_letter_def word_le_nat_alt word_less_nat_alt)
    show ?thesis
      using Cons.IH [of False] Cons.IH [of True] segs False char letter
      by (auto simp: key_segment_ok_Cons key_letter_def not_le not_less)
  qed
qed

section \<open>Properties\<close>

text \<open>
  (C26) The UTF-8 check is the specification: a byte string passes exactly when it is a concatenation
  of encodings of Unicode scalar values, so overlong forms, surrogates and truncated sequences are
  all refused.
\<close>

theorem utf8_valid_exact:
  "utf8_valid bs \<longleftrightarrow> (\<exists>cps. list_all unicode_scalar cps \<and> bs = concat (map utf8_encode cps))"
  unfolding utf8_valid_iff list_all_iff ..

text \<open>
  (C27) The key check is the grammar: a key passes exactly when each of its dot-separated segments
  starts with a lower-case letter, continues with lower-case letters, digits and single underscores,
  and does not end with an underscore.
\<close>

theorem metadata_key_grammar:
  "metadata_key_valid key \<longleftrightarrow> list_all key_segment_ok (key_segments key)"
  using metadata_key_loop_iff [of key False]
  by (auto simp: metadata_key_valid_def list_all_iff key_segment_ok_def)

end
