(* ===== verification/Gguf_Index.thy ===== *)
theory Gguf_Index
  imports Core_Status
begin

unbundle bit_operations_syntax

text \<open>
  The identifier index of the GGUF reader, \<^verbatim>\<open>src/gguf/core.c\<close>: an open-addressed hash table with linear
  probing whose slots hold positions of names, zero for a free slot.  Metadata keys and tensor names
  have one each, with the same loops.  A probe is given as many steps as there are slots; that it
  never needs more is part of the contract below.
\<close>

section \<open>Operations\<close>

definition name_hash :: "u8 list \<Rightarrow> u64" where
  "name_hash name = foldl (\<lambda>hash b. (hash XOR ucast b) * 1099511628211) 1469598103934665603 name"

definition name_index_start :: "u64 list \<Rightarrow> u8 list \<Rightarrow> nat" where
  "name_index_start slots name = unat (name_hash name AND (of_nat (length slots) - 1))"

datatype probe_result = Probe_hit nat | Probe_free nat | Probe_endless

fun name_probe :: "nat \<Rightarrow> u64 list \<Rightarrow> u8 list list \<Rightarrow> u8 list \<Rightarrow> nat \<Rightarrow> probe_result" where
  "name_probe 0 slots names name slot = Probe_endless"
| "name_probe (Suc steps) slots names name slot =
     (if slots ! slot = 0 then Probe_free slot
      else let prior = unat (slots ! slot - 1) in
        if names ! prior = name then Probe_hit prior
        else name_probe steps slots names name ((slot + 1) AND (length slots - 1)))"

definition name_index_find :: "u64 list \<Rightarrow> u8 list list \<Rightarrow> u8 list \<Rightarrow> nat option" where
  "name_index_find slots names name =
     (if slots = [] then None
      else case name_probe (length slots) slots names name (name_index_start slots name) of
        Probe_hit i \<Rightarrow> Some i | _ \<Rightarrow> None)"

text \<open>
  The insertion of the name at position \<open>length names\<close>: the new slots, or the position of an equal
  name.
\<close>

definition name_index_insert :: "u64 list \<Rightarrow> u8 list list \<Rightarrow> u8 list \<Rightarrow> nat + u64 list" where
  "name_index_insert slots names name =
     (case name_probe (length slots) slots names name (name_index_start slots name) of
        Probe_hit i \<Rightarrow> Inl i
      | Probe_free slot \<Rightarrow> Inr (slots[slot := of_nat (length names) + 1])
      | Probe_endless \<Rightarrow> Inl (length names))"

lemma unat_double: "\<not> capacity > ULLONG_MAX div 2 \<Longrightarrow> unat (capacity * 2 :: u64) = 2 * unat capacity"
  by (simp add: word_less_nat_alt not_less unat_div unat_word_ariths)

text \<open>The doubling loop that sizes the table; \<open>None\<close> when the doubling would leave the address space.\<close>

function name_index_capacity :: "u64 \<Rightarrow> u64 \<Rightarrow> u64 option" where
  "name_index_capacity wanted capacity =
     (if capacity < wanted \<and> 0 < capacity
      then if capacity > ULLONG_MAX div 2 then None else name_index_capacity wanted (capacity * 2)
      else Some capacity)"
  by pat_completeness auto
termination
proof (relation "measure (\<lambda>(wanted, capacity). unat wanted - unat capacity)")
  fix wanted capacity :: u64
  assume "capacity < wanted \<and> 0 < capacity" "\<not> capacity > ULLONG_MAX div 2"
  then show "((wanted, capacity * 2), (wanted, capacity)) \<in> measure (\<lambda>(wanted, capacity). unat wanted - unat capacity)"
    by (auto simp: unat_double word_less_nat_alt intro!: diff_less_mono2)
qed simp

declare name_index_capacity.simps [simp del]

lemma name_index_capacity_pow:
  "name_index_capacity wanted capacity = Some c \<Longrightarrow> unat capacity = 2 ^ k \<Longrightarrow> k < 64 \<Longrightarrow>
     \<exists>j < 64. unat c = 2 ^ j \<and> wanted \<le> c"
proof (induction wanted capacity arbitrary: k rule: name_index_capacity.induct)
  case (1 wanted capacity)
  show ?case
  proof (cases "capacity < wanted")
    case False
    then have "c = capacity" using "1.prems"(1) by (simp add: name_index_capacity.simps [of wanted capacity])
    then show ?thesis using False "1.prems" by (auto simp: not_less)
  next
    case True
    have pos: "0 < capacity" using "1.prems"(2) by (simp add: word_less_nat_alt)
    have small: "\<not> capacity > ULLONG_MAX div 2" and rest: "name_index_capacity wanted (capacity * 2) = Some c"
      using "1.prems"(1) True pos by (subst (asm) name_index_capacity.simps; simp split: if_splits)+
    have double: "unat (capacity * 2) = 2 ^ Suc k" using unat_double [OF small] "1.prems"(2) by simp
    have "Suc k < 64"
    proof (rule ccontr)
      assume "\<not> Suc k < 64"
      then have "(2 :: nat) ^ 64 \<le> 2 ^ Suc k" by (intro power_increasing) simp_all
      then show False using double unat_u64_less [of "capacity * 2"] by simp
    qed
    then show ?thesis using "1.IH" [OF _ small rest double] True pos by blast
  qed
qed

section \<open>The contract\<close>

text \<open>The positions a probe visits, and the slot table representing a list of names.\<close>

definition probe_at :: "u64 list \<Rightarrow> u8 list \<Rightarrow> nat \<Rightarrow> nat" where
  "probe_at slots name d = (name_index_start slots name + d) mod length slots"

definition index_ok :: "u64 list \<Rightarrow> u8 list list \<Rightarrow> bool" where
  "index_ok slots names \<longleftrightarrow>
     (\<exists>k < 64. length slots = 2 ^ k) \<and> 2 * length names \<le> length slots \<and> distinct names \<and>
     card {s. s < length slots \<and> slots ! s \<noteq> 0} \<le> length names \<and>
     (\<forall>s < length slots. unat (slots ! s) \<le> length names) \<and>
     (\<forall>i < length names. \<exists>d < length slots. slots ! probe_at slots (names ! i) d = of_nat i + 1 \<and>
        (\<forall>e < d. slots ! probe_at slots (names ! i) e \<noteq> 0))"

lemma nat_and_mask: "(n :: nat) AND (2 ^ k - 1) = n mod 2 ^ k"
  by (simp add: take_bit_eq_mod [symmetric] take_bit_eq_mask mask_eq_exp_minus_1)

lemma index_start_less:
  assumes "length slots = 2 ^ k" "k < 64"
  shows "name_index_start slots name < length slots"
proof -
  have "(of_nat (length slots) :: u64) - 1 = mask k" using assms by (simp add: mask_eq_exp_minus_1)
  then have "name_index_start slots name = unat (take_bit k (name_hash name))"
    by (simp add: name_index_start_def take_bit_eq_mask)
  also have "\<dots> = unat (name_hash name) mod 2 ^ k" by (simp only: unsigned_take_bit_eq) (simp only: take_bit_eq_mod)
  finally show ?thesis using assms(1) by simp
qed

lemma probe_at_less: "slots \<noteq> [] \<Longrightarrow> probe_at slots name d < length slots"
  by (simp add: probe_at_def)

lemma probe_at_Suc:
  assumes "length slots = 2 ^ k"
  shows "(probe_at slots name d + 1) AND (length slots - 1) = probe_at slots name (Suc d)"
  unfolding probe_at_def assms nat_and_mask by (simp add: mod_Suc_eq)

lemma name_probe_cases:
  assumes len: "length slots = 2 ^ k" and "d + steps = length slots"
  shows "case name_probe steps slots names name (probe_at slots name d) of
      Probe_hit i \<Rightarrow> \<exists>e < length slots. slots ! probe_at slots name e \<noteq> 0 \<and>
        i = unat (slots ! probe_at slots name e - 1) \<and> names ! i = name
    | Probe_free s \<Rightarrow> \<exists>e < length slots. d \<le> e \<and> s = probe_at slots name e \<and> slots ! s = 0 \<and>
        (\<forall>x. d \<le> x \<and> x < e \<longrightarrow> slots ! probe_at slots name x \<noteq> 0 \<and>
           names ! unat (slots ! probe_at slots name x - 1) \<noteq> name)
    | Probe_endless \<Rightarrow> (\<forall>e. d \<le> e \<and> e < length slots \<longrightarrow> slots ! probe_at slots name e \<noteq> 0)"
  using assms(2)
proof (induction steps arbitrary: d)
  case 0
  then show ?case by auto
next
  case (Suc steps)
  let ?v = "slots ! probe_at slots name d"
  have d: "d < length slots" using Suc.prems by simp
  show ?case
  proof (cases "?v = 0 \<or> names ! unat (?v - 1) = name")
    case True
    then show ?thesis using d by (auto simp: Let_def)
  next
    case False
    then have next': "name_probe (Suc steps) slots names name (probe_at slots name d) =
        name_probe steps slots names name (probe_at slots name (Suc d))"
      using probe_at_Suc [OF len, of name d] by (simp add: Let_def)
    have split: "d \<le> x \<longleftrightarrow> x = d \<or> Suc d \<le> x" for x by auto
    show ?thesis
      using Suc.IH [of "Suc d"] Suc.prems False unfolding next'
      by (auto simp: split split: probe_result.splits)
  qed
qed

lemma probe_at_surj:
  assumes "slots \<noteq> []" "s < length slots"
  shows "\<exists>d < length slots. probe_at slots name d = s"
proof -
  let ?n = "length slots" and ?st = "name_index_start slots name"
  have "(?st + (s + ?n - ?st mod ?n) mod ?n) mod ?n = (?st mod ?n + (s + ?n - ?st mod ?n)) mod ?n"
    by (simp add: mod_add_left_eq mod_add_right_eq)
  also have "?st mod ?n + (s + ?n - ?st mod ?n) = s + ?n"
  proof -
    have "?st mod ?n \<le> s + ?n" using assms by (intro trans_le_add2 less_imp_le mod_less_divisor) simp
    then show ?thesis by simp
  qed
  finally have "probe_at slots name ((s + ?n - ?st mod ?n) mod ?n) = s" using assms by (simp add: probe_at_def)
  then show ?thesis using assms by (intro exI [of _ "(s + ?n - ?st mod ?n) mod ?n"]) simp
qed

lemma unat_slot_inc: "n < 2 ^ 63 \<Longrightarrow> unat (of_nat n + 1 :: u64) = n + 1 \<and> of_nat n + (1 :: u64) \<noteq> 0 \<and>
    unat (of_nat n + 1 - 1 :: u64) = n"
proof -
  assume "n < 2 ^ 63"
  then have "unat (of_nat n + 1 :: u64) = n + 1" by (simp add: unat_word_ariths unat_of_nat)
  moreover from this have "of_nat n + (1 :: u64) \<noteq> 0" by (metis Suc_eq_plus1 nat.distinct(1) unat_0)
  ultimately show ?thesis using \<open>n < 2 ^ 63\<close> by (simp add: unat_of_nat)
qed

lemma index_ok_small: "index_ok slots names \<Longrightarrow> slots \<noteq> [] \<and> length names < 2 ^ 63 \<and> length names < length slots"
proof -
  assume ok: "index_ok slots names"
  then obtain k where k: "k < 64" "length slots = 2 ^ k" "2 * length names \<le> 2 ^ k"
    by (auto simp: index_ok_def)
  have "(2 :: nat) ^ k \<le> 2 ^ 63" using k(1) by (intro power_increasing) auto
  moreover have "(0 :: nat) < 2 ^ k" by simp
  ultimately have "length names < 2 ^ k" "length names < 2 ^ 63" using k(3) by linarith+
  then show ?thesis using k(2) by auto
qed

text \<open>A probe in a consistent table ends, at the name or at a free slot after everything it could hit.\<close>

lemma probe_decides:
  assumes ok: "index_ok slots names"
  obtains (hit) i where "name_probe (length slots) slots names name (name_index_start slots name) = Probe_hit i"
      "i < length names" "names ! i = name"
    | (free) s e where "name_probe (length slots) slots names name (name_index_start slots name) = Probe_free s"
      "name \<notin> set names" "e < length slots" "s = probe_at slots name e" "slots ! s = 0"
      "\<And>x. x < e \<Longrightarrow> slots ! probe_at slots name x \<noteq> 0"
proof -
  obtain k where k: "k < 64" "length slots = 2 ^ k" using ok by (auto simp: index_ok_def)
  note small = index_ok_small [OF ok]
  have start: "name_index_start slots name = probe_at slots name 0"
    using index_start_less [OF k(2,1), of name] by (simp add: probe_at_def)
  note pc = name_probe_cases [OF k(2), where d = 0 and steps = "length slots" and names = names and name = name,
    simplified]
  show thesis
  proof (cases "name_probe (length slots) slots names name (probe_at slots name 0)")
    case (Probe_hit i)
    then obtain e where e: "slots ! probe_at slots name e \<noteq> 0" "i = unat (slots ! probe_at slots name e - 1)"
      "names ! i = name" using pc by auto
    have "unat (slots ! probe_at slots name e) \<le> length names"
      using ok probe_at_less [of slots name e] small by (auto simp: index_ok_def)
    moreover have "0 < unat (slots ! probe_at slots name e)" using e(1) by (simp add: unat_gt_0)
    ultimately have "i < length names" using e(2) unat_dec [OF e(1)] by linarith
    then show thesis using hit Probe_hit e(3) by (simp add: start)
  next
    case (Probe_free s)
    then obtain e where e: "e < length slots" "s = probe_at slots name e" "slots ! s = 0"
      and before: "\<And>x. x < e \<Longrightarrow> slots ! probe_at slots name x \<noteq> 0 \<and>
        names ! unat (slots ! probe_at slots name x - 1) \<noteq> name"
      using pc by auto
    have "name \<notin> set names"
    proof
      assume "name \<in> set names"
      then obtain i where i: "i < length names" "names ! i = name" by (auto simp: in_set_conv_nth)
      then obtain d where d: "slots ! probe_at slots name d = of_nat i + 1"
        "\<And>x. x < d \<Longrightarrow> slots ! probe_at slots name x \<noteq> 0" using ok by (auto simp: index_ok_def)
      have i': "of_nat i + (1 :: u64) \<noteq> 0" "unat (of_nat i + 1 - 1 :: u64) = i"
        using unat_slot_inc [of i] i(1) small by auto
      consider "e < d" | "d = e" | "d < e" by linarith
      then show False using d before [of d] e i i' by cases auto
    qed
    then show thesis using free [of s e] Probe_free e before by (simp add: start)
  next
    case Probe_endless
    then have "\<And>e. e < length slots \<Longrightarrow> slots ! probe_at slots name e \<noteq> 0" using pc by auto
    then have "{s. s < length slots \<and> slots ! s \<noteq> 0} = {..<length slots}"
      using probe_at_surj [of slots _ name] small by blast
    then have "card {s. s < length slots \<and> slots ! s \<noteq> 0} = length slots" by simp
    then show thesis using ok small by (simp add: index_ok_def)
  qed
qed

lemma name_index_find_iff:
  assumes "index_ok slots names"
  shows "name_index_find slots names name = Some i \<longleftrightarrow> i < length names \<and> names ! i = name"
proof -
  have ne: "slots \<noteq> []" and dist: "distinct names"
    using index_ok_small [OF assms] assms by (auto simp: index_ok_def)
  show ?thesis
    using dist
    by (cases rule: probe_decides [OF assms, of name])
      (auto simp: name_index_find_def ne nth_eq_iff_index_eq)
qed

lemma name_index_insert_old:
  assumes "index_ok slots names" "name \<in> set names"
  shows "\<exists>i. name_index_insert slots names name = Inl i"
  using assms(2)
  by (cases rule: probe_decides [OF assms(1), of name]) (auto simp: name_index_insert_def)

lemma name_index_insert_new:
  assumes ok: "index_ok slots names" and new: "name \<notin> set names"
    and room: "2 * (length names + 1) \<le> length slots"
  shows "\<exists>slots'. name_index_insert slots names name = Inr slots' \<and> length slots' = length slots \<and>
    index_ok slots' (names @ [name])"
proof (cases rule: probe_decides [OF ok, of name])
  case (1 i)
  then show ?thesis using new by auto
next
  case (2 s e)
  let ?v = "of_nat (length names) + 1 :: u64"
  let ?slots = "slots[s := ?v]"
  note small = index_ok_small [OF ok]
  have v: "unat ?v = length names + 1" "?v \<noteq> 0" using unat_slot_inc [of "length names"] small by auto
  have s: "s < length slots" using 2(4) small by (simp add: probe_at_less)
  have same: "probe_at ?slots n d = probe_at slots n d" for n d by (simp add: probe_at_def name_index_start_def)
  have "{x. x < length ?slots \<and> ?slots ! x \<noteq> 0} = insert s {x. x < length slots \<and> slots ! x \<noteq> 0}"
    using s v(2) by (auto simp: nth_list_update)
  then have "card {x. x < length ?slots \<and> ?slots ! x \<noteq> 0} \<le> length names + 1"
    using ok card_insert_le_m1 [of "length names + 1" "{x. x < length slots \<and> slots ! x \<noteq> 0}" s]
    by (simp add: index_ok_def)
  moreover have "\<forall>x < length ?slots. unat (?slots ! x) \<le> length names + 1"
  proof (intro allI impI)
    fix x assume x: "x < length ?slots"
    then have "unat (slots ! x) \<le> length names" using ok by (simp add: index_ok_def)
    then show "unat (?slots ! x) \<le> length names + 1" using x v(1) by (cases "x = s") simp_all
  qed
  moreover have "\<exists>d < length slots. ?slots ! probe_at ?slots ((names @ [name]) ! i) d = of_nat i + 1 \<and>
      (\<forall>x < d. ?slots ! probe_at ?slots ((names @ [name]) ! i) x \<noteq> 0)" if i: "i < length names + 1" for i
  proof (cases "i = length names")
    case True
    have "?slots ! probe_at slots name x \<noteq> 0" if "x < e" for x
      using 2(6) [OF that] v(2) s by (cases "probe_at slots name x = s") simp_all
    then show ?thesis
      using True 2(3) s unfolding same by (intro exI [of _ e]) (simp add: 2(4) [symmetric])
  next
    case False
    then have "i < length names" using i by simp
    then obtain d where d: "d < length slots" "slots ! probe_at slots (names ! i) d = of_nat i + 1"
      "\<forall>x < d. slots ! probe_at slots (names ! i) x \<noteq> 0"
      using ok unfolding index_ok_def by blast
    have "of_nat i + (1 :: u64) \<noteq> 0" using unat_slot_inc [of i] \<open>i < length names\<close> small by auto
    then have "s \<noteq> probe_at slots (names ! i) x" if "x \<le> d" for x
      using d(2,3) 2(5) that by (cases "x = d") auto
    then show ?thesis
      using d \<open>i < length names\<close> by (intro exI [of _ d]) (simp add: same nth_append)
  qed
  ultimately have "index_ok ?slots (names @ [name])"
    using ok new room by (simp add: index_ok_def)
  then show ?thesis using 2(1) by (simp add: name_index_insert_def)
qed

lemma index_ok_empty:
  assumes "k < 64"
  shows "index_ok (replicate (2 ^ k) 0) []"
  using assms by (auto simp: index_ok_def)

section \<open>Interface\<close>

text \<open>
  What the reader relies on: positions of names can be looked up, a name already present is reported,
  and a new one can be added while the table is at most half full.
\<close>

locale name_directory =
  fixes ok :: "'ix \<Rightarrow> u8 list list \<Rightarrow> bool" and room :: "'ix \<Rightarrow> nat"
    and find :: "'ix \<Rightarrow> u8 list list \<Rightarrow> u8 list \<Rightarrow> nat option"
    and insert :: "'ix \<Rightarrow> u8 list list \<Rightarrow> u8 list \<Rightarrow> nat + 'ix"
  assumes find_iff: "ok ix names \<Longrightarrow> find ix names name = Some i \<longleftrightarrow> i < length names \<and> names ! i = name"
    and insert_old: "ok ix names \<Longrightarrow> name \<in> set names \<Longrightarrow> \<exists>i. insert ix names name = Inl i"
    and insert_new: "ok ix names \<Longrightarrow> name \<notin> set names \<Longrightarrow> 2 * (length names + 1) \<le> room ix \<Longrightarrow>
      \<exists>ix'. insert ix names name = Inr ix' \<and> room ix' = room ix \<and> ok ix' (names @ [name])"
    and ok_distinct: "ok ix names \<Longrightarrow> distinct names"
begin

lemma find_None: "ok ix names \<Longrightarrow> find ix names name = None \<longleftrightarrow> name \<notin> set names"
  using find_iff by (metis in_set_conv_nth not_None_eq)

lemma insert_success:
  assumes "ok ix names" "2 * (length names + 1) \<le> room ix" "insert ix names name = Inr ix'"
  shows "ok ix' (names @ [name])" "room ix' = room ix" "name \<notin> set names"
  using assms insert_old [of ix names name] insert_new [of ix names name] by auto

lemma insert_refused_iff:
  assumes "ok ix names" "2 * (length names + 1) \<le> room ix"
  shows "(\<exists>i. insert ix names name = Inl i) \<longleftrightarrow> name \<in> set names"
  using insert_old [OF assms(1), of name] insert_new [OF assms(1) _ assms(2), of name]
  by (metis Inl_Inr_False)

end

interpretation names: name_directory index_ok length name_index_find name_index_insert
  by unfold_locales
    (simp_all add: name_index_find_iff name_index_insert_old name_index_insert_new,
     simp add: index_ok_def)

end
