(* ===== verification/Gguf_Reader.thy ===== *)
theory Gguf_Reader
  imports Artifact_File Gguf_Qtype Gguf_Text Gguf_Index
begin

unbundle bit_operations_syntax

text \<open>
  The structural GGUF reader, \<^verbatim>\<open>src/gguf/core.c\<close>: header, metadata, tensor directory and the derived
  ranges, under budgets.  A reading step takes the cursor and returns a failure or a result with the
  new cursor; a step that fills memory returns what it had filled also on failure, because the
  cleanup walks it.  What the platform decides is in the environment: the artifact, whether the
  allocation that brings the owned bytes to a given count succeeds, the sizes of the structures,
  and the conversion of a 32-bit float to a double.  Doubles are their bits.  \<open>cur_fault\<close> records that
  the code has followed a null pointer or probed without end.
\<close>

section \<open>Data\<close>

datatype yvex_gguf_value_type =
    YVEX_GGUF_VALUE_UINT8 | YVEX_GGUF_VALUE_INT8 | YVEX_GGUF_VALUE_UINT16 | YVEX_GGUF_VALUE_INT16
  | YVEX_GGUF_VALUE_UINT32 | YVEX_GGUF_VALUE_INT32 | YVEX_GGUF_VALUE_FLOAT32 | YVEX_GGUF_VALUE_BOOL
  | YVEX_GGUF_VALUE_STRING | YVEX_GGUF_VALUE_ARRAY | YVEX_GGUF_VALUE_UINT64 | YVEX_GGUF_VALUE_INT64
  | YVEX_GGUF_VALUE_FLOAT64 | YVEX_GGUF_VALUE_INVALID

datatype yvex_gguf_parse_section =
    YVEX_GGUF_PARSE_SECTION_NONE | YVEX_GGUF_PARSE_SECTION_FILE | YVEX_GGUF_PARSE_SECTION_CONTAINER
  | YVEX_GGUF_PARSE_SECTION_METADATA | YVEX_GGUF_PARSE_SECTION_TENSOR_INFO
  | YVEX_GGUF_PARSE_SECTION_QTYPE | YVEX_GGUF_PARSE_SECTION_RANGE | YVEX_GGUF_PARSE_SECTION_RESOURCE

datatype yvex_gguf_parse_code =
    YVEX_GGUF_PARSE_OK | YVEX_GGUF_PARSE_INVALID_ARGUMENT | YVEX_GGUF_PARSE_FILE_UNREADABLE
  | YVEX_GGUF_PARSE_SHORT_READ | YVEX_GGUF_PARSE_INVALID_MAGIC | YVEX_GGUF_PARSE_UNSUPPORTED_VERSION
  | YVEX_GGUF_PARSE_INVALID_COUNT | YVEX_GGUF_PARSE_RESOURCE_LIMIT | YVEX_GGUF_PARSE_MALFORMED_KEY
  | YVEX_GGUF_PARSE_DUPLICATE_METADATA_KEY | YVEX_GGUF_PARSE_UNSUPPORTED_METADATA_TYPE
  | YVEX_GGUF_PARSE_MALFORMED_VALUE | YVEX_GGUF_PARSE_MALFORMED_STRING
  | YVEX_GGUF_PARSE_MALFORMED_ARRAY | YVEX_GGUF_PARSE_INVALID_ALIGNMENT
  | YVEX_GGUF_PARSE_MALFORMED_TENSOR_NAME | YVEX_GGUF_PARSE_DUPLICATE_TENSOR_NAME
  | YVEX_GGUF_PARSE_INVALID_RANK | YVEX_GGUF_PARSE_INVALID_DIMENSION | YVEX_GGUF_PARSE_REFUSED_QTYPE
  | YVEX_GGUF_PARSE_OFFSET_OVERFLOW | YVEX_GGUF_PARSE_INCOMPLETE_DIRECTORY
  | YVEX_GGUF_PARSE_ALLOCATION_FAILURE | YVEX_GGUF_PARSE_EMPTY_METADATA_KEY
  | YVEX_GGUF_PARSE_EMPTY_TENSOR_NAME | YVEX_GGUF_PARSE_ELEMENT_COUNT_OVERFLOW
  | YVEX_GGUF_PARSE_ROW_COUNT_OVERFLOW | YVEX_GGUF_PARSE_ROW_BYTE_OVERFLOW
  | YVEX_GGUF_PARSE_TOTAL_BYTE_OVERFLOW

record yvex_gguf_parse_result =
  pr_code :: yvex_gguf_parse_code
  pr_section :: yvex_gguf_parse_section
  pr_byte_offset :: u64
  pr_record_index :: u64
  pr_reason :: string

record yvex_gguf_reader_options =
  max_metadata_entries :: u64
  max_tensor_entries :: u64
  max_array_entries :: u64
  max_total_array_entries :: u64
  max_string_bytes :: u64
  max_total_string_bytes :: u64
  max_owned_bytes :: u64
  max_structural_bytes :: u64
  max_array_depth :: u32

record yvex_gguf_reader_stats =
  file_size :: u64
  structural_bytes_read :: u64
  payload_bytes_read :: u64
  read_calls :: u64
  owned_bytes :: u64
  total_string_bytes :: u64
  total_array_entries :: u64
  directory_end_offset :: u64

record yvex_gguf_header =
  version :: u32
  metadata_count :: u64
  tensor_count :: u64

text \<open>
  A value with its tag.  \<open>Gguf_zero\<close> is the tag with a zeroed union, the state before a value is
  read; the items of an array are missing until they are allocated.
\<close>

datatype yvex_gguf_value =
    Gguf_zero yvex_gguf_value_type
  | Gguf_u64 yvex_gguf_value_type u64
  | Gguf_i64 yvex_gguf_value_type u64
  | Gguf_f64 yvex_gguf_value_type u64
  | Gguf_bool bool
  | Gguf_string "u8 list"
  | Gguf_array yvex_gguf_value_type u64 "yvex_gguf_value list option"

record yvex_gguf_metadata_entry =
  md_key :: "u8 list"
  md_value :: yvex_gguf_value

record yvex_gguf_tensor_info =
  ti_name :: "u8 list"
  ti_rank :: u32
  ti_dims :: "u64 list"
  ggml_type :: u32
  ggml_type_name :: string
  relative_offset :: u64
  absolute_offset :: u64
  storage_bytes :: u64
  absolute_end_offset :: u64
  range_addressable :: bool

record yvex_gguf =
  g_header :: yvex_gguf_header
  g_metadata :: "yvex_gguf_metadata_entry list"
  g_tensors :: "yvex_gguf_tensor_info list"
  metadata_index :: "u64 list"
  tensor_index :: "u64 list"
  tensor_data_offset :: u64
  alignment :: u32
  g_stats :: yvex_gguf_reader_stats

record yvex_file_cursor =
  cur_size :: u64
  cur_offset :: u64
  cur_stats :: yvex_gguf_reader_stats
  cur_section :: yvex_gguf_parse_section
  cur_record_index :: u64
  cur_fault :: bool

record reader_environment =
  env_artifact :: yvex_artifact
  env_options :: yvex_gguf_reader_options
  env_alloc :: "u64 \<Rightarrow> bool"
  sizeof_view :: u64
  sizeof_entry :: u64
  sizeof_tensor :: u64
  sizeof_value :: u64
  env_f32 :: "u32 \<Rightarrow> u64"

record gguf_failure =
  gf_result :: yvex_gguf_parse_result
  gf_error :: yvex_error

type_synonym ('e, 'a) reader = "yvex_file_cursor \<Rightarrow> ('e + 'a) \<times> yvex_file_cursor"

definition YVEX_GGUF_MAGIC :: u32 where
  "YVEX_GGUF_MAGIC = 0x46554747"

definition YVEX_GGUF_SUPPORTED_VERSION :: u32 where
  "YVEX_GGUF_SUPPORTED_VERSION = 3"

definition YVEX_GGUF_DEFAULT_ALIGNMENT :: u32 where
  "YVEX_GGUF_DEFAULT_ALIGNMENT = 32"

definition YVEX_GGUF_MAX_KEY_LEN :: u64 where
  "YVEX_GGUF_MAX_KEY_LEN = 65535"

definition YVEX_GGUF_MAX_TENSOR_NAME_LEN :: u64 where
  "YVEX_GGUF_MAX_TENSOR_NAME_LEN = 64"

definition YVEX_GGUF_MAX_DIMS :: u32 where
  "YVEX_GGUF_MAX_DIMS = 4"

definition SIZE_MAX :: u64 where
  "SIZE_MAX = ULLONG_MAX"

section \<open>Sequencing\<close>

definition read_bind :: "('e, 'a) reader \<Rightarrow> ('a \<Rightarrow> ('e, 'b) reader) \<Rightarrow> ('e, 'b) reader" where
  "read_bind m k cur = (case m cur of (Inl e, cur1) \<Rightarrow> (Inl e, cur1) | (Inr x, cur1) \<Rightarrow> k x cur1)"

definition read_return :: "'a \<Rightarrow> ('e, 'a) reader" where
  "read_return x cur = (Inr x, cur)"

definition read_update :: "(yvex_file_cursor \<Rightarrow> yvex_file_cursor) \<Rightarrow> ('e, unit) reader" where
  "read_update f cur = (Inr (), f cur)"

definition read_map_failure :: "('e \<Rightarrow> 'd) \<Rightarrow> ('e, 'a) reader \<Rightarrow> ('d, 'a) reader" where
  "read_map_failure f m cur =
     (case m cur of (Inl e, cur1) \<Rightarrow> (Inl (f e), cur1) | (Inr x, cur1) \<Rightarrow> (Inr x, cur1))"

text \<open>A failure together with what had been filled.\<close>

definition failing_with :: "'v \<Rightarrow> ('e, 'a) reader \<Rightarrow> ('e \<times> 'v, 'a) reader" where
  "failing_with partial = read_map_failure (\<lambda>e. (e, partial))"

section \<open>Failures and budgets\<close>

definition yvex_gguf_reader_options_default :: yvex_gguf_reader_options where
  "yvex_gguf_reader_options_default =
     \<lparr>max_metadata_entries = 1048576, max_tensor_entries = 1048576, max_array_entries = 16777216,
      max_total_array_entries = 33554432, max_string_bytes = 67108864,
      max_total_string_bytes = 1073741824, max_owned_bytes = 2147483648,
      max_structural_bytes = 2147483648, max_array_depth = 16\<rparr>"

definition gguf_parse_result_reset :: yvex_gguf_parse_result where
  "gguf_parse_result_reset =
     \<lparr>pr_code = YVEX_GGUF_PARSE_OK, pr_section = YVEX_GGUF_PARSE_SECTION_NONE, pr_byte_offset = 0,
      pr_record_index = ULLONG_MAX, pr_reason = ''GGUF structural reader accepted input''\<rparr>"

definition parse_code_error :: "yvex_gguf_parse_code \<Rightarrow> yvex_status" where
  "parse_code_error code =
     (case code of
        YVEX_GGUF_PARSE_OK \<Rightarrow> YVEX_OK
      | YVEX_GGUF_PARSE_INVALID_ARGUMENT \<Rightarrow> YVEX_ERR_INVALID_ARG
      | YVEX_GGUF_PARSE_FILE_UNREADABLE \<Rightarrow> YVEX_ERR_IO
      | YVEX_GGUF_PARSE_SHORT_READ \<Rightarrow> YVEX_ERR_BOUNDS
      | YVEX_GGUF_PARSE_UNSUPPORTED_VERSION \<Rightarrow> YVEX_ERR_UNSUPPORTED
      | YVEX_GGUF_PARSE_UNSUPPORTED_METADATA_TYPE \<Rightarrow> YVEX_ERR_UNSUPPORTED
      | YVEX_GGUF_PARSE_REFUSED_QTYPE \<Rightarrow> YVEX_ERR_UNSUPPORTED
      | YVEX_GGUF_PARSE_RESOURCE_LIMIT \<Rightarrow> YVEX_ERR_BOUNDS
      | YVEX_GGUF_PARSE_OFFSET_OVERFLOW \<Rightarrow> YVEX_ERR_BOUNDS
      | YVEX_GGUF_PARSE_INCOMPLETE_DIRECTORY \<Rightarrow> YVEX_ERR_BOUNDS
      | YVEX_GGUF_PARSE_ELEMENT_COUNT_OVERFLOW \<Rightarrow> YVEX_ERR_BOUNDS
      | YVEX_GGUF_PARSE_ROW_COUNT_OVERFLOW \<Rightarrow> YVEX_ERR_BOUNDS
      | YVEX_GGUF_PARSE_ROW_BYTE_OVERFLOW \<Rightarrow> YVEX_ERR_BOUNDS
      | YVEX_GGUF_PARSE_TOTAL_BYTE_OVERFLOW \<Rightarrow> YVEX_ERR_BOUNDS
      | YVEX_GGUF_PARSE_ALLOCATION_FAILURE \<Rightarrow> YVEX_ERR_NOMEM
      | _ \<Rightarrow> YVEX_ERR_FORMAT)"

definition gguf_reader_fail ::
  "yvex_gguf_parse_code \<Rightarrow> yvex_gguf_parse_section \<Rightarrow> u64 \<Rightarrow> u64 \<Rightarrow> string \<Rightarrow> string \<Rightarrow> gguf_failure" where
  "gguf_reader_fail code section byte_offset record_index loc reason =
     \<lparr>gf_result = \<lparr>pr_code = code, pr_section = section, pr_byte_offset = byte_offset,
        pr_record_index = record_index, pr_reason = reason\<rparr>,
      gf_error = refusal (parse_code_error code) loc reason\<rparr>"

definition cursor_fail ::
  "yvex_gguf_parse_code \<Rightarrow> yvex_gguf_parse_section \<Rightarrow> string \<Rightarrow> string \<Rightarrow> (gguf_failure, 'a) reader" where
  "cursor_fail code section loc reason cur =
     (Inl (gguf_reader_fail code section (cur_offset cur) (cur_record_index cur) loc reason), cur)"

abbreviation (input) resource_limit :: "string \<Rightarrow> (gguf_failure, 'a) reader" where
  "resource_limit reason \<equiv> cursor_fail YVEX_GGUF_PARSE_RESOURCE_LIMIT YVEX_GGUF_PARSE_SECTION_RESOURCE
     ''gguf.resource'' reason"

definition reserve_owned :: "reader_environment \<Rightarrow> u64 \<Rightarrow> (gguf_failure, unit) reader" where
  "reserve_owned env bytes cur =
     (let owned = owned_bytes (cur_stats cur) in
      if bytes > ULLONG_MAX - owned \<or> owned + bytes > max_owned_bytes (env_options env)
      then resource_limit ''GGUF owned-memory budget exceeded'' cur
      else (Inr (), cur\<lparr>cur_stats := (cur_stats cur)\<lparr>owned_bytes := owned + bytes\<rparr>\<rparr>))"

text \<open>The allocation after a reservation.\<close>

definition reader_allocate :: "reader_environment \<Rightarrow> string \<Rightarrow> (gguf_failure, unit) reader" where
  "reader_allocate env reason cur =
     (if env_alloc env (owned_bytes (cur_stats cur)) then (Inr (), cur)
      else cursor_fail YVEX_GGUF_PARSE_ALLOCATION_FAILURE YVEX_GGUF_PARSE_SECTION_RESOURCE
        ''gguf.resource'' reason cur)"

section \<open>Reading\<close>

definition cursor_read_exact :: "reader_environment \<Rightarrow> u64 \<Rightarrow> string \<Rightarrow> string \<Rightarrow> (gguf_failure, u8 list) reader" where
  "cursor_read_exact env amount loc field cur =
     (let stats = cur_stats cur in
      if amount > cur_size cur - (if cur_offset cur \<le> cur_size cur then cur_offset cur else cur_size cur)
      then cursor_fail YVEX_GGUF_PARSE_SHORT_READ (cur_section cur) loc field cur
      else if amount > ULLONG_MAX - structural_bytes_read stats \<or>
              structural_bytes_read stats + amount > max_structural_bytes (env_options env)
      then resource_limit ''GGUF structural-read budget exceeded'' cur
      else case yvex_artifact_read_at (env_artifact env) (cur_offset cur) amount of
        Inl _ \<Rightarrow> cursor_fail YVEX_GGUF_PARSE_SHORT_READ (cur_section cur) loc field cur
      | Inr bytes \<Rightarrow>
          (Inr bytes, cur\<lparr>cur_offset := cur_offset cur + amount,
             cur_stats := stats\<lparr>structural_bytes_read := structural_bytes_read stats + amount,
               read_calls := read_calls stats + 1\<rparr>\<rparr>))"

text \<open>The little-endian loads.\<close>

fun le_load :: "u8 list \<Rightarrow> u64" where
  "le_load [] = 0"
| "le_load (b # bytes) = ucast b OR push_bit 8 (le_load bytes)"

definition gguf_u32le_load :: "u8 list \<Rightarrow> u32" where
  "gguf_u32le_load bytes = ucast (bytes ! 0) OR push_bit 8 (ucast (bytes ! 1)) OR
     push_bit 16 (ucast (bytes ! 2)) OR push_bit 24 (ucast (bytes ! 3))"

definition decode_u64le :: "u8 list \<Rightarrow> u64" where
  "decode_u64le bytes = ucast (bytes ! 0) OR push_bit 8 (ucast (bytes ! 1)) OR
     push_bit 16 (ucast (bytes ! 2)) OR push_bit 24 (ucast (bytes ! 3)) OR
     push_bit 32 (ucast (bytes ! 4)) OR push_bit 40 (ucast (bytes ! 5)) OR
     push_bit 48 (ucast (bytes ! 6)) OR push_bit 56 (ucast (bytes ! 7))"

definition cursor_read_u32le :: "reader_environment \<Rightarrow> string \<Rightarrow> string \<Rightarrow> (gguf_failure, u32) reader" where
  "cursor_read_u32le env loc field =
     read_bind (cursor_read_exact env 4 loc field) (\<lambda>bytes. read_return (gguf_u32le_load bytes))"

definition cursor_read_u64le :: "reader_environment \<Rightarrow> string \<Rightarrow> string \<Rightarrow> (gguf_failure, u64) reader" where
  "cursor_read_u64le env loc field =
     read_bind (cursor_read_exact env 8 loc field) (\<lambda>bytes. read_return (decode_u64le bytes))"

definition string_parse_code :: "yvex_file_cursor \<Rightarrow> u64 \<Rightarrow> yvex_gguf_parse_code" where
  "string_parse_code cur format_max =
     (if format_max = 0 then YVEX_GGUF_PARSE_MALFORMED_STRING
      else if cur_section cur = YVEX_GGUF_PARSE_SECTION_METADATA then YVEX_GGUF_PARSE_MALFORMED_KEY
      else YVEX_GGUF_PARSE_MALFORMED_TENSOR_NAME)"

definition empty_identifier_parse_code :: "yvex_file_cursor \<Rightarrow> yvex_gguf_parse_code" where
  "empty_identifier_parse_code cur =
     (if cur_section cur = YVEX_GGUF_PARSE_SECTION_METADATA then YVEX_GGUF_PARSE_EMPTY_METADATA_KEY
      else YVEX_GGUF_PARSE_EMPTY_TENSOR_NAME)"

definition identifier_parse_code :: "yvex_file_cursor \<Rightarrow> yvex_gguf_parse_code" where
  "identifier_parse_code cur =
     (if cur_section cur = YVEX_GGUF_PARSE_SECTION_METADATA then YVEX_GGUF_PARSE_MALFORMED_KEY
      else YVEX_GGUF_PARSE_MALFORMED_TENSOR_NAME)"

text \<open>The checks of a declared string length, before any memory is reserved.\<close>

definition string_length_check ::
  "reader_environment \<Rightarrow> u64 \<Rightarrow> bool \<Rightarrow> string \<Rightarrow> u64 \<Rightarrow> (gguf_failure, unit) reader" where
  "string_length_check env format_max reject_empty loc len cur =
     (let options = env_options env; used = total_string_bytes (cur_stats cur) in
      if reject_empty \<and> len = 0
      then cursor_fail (empty_identifier_parse_code cur) (cur_section cur) loc
        ''GGUF identifier string is empty'' cur
      else if format_max \<noteq> 0 \<and> len > format_max
      then cursor_fail (identifier_parse_code cur) (cur_section cur) loc
        ''GGUF identifier exceeds the pinned format limit'' cur
      else if len > max_string_bytes options
      then resource_limit ''GGUF string exceeds configured limit'' cur
      else if len > SIZE_MAX - 1 \<or> len > ULLONG_MAX - used \<or> used + len > max_total_string_bytes options
      then resource_limit ''GGUF cumulative string budget exceeded'' cur
      else (Inr (), cur))"

definition string_bytes_read ::
  "reader_environment \<Rightarrow> u64 \<Rightarrow> string \<Rightarrow> string \<Rightarrow> u64 \<Rightarrow> (gguf_failure, u8 list) reader" where
  "string_bytes_read env format_max loc field len cur =
     (if len > 0
      then case cursor_read_exact env len loc field cur of
        (Inl _, cur1) \<Rightarrow> cursor_fail (string_parse_code cur1 format_max) (cur_section cur1) loc field cur1
      | (Inr bytes, cur1) \<Rightarrow> (Inr bytes, cur1)
      else (Inr [], cur))"

definition string_content_check ::
  "u64 \<Rightarrow> bool \<Rightarrow> string \<Rightarrow> u8 list \<Rightarrow> (gguf_failure, u8 list) reader" where
  "string_content_check format_max reject_nul loc copy cur =
     (if reject_nul \<and> 0 \<in> set copy
      then cursor_fail (identifier_parse_code cur) (cur_section cur) loc
        ''GGUF identifier contains an embedded null byte'' cur
      else if \<not> utf8_valid copy
      then cursor_fail (string_parse_code cur format_max) (cur_section cur) loc
        ''GGUF string is not valid UTF-8'' cur
      else (Inr copy, cur\<lparr>cur_stats := (cur_stats cur)\<lparr>total_string_bytes :=
        total_string_bytes (cur_stats cur) + of_nat (length copy)\<rparr>\<rparr>))"

definition cursor_read_string ::
  "reader_environment \<Rightarrow> u64 \<Rightarrow> bool \<Rightarrow> bool \<Rightarrow> string \<Rightarrow> string \<Rightarrow> (gguf_failure, u8 list) reader" where
  "cursor_read_string env format_max reject_empty reject_nul loc field =
     read_bind (cursor_read_u64le env loc field) (\<lambda>len.
     read_bind (string_length_check env format_max reject_empty loc len) (\<lambda>_.
     read_bind (reserve_owned env (len + 1)) (\<lambda>_.
     read_bind (reader_allocate env ''failed to allocate GGUF string'') (\<lambda>_.
     read_bind (string_bytes_read env format_max loc field len) (\<lambda>copy.
     string_content_check format_max reject_nul loc copy)))))"

section \<open>Values\<close>

text \<open>
  The cleanup of a value.  Items that were never allocated are a null pointer; the loop over the
  declared count skips the address of item 0, which is null, and follows the address of item 1.
\<close>

fun value_clear_faults :: "yvex_gguf_value \<Rightarrow> bool" where
  "value_clear_faults (Gguf_array element_type n None) = (n > 1)"
| "value_clear_faults (Gguf_array element_type n (Some items)) = list_ex value_clear_faults items"
| "value_clear_faults _ = False"

definition gguf_value_clear :: "yvex_gguf_value \<Rightarrow> bool \<times> yvex_gguf_value" where
  "gguf_value_clear value = (value_clear_faults value, Gguf_zero YVEX_GGUF_VALUE_INVALID)"

definition value_types :: "yvex_gguf_value_type list" where
  "value_types = [YVEX_GGUF_VALUE_UINT8, YVEX_GGUF_VALUE_INT8, YVEX_GGUF_VALUE_UINT16,
     YVEX_GGUF_VALUE_INT16, YVEX_GGUF_VALUE_UINT32, YVEX_GGUF_VALUE_INT32, YVEX_GGUF_VALUE_FLOAT32,
     YVEX_GGUF_VALUE_BOOL, YVEX_GGUF_VALUE_STRING, YVEX_GGUF_VALUE_ARRAY, YVEX_GGUF_VALUE_UINT64,
     YVEX_GGUF_VALUE_INT64, YVEX_GGUF_VALUE_FLOAT64]"

definition parse_value_type :: "u32 \<Rightarrow> (gguf_failure, yvex_gguf_value_type) reader" where
  "parse_value_type raw =
     (if raw > 12
      then cursor_fail YVEX_GGUF_PARSE_UNSUPPORTED_METADATA_TYPE YVEX_GGUF_PARSE_SECTION_METADATA
        ''gguf.metadata.type'' ''unsupported GGUF metadata value type''
      else read_return (value_types ! unat raw))"

datatype scalar_kind = SCALAR_UNSIGNED | SCALAR_SIGNED | SCALAR_FLOAT | SCALAR_BOOL

fun scalar_specs :: "yvex_gguf_value_type \<Rightarrow> nat \<times> scalar_kind \<times> string" where
  "scalar_specs YVEX_GGUF_VALUE_UINT8 = (1, SCALAR_UNSIGNED, ''truncated uint8 metadata value'')"
| "scalar_specs YVEX_GGUF_VALUE_INT8 = (1, SCALAR_SIGNED, ''truncated int8 metadata value'')"
| "scalar_specs YVEX_GGUF_VALUE_UINT16 = (2, SCALAR_UNSIGNED, ''truncated uint16 metadata value'')"
| "scalar_specs YVEX_GGUF_VALUE_INT16 = (2, SCALAR_SIGNED, ''truncated int16 metadata value'')"
| "scalar_specs YVEX_GGUF_VALUE_UINT32 = (4, SCALAR_UNSIGNED, ''truncated uint32 metadata value'')"
| "scalar_specs YVEX_GGUF_VALUE_INT32 = (4, SCALAR_SIGNED, ''truncated int32 metadata value'')"
| "scalar_specs YVEX_GGUF_VALUE_FLOAT32 = (4, SCALAR_FLOAT, ''truncated float32 metadata value'')"
| "scalar_specs YVEX_GGUF_VALUE_BOOL = (1, SCALAR_BOOL, ''truncated bool metadata value'')"
| "scalar_specs YVEX_GGUF_VALUE_UINT64 = (8, SCALAR_UNSIGNED, ''truncated uint64 metadata value'')"
| "scalar_specs YVEX_GGUF_VALUE_INT64 = (8, SCALAR_SIGNED, ''truncated int64 metadata value'')"
| "scalar_specs YVEX_GGUF_VALUE_FLOAT64 = (8, SCALAR_FLOAT, ''truncated float64 metadata value'')"
| "scalar_specs _ = (0, SCALAR_UNSIGNED, [])"

definition sign_extend :: "nat \<Rightarrow> u64 \<Rightarrow> u64" where
  "sign_extend bytes bits =
     (if bytes < 8 \<and> bits AND push_bit (bytes * 8 - 1) 1 \<noteq> 0
      then bits OR push_bit (bytes * 8) ULLONG_MAX else bits)"

definition parse_scalar ::
  "reader_environment \<Rightarrow> yvex_gguf_value_type \<Rightarrow> (gguf_failure, yvex_gguf_value) reader" where
  "parse_scalar env type =
     (let (size, kind, truncated) = scalar_specs type in
      if size = 0
      then (\<lambda>cur. (Inl \<lparr>gf_result = gguf_parse_result_reset, gf_error = refusal YVEX_ERR_FORMAT [] []\<rparr>, cur))
      else read_bind (cursor_read_exact env (of_nat size) ''gguf.metadata.value'' truncated) (\<lambda>bytes.
        let bits = le_load (take size bytes) in
        case kind of
          SCALAR_UNSIGNED \<Rightarrow> read_return (Gguf_u64 type bits)
        | SCALAR_SIGNED \<Rightarrow> read_return (Gguf_i64 type (sign_extend size bits))
        | SCALAR_FLOAT \<Rightarrow> read_return (Gguf_f64 type (if size = 4 then env_f32 env (ucast bits) else bits))
        | SCALAR_BOOL \<Rightarrow>
            if bits \<le> 1 then read_return (Gguf_bool (bits \<noteq> 0))
            else cursor_fail YVEX_GGUF_PARSE_MALFORMED_VALUE YVEX_GGUF_PARSE_SECTION_METADATA
              ''gguf.metadata.value'' ''GGUF bool metadata value must be zero or one''))"

text \<open>
  The items of an array, by a parser of one item; a failing item leaves its partial value as the
  last one.
\<close>

fun parse_items ::
  "(gguf_failure \<times> yvex_gguf_value, yvex_gguf_value) reader \<Rightarrow> nat \<Rightarrow> yvex_gguf_value list \<Rightarrow>
   (gguf_failure \<times> yvex_gguf_value list, yvex_gguf_value list) reader" where
  "parse_items item 0 items cur = (Inr items, cur)"
| "parse_items item (Suc n) items cur =
     (case item cur of
        (Inl (e, partial), cur1) \<Rightarrow> (Inl (e, items @ [partial]), cur1)
      | (Inr value, cur1) \<Rightarrow> parse_items item n (items @ [value]) cur1)"

definition array_budget_check :: "reader_environment \<Rightarrow> u64 \<Rightarrow> (gguf_failure, unit) reader" where
  "array_budget_check env entries cur =
     (let options = env_options env; used = total_array_entries (cur_stats cur) in
      if entries > max_array_entries options \<or> entries > ULLONG_MAX - used \<or>
         used + entries > max_total_array_entries options
      then resource_limit ''GGUF array entry budget exceeded'' cur
      else if entries > SIZE_MAX div sizeof_value env
      then resource_limit ''GGUF array allocation exceeds address space'' cur
      else (Inr (), cur\<lparr>cur_stats := (cur_stats cur)\<lparr>total_array_entries := used + entries\<rparr>\<rparr>))"

definition parse_array ::
  "reader_environment \<Rightarrow> (yvex_gguf_value_type \<Rightarrow> (gguf_failure \<times> yvex_gguf_value, yvex_gguf_value) reader) \<Rightarrow>
   (gguf_failure \<times> yvex_gguf_value, yvex_gguf_value) reader" where
  "parse_array env item =
     (let untouched = Gguf_zero YVEX_GGUF_VALUE_ARRAY in
      read_bind (failing_with untouched (cursor_read_u32le env ''gguf.metadata.array'' ''truncated GGUF array element type'')) (\<lambda>raw_type.
      read_bind (failing_with untouched (parse_value_type raw_type)) (\<lambda>element_type.
      read_bind (failing_with untouched (cursor_read_u64le env ''gguf.metadata.array'' ''truncated GGUF array count'')) (\<lambda>count.
      read_bind (failing_with untouched (array_budget_check env count)) (\<lambda>_.
      if count = 0 then read_return (Gguf_array element_type 0 None)
      else
        let sized = Gguf_array element_type count None in
        read_bind (failing_with sized (reserve_owned env (count * sizeof_value env))) (\<lambda>_.
        read_bind (failing_with sized (reader_allocate env ''failed to allocate GGUF array items'')) (\<lambda>_ cur.
        case parse_items (item element_type) (unat count) [] cur of
          (Inl (e, items), cur1) \<Rightarrow>
            let (fault, cleared) = gguf_value_clear (Gguf_array element_type count (Some items))
            in (Inl (e, cleared), cur1\<lparr>cur_fault := cur_fault cur1 \<or> fault\<rparr>)
        | (Inr items, cur1) \<Rightarrow> (Inr (Gguf_array element_type count (Some items)), cur1))))))))"

definition array_too_deep :: "(gguf_failure \<times> yvex_gguf_value, yvex_gguf_value) reader" where
  "array_too_deep =
     failing_with (Gguf_zero YVEX_GGUF_VALUE_ARRAY)
       (resource_limit ''GGUF array nesting depth exceeds configured limit'')"

text \<open>The dispatch on the type, given what to do with an array.\<close>

definition parse_typed ::
  "reader_environment \<Rightarrow> (gguf_failure \<times> yvex_gguf_value, yvex_gguf_value) reader \<Rightarrow> yvex_gguf_value_type \<Rightarrow>
   (gguf_failure \<times> yvex_gguf_value, yvex_gguf_value) reader" where
  "parse_typed env array type =
     (if type = YVEX_GGUF_VALUE_STRING
      then read_bind (failing_with (Gguf_zero type) (cursor_read_string env 0 False False ''gguf.metadata.value''
        ''truncated GGUF metadata string'')) (\<lambda>bytes. read_return (Gguf_string bytes))
      else if type = YVEX_GGUF_VALUE_ARRAY then array
      else if type = YVEX_GGUF_VALUE_INVALID
      then failing_with (Gguf_zero type) (cursor_fail YVEX_GGUF_PARSE_UNSUPPORTED_METADATA_TYPE YVEX_GGUF_PARSE_SECTION_METADATA
        ''gguf.metadata.type'' ''unsupported GGUF metadata value type'')
      else failing_with (Gguf_zero type) (parse_scalar env type))"

text \<open>The recursion over the nesting; the number is the depth left, \<open>max_array_depth - depth\<close> in the code.\<close>

primrec parse_value ::
  "nat \<Rightarrow> reader_environment \<Rightarrow> yvex_gguf_value_type \<Rightarrow>
   (gguf_failure \<times> yvex_gguf_value, yvex_gguf_value) reader" where
  "parse_value 0 env type = parse_typed env array_too_deep type"
| "parse_value (Suc depth) env type = parse_typed env (parse_array env (parse_value depth env)) type"

section \<open>Header and metadata\<close>

definition set_section :: "yvex_gguf_parse_section \<Rightarrow> ('e, unit) reader" where
  "set_section section = read_update (\<lambda>cur. cur\<lparr>cur_section := section\<rparr>)"

definition set_record :: "u64 \<Rightarrow> ('e, unit) reader" where
  "set_record index = read_update (\<lambda>cur. cur\<lparr>cur_record_index := index\<rparr>)"

definition parse_header :: "reader_environment \<Rightarrow> (gguf_failure, yvex_gguf_header) reader" where
  "parse_header env =
     read_bind (set_section YVEX_GGUF_PARSE_SECTION_CONTAINER) (\<lambda>_.
     read_bind (set_record ULLONG_MAX) (\<lambda>_.
     read_bind (cursor_read_u32le env ''core.container'' ''truncated GGUF magic'') (\<lambda>magic.
     if magic \<noteq> YVEX_GGUF_MAGIC
     then cursor_fail YVEX_GGUF_PARSE_INVALID_MAGIC YVEX_GGUF_PARSE_SECTION_CONTAINER ''core.container''
       ''invalid GGUF magic''
     else
     read_bind (cursor_read_u32le env ''core.container'' ''truncated GGUF version'') (\<lambda>ver.
     if ver \<noteq> YVEX_GGUF_SUPPORTED_VERSION
     then cursor_fail YVEX_GGUF_PARSE_UNSUPPORTED_VERSION YVEX_GGUF_PARSE_SECTION_CONTAINER
       ''core.container'' ''unsupported GGUF container version''
     else
     read_bind (cursor_read_u64le env ''core.container'' ''truncated GGUF tensor count'') (\<lambda>tensors.
     read_bind (cursor_read_u64le env ''core.container'' ''truncated GGUF metadata count'') (\<lambda>metadata.
     if metadata > max_metadata_entries (env_options env) \<or> tensors > max_tensor_entries (env_options env)
     then resource_limit ''GGUF directory count exceeds configured limit''
     else read_return \<lparr>version = ver, metadata_count = metadata, tensor_count = tensors\<rparr>))))))"

definition name_index_allocate :: "reader_environment \<Rightarrow> u64 \<Rightarrow> (gguf_failure, u64 list) reader" where
  "name_index_allocate env entries =
     (if entries = 0 then read_return []
      else if entries > ULLONG_MAX div 2
      then cursor_fail YVEX_GGUF_PARSE_INVALID_COUNT YVEX_GGUF_PARSE_SECTION_RESOURCE ''gguf.resource''
        ''GGUF identifier count overflows index sizing''
      else case name_index_capacity (entries * 2) 8 of
        None \<Rightarrow> resource_limit ''GGUF identifier index exceeds address space''
      | Some capacity \<Rightarrow>
          if capacity > SIZE_MAX div 8
          then resource_limit ''GGUF identifier index allocation overflows''
          else
            read_bind (reserve_owned env (capacity * 8)) (\<lambda>_.
            read_bind (reader_allocate env ''failed to allocate GGUF identifier index'') (\<lambda>_.
            read_return (replicate (unat capacity) 0))))"

definition metadata_index_insert ::
  "yvex_gguf \<Rightarrow> u8 list \<Rightarrow> (gguf_failure, u64 list) reader" where
  "metadata_index_insert gguf key cur =
     (case name_index_insert (metadata_index gguf) (map md_key (g_metadata gguf)) key of
        Inr slots \<Rightarrow> (Inr slots, cur)
      | Inl prior \<Rightarrow>
          cursor_fail YVEX_GGUF_PARSE_DUPLICATE_METADATA_KEY YVEX_GGUF_PARSE_SECTION_METADATA
            ''gguf.metadata.key'' ''duplicate GGUF metadata key''
            (cur\<lparr>cur_fault := cur_fault cur \<or> prior \<ge> length (g_metadata gguf)\<rparr>))"

text \<open>The loop over the metadata entries; a failing entry leaves its partial value in the table.\<close>

fun metadata_loop ::
  "reader_environment \<Rightarrow> nat \<Rightarrow> yvex_gguf \<Rightarrow> (gguf_failure \<times> yvex_gguf, yvex_gguf) reader" where
  "metadata_loop env 0 gguf = read_return gguf"
| "metadata_loop env (Suc n) gguf =
     (read_bind (set_record (of_nat (length (g_metadata gguf)))) (\<lambda>_.
      read_bind (failing_with gguf (cursor_read_string env YVEX_GGUF_MAX_KEY_LEN True True ''gguf.metadata.key''
        ''truncated GGUF metadata key'')) (\<lambda>key.
      if \<not> metadata_key_valid key
      then failing_with gguf (cursor_fail YVEX_GGUF_PARSE_MALFORMED_KEY YVEX_GGUF_PARSE_SECTION_METADATA
        ''gguf.metadata.key'' ''GGUF metadata key violates pinned key grammar'')
      else
      read_bind (failing_with gguf (metadata_index_insert gguf key)) (\<lambda>slots.
      read_bind (failing_with gguf (cursor_read_u32le env ''gguf.metadata.type'' ''truncated GGUF metadata value type'')) (\<lambda>raw_type.
      read_bind (failing_with gguf (parse_value_type raw_type)) (\<lambda>type.
      read_bind (read_map_failure
          (\<lambda>(e, partial). (e, gguf\<lparr>g_metadata := g_metadata gguf @ [\<lparr>md_key = key, md_value = partial\<rparr>]\<rparr>))
          (parse_value (unat (max_array_depth (env_options env))) env type)) (\<lambda>value.
      metadata_loop env n (gguf\<lparr>metadata_index := slots,
        g_metadata := g_metadata gguf @ [\<lparr>md_key = key, md_value = value\<rparr>]\<rparr>))))))))"

definition parse_metadata ::
  "reader_environment \<Rightarrow> yvex_gguf \<Rightarrow> (gguf_failure \<times> yvex_gguf, yvex_gguf) reader" where
  "parse_metadata env gguf =
     (let count = metadata_count (g_header gguf) in
      read_bind (set_section YVEX_GGUF_PARSE_SECTION_METADATA) (\<lambda>_.
      if count = 0 then read_return gguf
      else if count > SIZE_MAX div sizeof_entry env
      then failing_with gguf (cursor_fail YVEX_GGUF_PARSE_INVALID_COUNT YVEX_GGUF_PARSE_SECTION_RESOURCE
        ''gguf.resource'' ''GGUF metadata count exceeds address space'')
      else
      read_bind (failing_with gguf (reserve_owned env (count * sizeof_entry env))) (\<lambda>_.
      read_bind (failing_with gguf (reader_allocate env ''failed to allocate GGUF metadata table'')) (\<lambda>_.
      read_bind (failing_with gguf (name_index_allocate env count)) (\<lambda>slots.
      read_bind (metadata_loop env (unat count) (gguf\<lparr>metadata_index := slots\<rparr>)) (\<lambda>filled.
      read_bind (set_record ULLONG_MAX) (\<lambda>_. read_return filled)))))))"

end
