(* ===== verification/Gguf_Directory.thy ===== *)
theory Gguf_Directory
  imports Gguf_Reader
begin

text \<open>
  The second half of \<^verbatim>\<open>src/gguf/core.c\<close>: the lookups and accessors of a parsed view, the alignment, the
  tensor directory with the ranges derived from it, and the entry points that open and probe a file.
  A null handle is \<open>None\<close>.
\<close>

section \<open>Accessors\<close>

definition yvex_gguf_header_view :: "yvex_gguf option \<Rightarrow> yvex_gguf_header option" where
  "yvex_gguf_header_view gguf = map_option g_header gguf"

fun yvex_gguf_value_type_name :: "yvex_gguf_value_type \<Rightarrow> string" where
  "yvex_gguf_value_type_name YVEX_GGUF_VALUE_UINT8 = ''uint8''"
| "yvex_gguf_value_type_name YVEX_GGUF_VALUE_INT8 = ''int8''"
| "yvex_gguf_value_type_name YVEX_GGUF_VALUE_UINT16 = ''uint16''"
| "yvex_gguf_value_type_name YVEX_GGUF_VALUE_INT16 = ''int16''"
| "yvex_gguf_value_type_name YVEX_GGUF_VALUE_UINT32 = ''uint32''"
| "yvex_gguf_value_type_name YVEX_GGUF_VALUE_INT32 = ''int32''"
| "yvex_gguf_value_type_name YVEX_GGUF_VALUE_FLOAT32 = ''float32''"
| "yvex_gguf_value_type_name YVEX_GGUF_VALUE_BOOL = ''bool''"
| "yvex_gguf_value_type_name YVEX_GGUF_VALUE_STRING = ''string''"
| "yvex_gguf_value_type_name YVEX_GGUF_VALUE_ARRAY = ''array''"
| "yvex_gguf_value_type_name YVEX_GGUF_VALUE_UINT64 = ''uint64''"
| "yvex_gguf_value_type_name YVEX_GGUF_VALUE_INT64 = ''int64''"
| "yvex_gguf_value_type_name YVEX_GGUF_VALUE_FLOAT64 = ''float64''"
| "yvex_gguf_value_type_name YVEX_GGUF_VALUE_INVALID = ''invalid''"

definition yvex_gguf_metadata_count :: "yvex_gguf option \<Rightarrow> u64" where
  "yvex_gguf_metadata_count gguf = (case gguf of None \<Rightarrow> 0 | Some g \<Rightarrow> metadata_count (g_header g))"

definition yvex_gguf_metadata_key :: "yvex_gguf option \<Rightarrow> u64 \<Rightarrow> u8 list option" where
  "yvex_gguf_metadata_key gguf index =
     (case gguf of None \<Rightarrow> None
      | Some g \<Rightarrow> if index < metadata_count (g_header g) then Some (md_key (g_metadata g ! unat index)) else None)"

definition yvex_gguf_metadata_value :: "yvex_gguf option \<Rightarrow> u64 \<Rightarrow> yvex_gguf_value option" where
  "yvex_gguf_metadata_value gguf index =
     (case gguf of None \<Rightarrow> None
      | Some g \<Rightarrow> if index < metadata_count (g_header g) then Some (md_value (g_metadata g ! unat index)) else None)"

definition yvex_gguf_metadata_find :: "yvex_gguf option \<Rightarrow> u8 list option \<Rightarrow> yvex_gguf_value option" where
  "yvex_gguf_metadata_find gguf key =
     (case (gguf, key) of
        (Some g, Some k) \<Rightarrow>
          map_option (\<lambda>i. md_value (g_metadata g ! i))
            (name_index_find (metadata_index g) (map md_key (g_metadata g)) k)
      | _ \<Rightarrow> None)"

fun value_tag :: "yvex_gguf_value \<Rightarrow> yvex_gguf_value_type" where
  "value_tag (Gguf_zero t) = t"
| "value_tag (Gguf_u64 t _) = t"
| "value_tag (Gguf_i64 t _) = t"
| "value_tag (Gguf_f64 t _) = t"
| "value_tag (Gguf_bool _) = YVEX_GGUF_VALUE_BOOL"
| "value_tag (Gguf_string _) = YVEX_GGUF_VALUE_STRING"
| "value_tag (Gguf_array _ _ _) = YVEX_GGUF_VALUE_ARRAY"

definition yvex_gguf_value_type_of :: "yvex_gguf_value option \<Rightarrow> yvex_gguf_value_type" where
  "yvex_gguf_value_type_of v = (case v of None \<Rightarrow> YVEX_GGUF_VALUE_INVALID | Some x \<Rightarrow> value_tag x)"

text \<open>The typed reads of a value; \<open>None\<close> is \<open>YVEX_ERR_INVALID_ARG\<close>.  A zeroed union reads as zero.\<close>

definition yvex_gguf_value_as_u64 :: "yvex_gguf_value option \<Rightarrow> u64 option" where
  "yvex_gguf_value_as_u64 v =
     (if yvex_gguf_value_type_of v \<in> {YVEX_GGUF_VALUE_UINT8, YVEX_GGUF_VALUE_UINT16,
         YVEX_GGUF_VALUE_UINT32, YVEX_GGUF_VALUE_UINT64}
      then (case v of Some (Gguf_u64 _ n) \<Rightarrow> Some n | _ \<Rightarrow> Some 0) else None)"

definition yvex_gguf_value_as_i64 :: "yvex_gguf_value option \<Rightarrow> u64 option" where
  "yvex_gguf_value_as_i64 v =
     (if yvex_gguf_value_type_of v \<in> {YVEX_GGUF_VALUE_INT8, YVEX_GGUF_VALUE_INT16,
         YVEX_GGUF_VALUE_INT32, YVEX_GGUF_VALUE_INT64}
      then (case v of Some (Gguf_i64 _ n) \<Rightarrow> Some n | _ \<Rightarrow> Some 0) else None)"

definition yvex_gguf_value_as_f64 :: "yvex_gguf_value option \<Rightarrow> u64 option" where
  "yvex_gguf_value_as_f64 v =
     (if yvex_gguf_value_type_of v \<in> {YVEX_GGUF_VALUE_FLOAT32, YVEX_GGUF_VALUE_FLOAT64}
      then (case v of Some (Gguf_f64 _ n) \<Rightarrow> Some n | _ \<Rightarrow> Some 0) else None)"

definition yvex_gguf_value_as_bool :: "yvex_gguf_value option \<Rightarrow> bool option" where
  "yvex_gguf_value_as_bool v =
     (if yvex_gguf_value_type_of v = YVEX_GGUF_VALUE_BOOL
      then (case v of Some (Gguf_bool b) \<Rightarrow> Some b | _ \<Rightarrow> Some False) else None)"

text \<open>The string of a zeroed value is a null pointer of length zero, here the inner \<open>None\<close>.\<close>

definition yvex_gguf_value_as_string :: "yvex_gguf_value option \<Rightarrow> u8 list option option" where
  "yvex_gguf_value_as_string v =
     (if yvex_gguf_value_type_of v = YVEX_GGUF_VALUE_STRING
      then (case v of Some (Gguf_string bytes) \<Rightarrow> Some (Some bytes) | _ \<Rightarrow> Some None) else None)"

definition yvex_gguf_value_array_info ::
  "yvex_gguf_value option \<Rightarrow> (yvex_gguf_value_type \<times> u64) option" where
  "yvex_gguf_value_array_info v =
     (if yvex_gguf_value_type_of v = YVEX_GGUF_VALUE_ARRAY
      then (case v of Some (Gguf_array t n _) \<Rightarrow> Some (t, n) | _ \<Rightarrow> Some (YVEX_GGUF_VALUE_UINT8, 0)) else None)"

text \<open>An array with entries but no items exists only inside a failed open; it is read as absent.\<close>

definition yvex_gguf_value_array_at :: "yvex_gguf_value option \<Rightarrow> u64 \<Rightarrow> yvex_gguf_value option" where
  "yvex_gguf_value_array_at v index =
     (case v of
        Some (Gguf_array t n (Some items)) \<Rightarrow> if index \<ge> n then None else Some (items ! unat index)
      | _ \<Rightarrow> None)"

definition yvex_gguf_tensor_count :: "yvex_gguf option \<Rightarrow> u64" where
  "yvex_gguf_tensor_count gguf = (case gguf of None \<Rightarrow> 0 | Some g \<Rightarrow> tensor_count (g_header g))"

definition yvex_gguf_tensor_at :: "yvex_gguf option \<Rightarrow> u64 \<Rightarrow> yvex_gguf_tensor_info option" where
  "yvex_gguf_tensor_at gguf index =
     (case gguf of None \<Rightarrow> None
      | Some g \<Rightarrow> if index < tensor_count (g_header g) then Some (g_tensors g ! unat index) else None)"

definition yvex_gguf_tensor_find :: "yvex_gguf option \<Rightarrow> u8 list option \<Rightarrow> yvex_gguf_tensor_info option" where
  "yvex_gguf_tensor_find gguf name =
     (case (gguf, name) of
        (Some g, Some n) \<Rightarrow>
          map_option (\<lambda>i. g_tensors g ! i) (name_index_find (tensor_index g) (map ti_name (g_tensors g)) n)
      | _ \<Rightarrow> None)"

definition yvex_gguf_tensor_data_offset :: "yvex_gguf option \<Rightarrow> u64" where
  "yvex_gguf_tensor_data_offset gguf = (case gguf of None \<Rightarrow> 0 | Some g \<Rightarrow> tensor_data_offset g)"

definition yvex_gguf_alignment :: "yvex_gguf option \<Rightarrow> u32" where
  "yvex_gguf_alignment gguf = (case gguf of None \<Rightarrow> 0 | Some g \<Rightarrow> alignment g)"

definition yvex_gguf_file_size :: "yvex_gguf option \<Rightarrow> u64" where
  "yvex_gguf_file_size gguf = (case gguf of None \<Rightarrow> 0 | Some g \<Rightarrow> file_size (g_stats g))"

definition yvex_gguf_reader_stats_view :: "yvex_gguf option \<Rightarrow> yvex_gguf_reader_stats option" where
  "yvex_gguf_reader_stats_view gguf = map_option g_stats gguf"

section \<open>Alignment\<close>

definition general_alignment :: "u8 list" where
  "general_alignment = map of_char ''general.alignment''"

definition derive_alignment :: "yvex_gguf \<Rightarrow> (gguf_failure, yvex_gguf) reader" where
  "derive_alignment gguf =
     (let gguf = gguf\<lparr>alignment := YVEX_GGUF_DEFAULT_ALIGNMENT\<rparr>;
          found = yvex_gguf_metadata_find (Some gguf) (Some general_alignment)
      in case found of None \<Rightarrow> read_return gguf
         | Some v \<Rightarrow>
             (case (if yvex_gguf_value_type_of (Some v) = YVEX_GGUF_VALUE_UINT32
                    then yvex_gguf_value_as_u64 (Some v) else None) of
                Some n \<Rightarrow>
                  if n = 0 \<or> n > 0xffffffff
                  then read_bind (set_section YVEX_GGUF_PARSE_SECTION_METADATA) (\<lambda>_.
                    cursor_fail YVEX_GGUF_PARSE_INVALID_ALIGNMENT YVEX_GGUF_PARSE_SECTION_METADATA
                      ''gguf.metadata.alignment'' ''general.alignment must be uint32 and nonzero'')
                  else read_return (gguf\<lparr>alignment := ucast n\<rparr>)
              | None \<Rightarrow>
                  read_bind (set_section YVEX_GGUF_PARSE_SECTION_METADATA) (\<lambda>_.
                    cursor_fail YVEX_GGUF_PARSE_INVALID_ALIGNMENT YVEX_GGUF_PARSE_SECTION_METADATA
                      ''gguf.metadata.alignment'' ''general.alignment must be uint32 and nonzero'')))"

definition align_offset :: "u64 \<Rightarrow> u32 \<Rightarrow> (gguf_failure, u64) reader" where
  "align_offset offset align =
     (if align = 0
      then cursor_fail YVEX_GGUF_PARSE_INVALID_ALIGNMENT YVEX_GGUF_PARSE_SECTION_RANGE ''gguf.range''
        ''GGUF alignment is zero''
      else
        let remainder = offset mod ucast align;
            padding = (if remainder = 0 then 0 else ucast align - remainder)
        in if offset > ULLONG_MAX - padding
           then cursor_fail YVEX_GGUF_PARSE_OFFSET_OVERFLOW YVEX_GGUF_PARSE_SECTION_RANGE ''gguf.range''
             ''GGUF tensor-data alignment overflows''
           else read_return (offset + padding))"

section \<open>The tensor directory\<close>

definition qtype_parse_code :: "yvex_gguf_qtype_storage_status \<Rightarrow> yvex_gguf_parse_code" where
  "qtype_parse_code status =
     (case status of
        YVEX_GGUF_QTYPE_STORAGE_INVALID_RANK \<Rightarrow> YVEX_GGUF_PARSE_INVALID_RANK
      | YVEX_GGUF_QTYPE_STORAGE_INVALID_DIMENSION \<Rightarrow> YVEX_GGUF_PARSE_INVALID_DIMENSION
      | YVEX_GGUF_QTYPE_STORAGE_ELEMENT_COUNT_OVERFLOW \<Rightarrow> YVEX_GGUF_PARSE_ELEMENT_COUNT_OVERFLOW
      | YVEX_GGUF_QTYPE_STORAGE_ROW_COUNT_OVERFLOW \<Rightarrow> YVEX_GGUF_PARSE_ROW_COUNT_OVERFLOW
      | YVEX_GGUF_QTYPE_STORAGE_ROW_BYTE_OVERFLOW \<Rightarrow> YVEX_GGUF_PARSE_ROW_BYTE_OVERFLOW
      | YVEX_GGUF_QTYPE_STORAGE_TOTAL_BYTE_OVERFLOW \<Rightarrow> YVEX_GGUF_PARSE_TOTAL_BYTE_OVERFLOW
      | _ \<Rightarrow> YVEX_GGUF_PARSE_REFUSED_QTYPE)"

definition tensor_index_insert :: "yvex_gguf \<Rightarrow> u8 list \<Rightarrow> (gguf_failure, u64 list) reader" where
  "tensor_index_insert gguf name cur =
     (case name_index_insert (tensor_index gguf) (map ti_name (g_tensors gguf)) name of
        Inr slots \<Rightarrow> (Inr slots, cur)
      | Inl prior \<Rightarrow>
          cursor_fail YVEX_GGUF_PARSE_DUPLICATE_TENSOR_NAME YVEX_GGUF_PARSE_SECTION_TENSOR_INFO
            ''gguf.tensor.name'' ''duplicate GGUF tensor name''
            (cur\<lparr>cur_fault := cur_fault cur \<or> prior \<ge> length (g_tensors gguf)\<rparr>))"

fun dims_loop :: "reader_environment \<Rightarrow> nat \<Rightarrow> u64 list \<Rightarrow> (gguf_failure, u64 list) reader" where
  "dims_loop env 0 dims = read_return dims"
| "dims_loop env (Suc n) dims =
     read_bind (cursor_read_u64le env ''gguf.tensor.dimension'' ''truncated GGUF tensor dimension'') (\<lambda>d.
     if d = 0
     then cursor_fail YVEX_GGUF_PARSE_INVALID_DIMENSION YVEX_GGUF_PARSE_SECTION_TENSOR_INFO
       ''gguf.tensor.dimension'' ''GGUF tensor dimension is zero''
     else dims_loop env n (dims @ [d]))"

text \<open>One record of the directory; the absolute range is still zero.\<close>

definition parse_tensor_info ::
  "reader_environment \<Rightarrow> u32 \<Rightarrow> u8 list \<Rightarrow> (gguf_failure, yvex_gguf_tensor_info) reader" where
  "parse_tensor_info env align name =
     read_bind (cursor_read_u32le env ''gguf.tensor.rank'' ''truncated GGUF tensor rank'') (\<lambda>rank.
     if rank = 0 \<or> rank > YVEX_GGUF_MAX_DIMS
     then cursor_fail YVEX_GGUF_PARSE_INVALID_RANK YVEX_GGUF_PARSE_SECTION_TENSOR_INFO
       ''gguf.tensor.rank'' ''GGUF tensor rank is outside the admitted range''
     else
     read_bind (dims_loop env (unat rank) []) (\<lambda>dims.
     read_bind (cursor_read_u32le env ''gguf.tensor.qtype'' ''truncated GGUF tensor qtype'') (\<lambda>type.
     let (storage_status, storage) = yvex_gguf_qtype_tensor_storage type (Some dims) rank in
     if storage_status \<noteq> YVEX_GGUF_QTYPE_STORAGE_OK
     then read_bind (set_section YVEX_GGUF_PARSE_SECTION_QTYPE) (\<lambda>_.
       cursor_fail (qtype_parse_code storage_status) YVEX_GGUF_PARSE_SECTION_QTYPE ''gguf.tensor.qtype''
         (sr_reason storage))
     else
     read_bind (set_section YVEX_GGUF_PARSE_SECTION_TENSOR_INFO) (\<lambda>_.
     read_bind (cursor_read_u64le env ''gguf.tensor.offset'' ''truncated GGUF tensor relative offset'') (\<lambda>offset.
     if offset mod ucast align \<noteq> 0
     then cursor_fail YVEX_GGUF_PARSE_INVALID_ALIGNMENT YVEX_GGUF_PARSE_SECTION_TENSOR_INFO
       ''gguf.tensor.offset'' ''GGUF tensor relative offset is misaligned''
     else read_return \<lparr>ti_name = name, ti_rank = rank, ti_dims = dims, ggml_type = type,
       ggml_type_name = yvex_gguf_qtype_name type, relative_offset = offset, absolute_offset = 0,
       storage_bytes = sr_total_bytes storage, absolute_end_offset = 0, range_addressable = False\<rparr>)))))"

fun tensor_loop :: "reader_environment \<Rightarrow> nat \<Rightarrow> yvex_gguf \<Rightarrow> (gguf_failure, yvex_gguf) reader" where
  "tensor_loop env 0 gguf = read_return gguf"
| "tensor_loop env (Suc n) gguf =
     read_bind (set_record (of_nat (length (g_tensors gguf)))) (\<lambda>_.
     read_bind (cursor_read_string env YVEX_GGUF_MAX_TENSOR_NAME_LEN True True ''gguf.tensor.name''
       ''truncated GGUF tensor name'') (\<lambda>name.
     read_bind (tensor_index_insert gguf name) (\<lambda>slots.
     read_bind (parse_tensor_info env (alignment gguf) name) (\<lambda>info.
     tensor_loop env n (gguf\<lparr>tensor_index := slots, g_tensors := g_tensors gguf @ [info]\<rparr>)))))"

text \<open>The absolute range of one tensor, and the loop over them.\<close>

definition tensor_range :: "u64 \<Rightarrow> yvex_gguf_tensor_info \<Rightarrow> (gguf_failure, yvex_gguf_tensor_info) reader" where
  "tensor_range data_offset tensor cur =
     (if relative_offset tensor > ULLONG_MAX - data_offset
      then cursor_fail YVEX_GGUF_PARSE_OFFSET_OVERFLOW YVEX_GGUF_PARSE_SECTION_RANGE ''gguf.range''
        ''GGUF tensor absolute offset overflows'' cur
      else
        let begins = data_offset + relative_offset tensor in
        if storage_bytes tensor > ULLONG_MAX - begins
        then cursor_fail YVEX_GGUF_PARSE_OFFSET_OVERFLOW YVEX_GGUF_PARSE_SECTION_RANGE ''gguf.range''
          ''GGUF tensor absolute range overflows'' cur
        else
          let ends = begins + storage_bytes tensor in
          (Inr (tensor\<lparr>absolute_offset := begins, absolute_end_offset := ends,
             range_addressable := ends \<le> cur_size cur\<rparr>), cur))"

fun range_loop ::
  "u64 \<Rightarrow> yvex_gguf_tensor_info list \<Rightarrow> yvex_gguf_tensor_info list \<Rightarrow>
   (gguf_failure, yvex_gguf_tensor_info list) reader" where
  "range_loop data_offset ranged [] = read_return ranged"
| "range_loop data_offset ranged (tensor # tensors) =
     read_bind (set_record (of_nat (length ranged))) (\<lambda>_.
     read_bind (tensor_range data_offset tensor) (\<lambda>t.
     range_loop data_offset (ranged @ [t]) tensors))"

definition mark_directory_end :: "('e, u64 \<times> u64) reader" where
  "mark_directory_end cur =
     (Inr (cur_offset cur, cur_size cur),
      cur\<lparr>cur_stats := (cur_stats cur)\<lparr>directory_end_offset := cur_offset cur\<rparr>\<rparr>)"

text \<open>The ranges after the directory: the data offset, and the ranges counted from it.\<close>

definition derive_ranges :: "yvex_gguf \<Rightarrow> (gguf_failure, yvex_gguf) reader" where
  "derive_ranges gguf =
     read_bind mark_directory_end (\<lambda>(offset, size).
     read_bind (set_section YVEX_GGUF_PARSE_SECTION_RANGE) (\<lambda>_.
     read_bind (set_record ULLONG_MAX) (\<lambda>_.
     read_bind (align_offset offset (alignment gguf)) (\<lambda>data_offset.
     if data_offset > size
     then cursor_fail YVEX_GGUF_PARSE_INCOMPLETE_DIRECTORY YVEX_GGUF_PARSE_SECTION_RANGE ''gguf.range''
       ''GGUF tensor-data boundary exceeds file size''
     else
     read_bind (range_loop data_offset [] (g_tensors gguf)) (\<lambda>tensors.
     read_bind (set_record ULLONG_MAX) (\<lambda>_.
     read_return (gguf\<lparr>tensor_data_offset := data_offset, g_tensors := tensors\<rparr>)))))))"

definition parse_tensors :: "reader_environment \<Rightarrow> yvex_gguf \<Rightarrow> (gguf_failure, yvex_gguf) reader" where
  "parse_tensors env gguf =
     (let count = tensor_count (g_header gguf) in
      read_bind (set_section YVEX_GGUF_PARSE_SECTION_TENSOR_INFO) (\<lambda>_.
      if count = 0
      then read_bind mark_directory_end (\<lambda>(offset, size).
        read_bind (align_offset offset (alignment gguf)) (\<lambda>data_offset.
        read_return (gguf\<lparr>tensor_data_offset := data_offset\<rparr>)))
      else if count > SIZE_MAX div sizeof_tensor env
      then cursor_fail YVEX_GGUF_PARSE_INVALID_COUNT YVEX_GGUF_PARSE_SECTION_RESOURCE ''gguf.resource''
        ''GGUF tensor count exceeds address space''
      else
      read_bind (reserve_owned env (count * sizeof_tensor env)) (\<lambda>_.
      read_bind (reader_allocate env ''failed to allocate GGUF tensor directory'') (\<lambda>_.
      read_bind (name_index_allocate env count) (\<lambda>slots.
      read_bind (tensor_loop env (unat count) (gguf\<lparr>tensor_index := slots\<rparr>)) (\<lambda>filled.
      derive_ranges filled))))))"

section \<open>Entry points\<close>

text \<open>The cleanup of a view; what remains observable is whether it follows a null pointer.\<close>

definition gguf_clear :: "yvex_gguf \<Rightarrow> bool" where
  "gguf_clear gguf = list_ex (\<lambda>entry. fst (gguf_value_clear (md_value entry))) (g_metadata gguf)"

definition yvex_gguf_close :: "yvex_gguf option \<Rightarrow> bool" where
  "yvex_gguf_close gguf = (case gguf of None \<Rightarrow> False | Some g \<Rightarrow> gguf_clear g)"

definition yvex_gguf_read_header :: "yvex_artifact option \<Rightarrow> yvex_gguf_header outcome" where
  "yvex_gguf_read_header artifact =
     (case artifact of
        None \<Rightarrow> Inl (refusal YVEX_ERR_INVALID_ARG ''yvex_gguf_read_header'' ''artifact and output are required'')
      | Some a \<Rightarrow>
          if yvex_artifact_size artifact < 24
          then Inl (refusal YVEX_ERR_FORMAT ''yvex_gguf_read_header'' ''GGUF header is truncated'')
          else case yvex_artifact_read_at a 0 24 of
            Inl e \<Rightarrow> Inl e
          | Inr bytes \<Rightarrow>
              if gguf_u32le_load bytes \<noteq> YVEX_GGUF_MAGIC
              then Inl (refusal YVEX_ERR_FORMAT ''yvex_gguf_read_header'' ''invalid GGUF magic'')
              else
                let ver = gguf_u32le_load (drop 4 bytes) in
                if ver \<noteq> YVEX_GGUF_SUPPORTED_VERSION
                then Inl (refusal YVEX_ERR_UNSUPPORTED ''yvex_gguf_read_header''
                  ''unsupported GGUF container version'')
                else Inr \<lparr>version = ver, metadata_count = decode_u64le (drop 16 bytes),
                  tensor_count = decode_u64le (drop 8 bytes)\<rparr>)"

text \<open>A probe: \<open>None\<close> for a file that is not GGUF.\<close>

definition yvex_gguf_probe_file :: "yvex_artifact option \<Rightarrow> yvex_gguf_header option outcome" where
  "yvex_gguf_probe_file artifact =
     (case artifact of
        None \<Rightarrow> Inl (refusal YVEX_ERR_INVALID_ARG ''yvex_gguf_probe_file'' ''artifact and output are required'')
      | Some a \<Rightarrow>
          let header = (case yvex_gguf_read_header artifact of Inl e \<Rightarrow> Inl e | Inr h \<Rightarrow> Inr (Some h)) in
          if yvex_artifact_size artifact \<ge> 4
          then case yvex_artifact_read_at a 0 4 of
            Inl e \<Rightarrow> Inl e
          | Inr bytes \<Rightarrow> if gguf_u32le_load bytes \<noteq> YVEX_GGUF_MAGIC then Inr None else header
          else header)"

definition zero_header :: yvex_gguf_header where
  "zero_header = \<lparr>version = 0, metadata_count = 0, tensor_count = 0\<rparr>"

definition initial_stats :: "reader_environment \<Rightarrow> yvex_gguf_reader_stats" where
  "initial_stats env = \<lparr>file_size = art_size (env_artifact env), structural_bytes_read = 0,
     payload_bytes_read = 0, read_calls = 0, owned_bytes = sizeof_view env, total_string_bytes = 0,
     total_array_entries = 0, directory_end_offset = 0\<rparr>"

definition initial_cursor :: "reader_environment \<Rightarrow> yvex_file_cursor" where
  "initial_cursor env = \<lparr>cur_size = art_size (env_artifact env), cur_offset = 0,
     cur_stats = initial_stats env, cur_section = YVEX_GGUF_PARSE_SECTION_NONE,
     cur_record_index = ULLONG_MAX, cur_fault = False\<rparr>"

definition initial_view :: "reader_environment \<Rightarrow> yvex_gguf" where
  "initial_view env = \<lparr>g_header = zero_header, g_metadata = [], g_tensors = [], metadata_index = [],
     tensor_index = [], tensor_data_offset = 0, alignment = YVEX_GGUF_DEFAULT_ALIGNMENT,
     g_stats = initial_stats env\<rparr>"

text \<open>The chain of sections.\<close>

definition parse_gguf :: "reader_environment \<Rightarrow> (gguf_failure \<times> yvex_gguf, yvex_gguf) reader" where
  "parse_gguf env =
     (let view = initial_view env in
      read_bind (failing_with view (parse_header env)) (\<lambda>header.
      read_bind (parse_metadata env (view\<lparr>g_header := header\<rparr>)) (\<lambda>described.
      read_bind (failing_with described (derive_alignment described)) (\<lambda>aligned.
      failing_with aligned (parse_tensors env aligned)))))"

definition limits_nonzero :: "yvex_gguf_reader_options \<Rightarrow> bool" where
  "limits_nonzero limits \<longleftrightarrow> max_metadata_entries limits \<noteq> 0 \<and> max_tensor_entries limits \<noteq> 0 \<and> max_array_entries limits \<noteq> 0 \<and>
     max_total_array_entries limits \<noteq> 0 \<and> max_string_bytes limits \<noteq> 0 \<and> max_total_string_bytes limits \<noteq> 0 \<and>
     max_owned_bytes limits \<noteq> 0 \<and> max_structural_bytes limits \<noteq> 0 \<and> max_array_depth limits \<noteq> 0"

text \<open>
  Opening: a failure, or the result structure with the view; and whether the code followed a null
  pointer or probed without end on the way, the cleanup of a failed open included.
\<close>

definition yvex_gguf_open_ex ::
  "bool \<Rightarrow> reader_environment \<Rightarrow> yvex_artifact option \<Rightarrow> yvex_gguf_reader_options option \<Rightarrow>
   (gguf_failure + yvex_gguf_parse_result \<times> yvex_gguf) \<times> bool" where
  "yvex_gguf_open_ex out_given platform artifact options =
     (if \<not> out_given
      then (Inl (gguf_reader_fail YVEX_GGUF_PARSE_INVALID_ARGUMENT YVEX_GGUF_PARSE_SECTION_NONE 0 ULLONG_MAX
        ''yvex_gguf_open_ex'' ''GGUF output pointer is required''), False)
      else case artifact of
        None \<Rightarrow> (Inl (gguf_reader_fail YVEX_GGUF_PARSE_INVALID_ARGUMENT YVEX_GGUF_PARSE_SECTION_FILE 0 ULLONG_MAX
          ''yvex_gguf_open_ex'' ''artifact handle is required''), False)
      | Some a \<Rightarrow>
          let effective = (case options of None \<Rightarrow> yvex_gguf_reader_options_default | Some given \<Rightarrow> given);
              env = platform\<lparr>env_artifact := a, env_options := effective\<rparr> in
          if \<not> limits_nonzero effective
          then (Inl (gguf_reader_fail YVEX_GGUF_PARSE_INVALID_ARGUMENT YVEX_GGUF_PARSE_SECTION_RESOURCE 0
            ULLONG_MAX ''yvex_gguf_open_ex'' ''GGUF reader limits must be nonzero''), False)
          else if \<not> env_alloc env (sizeof_view env)
          then (Inl (gguf_reader_fail YVEX_GGUF_PARSE_ALLOCATION_FAILURE YVEX_GGUF_PARSE_SECTION_RESOURCE 0
            ULLONG_MAX ''yvex_gguf_open_ex'' ''failed to allocate GGUF view''), False)
          else if sizeof_view env > max_owned_bytes effective
          then (Inl (gguf_reader_fail YVEX_GGUF_PARSE_RESOURCE_LIMIT YVEX_GGUF_PARSE_SECTION_RESOURCE 0
            ULLONG_MAX ''yvex_gguf_open_ex'' ''GGUF view exceeds owned-memory budget''), False)
          else case parse_gguf env (initial_cursor env) of
            (Inl (failure, view), cur) \<Rightarrow> (Inl failure, cur_fault cur \<or> yvex_gguf_close (Some view))
          | (Inr view, cur) \<Rightarrow>
              (Inr (\<lparr>pr_code = YVEX_GGUF_PARSE_OK, pr_section = YVEX_GGUF_PARSE_SECTION_NONE,
                 pr_byte_offset = cur_offset cur, pr_record_index = ULLONG_MAX,
                 pr_reason = ''GGUF structural reader accepted input''\<rparr>,
                 view\<lparr>g_stats := (cur_stats cur)\<lparr>payload_bytes_read := 0\<rparr>\<rparr>), cur_fault cur))"

definition yvex_gguf_open :: "reader_environment \<Rightarrow> yvex_artifact option \<Rightarrow> (gguf_failure + yvex_gguf) \<times> bool" where
  "yvex_gguf_open platform artifact =
     (case yvex_gguf_open_ex True platform artifact None of
        (Inl failure, fault) \<Rightarrow> (Inl failure, fault)
      | (Inr (result, view), fault) \<Rightarrow> (Inr view, fault))"

end
