(* ===== verification/Gguf_Contract.thy ===== *)
theory Gguf_Contract
  imports Gguf_Directory
begin

unbundle bit_operations_syntax

text \<open>
  The reasoning layer of the GGUF reader.  A reading step is sound when, started in a cursor within
  its budgets, it either consumes a run of bytes of the file that stands in the stated relation to its
  result and stays within the budgets, or it fails with a failure of the stated kind.  Rules compose
  this along the sequencing of the code; the encodings say what bytes a value, a metadata entry and a
  tensor record occupy in the format.
\<close>

section \<open>Little-endian numbers\<close>

fun le_value :: "u8 list \<Rightarrow> nat" where
  "le_value [] = 0"
| "le_value (b # bytes) = unat b + 256 * le_value bytes"

fun le_encode :: "nat \<Rightarrow> nat \<Rightarrow> u8 list" where
  "le_encode 0 v = []"
| "le_encode (Suc n) v = of_nat (v mod 256) # le_encode n (v div 256)"

lemma length_le_encode [simp]: "length (le_encode n v) = n"
  by (induction n arbitrary: v) simp_all

lemma le_value_less: "le_value bytes < 256 ^ length bytes"
proof (induction bytes)
  case (Cons b bytes)
  have "unat b < 256" by (rule unat_u8_less)
  then show ?case using Cons by simp
qed simp

lemma le_encode_value: "le_encode (length bytes) (le_value bytes) = bytes"
proof (induction bytes)
  case (Cons b bytes)
  have "unat b < 256" by (rule unat_u8_less)
  then have "(unat b + 256 * le_value bytes) mod 256 = unat b" "(unat b + 256 * le_value bytes) div 256 = le_value bytes"
    by simp_all
  then show ?case using Cons by simp
qed simp

lemma le_encode_eq: "length bytes = n \<Longrightarrow> le_value bytes = v \<Longrightarrow> le_encode n v = bytes"
  using le_encode_value [of bytes] by simp

lemma unat_ucast_u8_u64 [simp]: "unat (ucast (c :: u8) :: u64) = unat c"
  using unat_u8_less [of c] by (simp add: unsigned_ucast_eq take_bit_nat_eq_self)

lemma unat_or_shift_8:
  assumes "unat x < 2 ^ 56" "c < 256"
  shows "unat (of_nat c OR push_bit 8 (x :: u64)) = c + 256 * unat x"
proof -
  have bound: "256 * unat x < 2 ^ 64" using assms(1) by simp
  have disj: "(of_nat c :: u64) AND push_bit 8 x = 0"
  proof (rule bit_word_eqI)
    fix i assume "i < LENGTH(64)"
    show "bit ((of_nat c :: u64) AND push_bit 8 x) i = bit (0 :: u64) i"
    proof (cases "i < 8")
      case False
      have "\<not> bit (of_nat c :: u64) i"
      proof -
        have "\<not> bit c i"
        proof -
          have "c < 2 ^ i" using assms(2) False power_increasing [of 8 i "2 :: nat"] by simp
          then show ?thesis by (simp add: bit_iff_odd)
        qed
        then show ?thesis by (simp add: bit_simps)
      qed
      then show ?thesis by (simp add: bit_and_iff)
    qed (simp add: bit_and_iff bit_push_bit_iff)
  qed
  have "unat (of_nat c OR push_bit 8 x) = unat (of_nat c + push_bit 8 x)"
    using word_plus_and_or [of "of_nat c" "push_bit 8 x"] disj by simp
  also have "\<dots> = unat (of_nat c + 256 * x)" by (simp add: push_bit_eq_mult mult.commute)
  also have "\<dots> = c + 256 * unat x"
  proof -
    have u: "unat (256 * x) = 256 * unat x" using bound by (simp add: unat_word_ariths)
    have "c + 256 * unat x < 2 ^ 64"
    proof -
      have "256 * unat x \<le> 2 ^ 64 - 256"
      proof -
        have "unat x < 2 ^ 56" using bound by simp
        then show ?thesis by simp
      qed
      then show ?thesis using assms(2) by simp
    qed
    then show ?thesis using u assms(2) by (simp add: unat_word_ariths unat_of_nat)
  qed
  finally show ?thesis .
qed

lemma ucast_u8_of_nat: "(ucast (b :: u8) :: u64) = of_nat (unat b)"
  using unat_u8_less [of b] by (simp add: word_unat_eq_iff unat_of_nat)

lemma unat_le_load: "length bytes \<le> 8 \<Longrightarrow> unat (le_load bytes) = le_value bytes"
proof (induction bytes)
  case (Cons b bytes)
  have eq: "unat (le_load bytes) = le_value bytes" using Cons by simp
  have "le_value bytes < 256 ^ length bytes" by (rule le_value_less)
  also have "(256 :: nat) ^ length bytes = 2 ^ (8 * length bytes)" by (simp add: power_mult)
  also have "\<dots> \<le> 2 ^ 56" using Cons.prems by (intro power_increasing) simp_all
  finally have "unat (le_load bytes) < 2 ^ 56" by (simp only: eq)
  from unat_or_shift_8 [OF this unat_u8_less [of b]] show ?case
    by (simp only: le_load.simps le_value.simps eq ucast_u8_of_nat)
qed simp

text \<open>The unrolled loads of the code read the same numbers.\<close>

lemma le_load_8: "length bytes = 8 \<Longrightarrow> decode_u64le bytes = le_load bytes"
  by (auto simp: decode_u64le_def length_Suc_conv numeral_eq_Suc push_bit_or)

lemma le_load_4: "length bytes = 4 \<Longrightarrow> ucast (gguf_u32le_load bytes) = le_load bytes"
proof -
  assume "length bytes = 4"
  then obtain a b c d where bytes: "bytes = [a, b, c, d]" by (auto simp: length_Suc_conv numeral_eq_Suc)
  have "bit (ucast (ucast a OR push_bit 8 (ucast b) OR push_bit 16 (ucast c) OR push_bit 24 (ucast d) :: u32) :: u64) i \<longleftrightarrow>
      bit (ucast a OR push_bit 8 (ucast b) OR push_bit 16 (ucast c) OR push_bit 24 (ucast d) :: u64) i"
    if "i < 64" for i
    using bit_imp_le_length [of a i] bit_imp_le_length [of b "i - 8"] bit_imp_le_length [of c "i - 16"]
      bit_imp_le_length [of d "i - 24"] that
    by (auto simp: bit_ucast_iff bit_or_iff bit_push_bit_iff)
  then have "ucast (ucast a OR push_bit 8 (ucast b) OR push_bit 16 (ucast c) OR push_bit 24 (ucast d) :: u32) =
      (ucast a OR push_bit 8 (ucast b) OR push_bit 16 (ucast c) OR push_bit 24 (ucast d) :: u64)"
    by (intro bit_word_eqI) simp
  then show ?thesis by (simp add: bytes gguf_u32le_load_def push_bit_or numeral_eq_Suc)
qed

lemma unat_u32le: "length bytes = 4 \<Longrightarrow> unat (gguf_u32le_load bytes) = le_value bytes"
  using le_load_4 [of bytes] unat_le_load [of bytes] by (metis unat_ucast_u32 numeral_le_iff semiring_norm(68,71,73))

lemma unat_u64le: "length bytes = 8 \<Longrightarrow> unat (decode_u64le bytes) = le_value bytes"
  by (simp add: le_load_8 unat_le_load)

section \<open>Soundness of a reading step\<close>

definition cursor_within :: "reader_environment \<Rightarrow> u8 list \<Rightarrow> yvex_file_cursor \<Rightarrow> bool" where
  "cursor_within env file cur \<longleftrightarrow>
     unat (cur_size cur) = length file \<and> unat (cur_offset cur) \<le> length file \<and>
     file_size (cur_stats cur) = cur_size cur \<and>
     structural_bytes_read (cur_stats cur) = cur_offset cur \<and>
     structural_bytes_read (cur_stats cur) \<le> max_structural_bytes (env_options env) \<and>
     owned_bytes (cur_stats cur) \<le> max_owned_bytes (env_options env) \<and>
     total_string_bytes (cur_stats cur) \<le> max_total_string_bytes (env_options env) \<and>
     total_array_entries (cur_stats cur) \<le> max_total_array_entries (env_options env) \<and>
     \<not> cur_fault cur"

definition consumed :: "u8 list \<Rightarrow> yvex_file_cursor \<Rightarrow> yvex_file_cursor \<Rightarrow> u8 list \<Rightarrow> bool" where
  "consumed file cur cur1 bs \<longleftrightarrow> unat (cur_offset cur1) = unat (cur_offset cur) + length bs \<and>
     take (length bs) (drop (unat (cur_offset cur)) file) = bs"

definition lands ::
  "reader_environment \<Rightarrow> u8 list \<Rightarrow> ('e \<Rightarrow> bool \<Rightarrow> bool) \<Rightarrow> ('a \<Rightarrow> u8 list \<Rightarrow> bool) \<Rightarrow> yvex_file_cursor \<Rightarrow>
   ('e + 'a) \<times> yvex_file_cursor \<Rightarrow> bool" where
  "lands env file E Q cur r \<longleftrightarrow>
     (case r of
        (Inr x, cur1) \<Rightarrow> cursor_within env file cur1 \<and> (\<exists>bs. consumed file cur cur1 bs \<and> Q x bs)
      | (Inl e, cur1) \<Rightarrow> E e (cur_fault cur1))"

definition sound ::
  "reader_environment \<Rightarrow> u8 list \<Rightarrow> ('e \<Rightarrow> bool \<Rightarrow> bool) \<Rightarrow> ('e, 'a) reader \<Rightarrow> ('a \<Rightarrow> u8 list \<Rightarrow> bool) \<Rightarrow> bool" where
  "sound env file E m Q \<longleftrightarrow> (\<forall>cur. cursor_within env file cur \<longrightarrow> lands env file E Q cur (m cur))"

lemma soundD:
  "sound env file E m Q \<Longrightarrow> cursor_within env file cur \<Longrightarrow> m cur = r \<Longrightarrow> lands env file E Q cur r"
  by (auto simp: sound_def)

lemma lands_simps [simp]:
  "lands env file E Q cur (Inl e, cur1) \<longleftrightarrow> E e (cur_fault cur1)"
  "lands env file E Q cur (Inr x, cur1) \<longleftrightarrow>
     cursor_within env file cur1 \<and> (\<exists>bs. consumed file cur cur1 bs \<and> Q x bs)"
  by (simp_all add: lands_def)

lemma lands_Inr_none:
  "cursor_within env file cur1 \<Longrightarrow> cur_offset cur1 = cur_offset cur \<Longrightarrow> Q x [] \<Longrightarrow>
     lands env file E Q cur (Inr x, cur1)"
  by (auto simp: consumed_def)

lemma consumed_none [simp]: "consumed file cur cur []"
  by (simp add: consumed_def)

lemma consumed_trans:
  assumes "consumed file cur cur1 b1" "consumed file cur1 cur2 b2"
  shows "consumed file cur cur2 (b1 @ b2)"
  using assms take_add [of "length b1" "length b2" "drop (unat (cur_offset cur)) file"]
  by (simp add: consumed_def add.commute)

lemma sound_bind:
  assumes "sound env file E m Q"
    and "\<And>x b1. Q x b1 \<Longrightarrow> sound env file E (k x) (\<lambda>y b2. P y (b1 @ b2))"
  shows "sound env file E (read_bind m k) P"
  unfolding sound_def
proof (intro allI impI)
  fix cur assume cur: "cursor_within env file cur"
  obtain r cur1 where m: "m cur = (r, cur1)" by (rule prod.exhaust)
  have first: "lands env file E Q cur (r, cur1)" using assms(1) cur m by (auto simp: sound_def)
  show "lands env file E P cur (read_bind m k cur)"
  proof (cases r)
    case (Inl e)
    then show ?thesis using first m by (simp add: read_bind_def)
  next
    case (Inr x)
    then obtain b1 where b1: "cursor_within env file cur1" "consumed file cur cur1 b1" "Q x b1"
      using first by auto
    then have "lands env file E (\<lambda>y b2. P y (b1 @ b2)) cur1 (k x cur1)"
      using assms(2) [OF b1(3)] by (simp add: sound_def)
    then show ?thesis
      using consumed_trans [OF b1(2)] m Inr
      by (auto simp: read_bind_def lands_def split: prod.splits sum.splits)
  qed
qed

lemma sound_weaken:
  "sound env file E m Q \<Longrightarrow> (\<And>x bs. Q x bs \<Longrightarrow> R x bs) \<Longrightarrow> sound env file E m R"
  by (fastforce simp: sound_def lands_def split: prod.splits sum.splits)

lemma sound_return: "Q x [] \<Longrightarrow> sound env file E (read_return x) Q"
  by (auto simp: sound_def read_return_def intro!: exI [of _ "[]"])

lemma sound_map_failure:
  assumes "sound env file E m Q" and "\<And>e fault. E e fault \<Longrightarrow> F (f e) fault"
  shows "sound env file F (read_map_failure f m) Q"
  using assms by (fastforce simp: sound_def lands_def read_map_failure_def split: prod.splits sum.splits)

lemma sound_set_section: "Q () [] \<Longrightarrow> sound env file E (set_section sec) Q"
  and sound_set_record: "Q () [] \<Longrightarrow> sound env file E (set_record n) Q"
  by (auto simp: sound_def set_section_def set_record_def read_update_def cursor_within_def consumed_def
      intro!: exI [of _ "[]"])

subsection \<open>Failures\<close>

definition failure_ok :: "u8 list \<Rightarrow> gguf_failure \<Rightarrow> bool" where
  "failure_ok file e \<longleftrightarrow> pr_code (gf_result e) \<noteq> YVEX_GGUF_PARSE_OK \<and>
     (\<exists>loc. gf_error e = refusal (parse_code_error (pr_code (gf_result e))) loc (pr_reason (gf_result e))) \<and>
     unat (pr_byte_offset (gf_result e)) \<le> length file"

definition plain_failure :: "u8 list \<Rightarrow> gguf_failure \<Rightarrow> bool \<Rightarrow> bool" where
  "plain_failure file e fault \<longleftrightarrow> failure_ok file e \<and> \<not> fault"

definition memory_code :: "yvex_gguf_parse_code \<Rightarrow> bool" where
  "memory_code code \<longleftrightarrow> code \<in> {YVEX_GGUF_PARSE_RESOURCE_LIMIT, YVEX_GGUF_PARSE_ALLOCATION_FAILURE}"

text \<open>
  A failure with a partly filled value, a list of them or a view: following a null pointer, at once or
  in the cleanup that is still to come, needs a refused reservation or allocation.
\<close>

definition filled_failure :: "u8 list \<Rightarrow> ('v \<Rightarrow> bool) \<Rightarrow> gguf_failure \<times> 'v \<Rightarrow> bool \<Rightarrow> bool" where
  "filled_failure file clear_faults = (\<lambda>(e, partial) fault. failure_ok file e \<and>
     (fault \<or> clear_faults partial \<longrightarrow> memory_code (pr_code (gf_result e))))"

lemma parse_code_error_ok: "parse_code_error code = YVEX_OK \<longleftrightarrow> code = YVEX_GGUF_PARSE_OK"
  by (cases code) (simp_all add: parse_code_error_def)

lemma reader_fail_ok:
  assumes "cursor_within env file cur" "code \<noteq> YVEX_GGUF_PARSE_OK"
  shows "failure_ok file (gguf_reader_fail code sec (cur_offset cur) n loc reason)"
  using assms by (auto simp: failure_ok_def gguf_reader_fail_def cursor_within_def)

lemma within_no_fault: "cursor_within env file cur \<Longrightarrow> \<not> cur_fault cur"
  by (simp add: cursor_within_def)

lemma lands_fail:
  "cursor_within env file cur \<Longrightarrow> code \<noteq> YVEX_GGUF_PARSE_OK \<Longrightarrow>
     lands env file (plain_failure file) Q cur0 (cursor_fail code sec loc reason cur)"
  by (simp add: plain_failure_def cursor_fail_def reader_fail_ok within_no_fault)

lemma sound_fail: "code \<noteq> YVEX_GGUF_PARSE_OK \<Longrightarrow> sound env file (plain_failure file) (cursor_fail code sec loc reason) Q"
  by (simp add: sound_def plain_failure_def cursor_fail_def reader_fail_ok within_no_fault)

lemma sound_failing_with:
  assumes "sound env file (plain_failure file) m Q" "\<not> clear_faults partial"
  shows "sound env file (filled_failure file clear_faults) (failing_with partial m) Q"
  unfolding failing_with_def
  by (rule sound_map_failure [OF assms(1)]) (simp add: plain_failure_def filled_failure_def assms(2))

text \<open>A reservation or allocation may be refused with a partial value that its cleanup cannot walk.\<close>

definition memory_failure :: "u8 list \<Rightarrow> gguf_failure \<Rightarrow> bool \<Rightarrow> bool" where
  "memory_failure file e fault \<longleftrightarrow> plain_failure file e fault \<and> memory_code (pr_code (gf_result e))"

lemma sound_failing_memory:
  assumes "sound env file (memory_failure file) m Q"
  shows "sound env file (filled_failure file clear_faults) (failing_with partial m) Q"
  unfolding failing_with_def
  by (rule sound_map_failure [OF assms]) (simp add: memory_failure_def plain_failure_def filled_failure_def)

lemma sound_memory_plain: "sound env file (memory_failure file) m Q \<Longrightarrow> sound env file (plain_failure file) m Q"
  by (fastforce simp: sound_def lands_def memory_failure_def split: prod.splits sum.splits)

subsection \<open>Budgets\<close>

lemma budget_guard:
  assumes "\<not> (a > ULLONG_MAX - used \<or> used + a > limit)"
  shows "unat (used + a) = unat used + unat a" "used + a \<le> limit"
  using assms by (auto simp: word_nat_simps not_less intro: unat_add_no_wrap)

lemma memory_code_simps [simp]:
  "memory_code YVEX_GGUF_PARSE_RESOURCE_LIMIT" "memory_code YVEX_GGUF_PARSE_ALLOCATION_FAILURE"
  by (simp_all add: memory_code_def)

lemma lands_memory_fail:
  "cursor_within env file cur \<Longrightarrow> memory_code code \<Longrightarrow>
     lands env file (memory_failure file) Q cur0 (cursor_fail code sec loc reason cur)"
  using reader_fail_ok [of env _ cur code] within_no_fault [of env _ cur]
  by (auto simp: memory_failure_def plain_failure_def cursor_fail_def memory_code_def gguf_reader_fail_def)

lemma memory_reserve_owned:
  "sound env file (memory_failure file) (reserve_owned env bytes) (\<lambda>_ bs. bs = [])"
  unfolding sound_def
proof (intro allI impI)
  fix cur assume cur: "cursor_within env file cur"
  let ?owned = "owned_bytes (cur_stats cur)"
  show "lands env file (memory_failure file) (\<lambda>_ bs. bs = []) cur (reserve_owned env bytes cur)"
  proof (cases "bytes > ULLONG_MAX - ?owned \<or> ?owned + bytes > max_owned_bytes (env_options env)")
    case True
    then show ?thesis by (simp add: reserve_owned_def lands_memory_fail [OF cur])
  next
    case False
    then show ?thesis
      using cur budget_guard(2) [OF False]
      unfolding reserve_owned_def Let_def if_not_P [OF False]
      by (intro lands_Inr_none) (auto simp: cursor_within_def)
  qed
qed

lemma memory_allocate:
  "sound env file (memory_failure file) (reader_allocate env reason) (\<lambda>_ bs. bs = [])"
  by (auto simp: sound_def reader_allocate_def intro!: lands_memory_fail lands_Inr_none)

lemmas sound_reserve_owned = sound_memory_plain [OF memory_reserve_owned]
  and sound_allocate = sound_memory_plain [OF memory_allocate]

section \<open>Reading numbers and strings\<close>

lemma sound_read_exact:
  assumes reads: "reads_file (env_artifact env) file"
  shows "sound env file (plain_failure file) (cursor_read_exact env amount loc field)
    (\<lambda>x bs. x = bs \<and> length bs = unat amount)"
  unfolding sound_def
proof (intro allI impI)
  fix cur assume cur: "cursor_within env file cur"
  let ?Q = "\<lambda>x bs. x = bs \<and> length bs = unat amount" and ?used = "structural_bytes_read (cur_stats cur)"
  show "lands env file (plain_failure file) ?Q cur (cursor_read_exact env amount loc field cur)"
  proof (cases "amount > ULLONG_MAX - ?used \<or> ?used + amount > max_structural_bytes (env_options env)")
    case True
    then show ?thesis by (simp add: cursor_read_exact_def lands_fail [OF cur] Let_def)
  next
    case False
    show ?thesis
    proof (cases "yvex_artifact_read_at (env_artifact env) (cur_offset cur) amount")
      case (Inl e)
      then show ?thesis by (simp add: cursor_read_exact_def lands_fail [OF cur] Let_def)
    next
      case (Inr bytes)
      note bytes = read_at_bytes [OF reads Inr]
      have off: "unat (cur_offset cur + amount) = unat (cur_offset cur) + unat amount"
        using budget_guard(1) [OF False] cur by (simp add: cursor_within_def)
      let ?cur1 = "cur\<lparr>cur_offset := cur_offset cur + amount, cur_stats := (cur_stats cur)\<lparr>
        structural_bytes_read := ?used + amount, read_calls := read_calls (cur_stats cur) + 1\<rparr>\<rparr>"
      have "cursor_within env file ?cur1" "consumed file cur ?cur1 bytes"
        using cur budget_guard(2) [OF False] bytes off by (auto simp: cursor_within_def consumed_def)
      then show ?thesis
        using False Inr bytes(3) by (simp add: cursor_read_exact_def lands_fail [OF cur] Let_def)
    qed
  qed
qed

lemma sound_read_u32:
  assumes "reads_file (env_artifact env) file"
  shows "sound env file (plain_failure file) (cursor_read_u32le env loc field) (\<lambda>x bs. bs = le_encode 4 (unat x))"
  unfolding cursor_read_u32le_def
  by (rule sound_bind [OF sound_read_exact [OF assms]])
    (auto intro!: sound_return le_encode_eq [symmetric] simp: unat_u32le)

lemma sound_read_u64:
  assumes "reads_file (env_artifact env) file"
  shows "sound env file (plain_failure file) (cursor_read_u64le env loc field) (\<lambda>x bs. bs = le_encode 8 (unat x))"
  unfolding cursor_read_u64le_def
  by (rule sound_bind [OF sound_read_exact [OF assms]])
    (auto intro!: sound_return le_encode_eq [symmetric] simp: unat_u64le)

text \<open>The bytes of a string: its length and its content.\<close>

definition string_encoding :: "u8 list \<Rightarrow> u8 list" where
  "string_encoding x = le_encode 8 (length x) @ x"

definition string_admitted :: "u64 \<Rightarrow> bool \<Rightarrow> bool \<Rightarrow> u8 list \<Rightarrow> bool" where
  "string_admitted format_max reject_empty reject_nul x \<longleftrightarrow> utf8_valid x \<and>
     (format_max \<noteq> 0 \<longrightarrow> length x \<le> unat format_max) \<and> (reject_empty \<longrightarrow> x \<noteq> []) \<and> (reject_nul \<longrightarrow> 0 \<notin> set x)"

text \<open>
  The length is checked against the string budget before the memory is reserved and the content read;
  those steps do not touch the count that is then increased.
\<close>

definition keeps :: "(yvex_file_cursor \<Rightarrow> 'b) \<Rightarrow> ('e, 'a) reader \<Rightarrow> bool" where
  "keeps part m \<longleftrightarrow> (\<forall>cur. part (snd (m cur)) = part cur)"

abbreviation string_count :: "yvex_file_cursor \<Rightarrow> u64" where
  "string_count cur \<equiv> total_string_bytes (cur_stats cur)"

lemma keeps_bind: "keeps part m \<Longrightarrow> (\<And>x. keeps part (k x)) \<Longrightarrow> keeps part (read_bind m k)"
  by (simp add: keeps_def read_bind_def split: prod.split sum.split) (metis snd_conv)

lemma keepsD: "keeps part m \<Longrightarrow> m cur = (r, cur1) \<Longrightarrow> part cur1 = part cur"
  by (metis keeps_def snd_conv)

lemma keeps_strings_steps:
  "keeps string_count (reserve_owned env bytes)" "keeps string_count (reader_allocate env reason)"
  "keeps string_count (string_bytes_read env format_max loc field len)"
  by (auto simp: keeps_def reserve_owned_def reader_allocate_def string_bytes_read_def cursor_read_exact_def
      cursor_fail_def Let_def split: prod.splits sum.splits if_splits)

lemma read_bind_assoc: "read_bind (read_bind m k) h = read_bind m (\<lambda>x. read_bind (k x) h)"
  by (auto simp: read_bind_def fun_eq_iff split: prod.split sum.split)

definition string_content ::
  "reader_environment \<Rightarrow> u64 \<Rightarrow> string \<Rightarrow> string \<Rightarrow> u64 \<Rightarrow> (gguf_failure, u8 list) reader" where
  "string_content env format_max loc field len =
     read_bind (reserve_owned env (len + 1)) (\<lambda>_.
     read_bind (reader_allocate env ''failed to allocate GGUF string'') (\<lambda>_.
     string_bytes_read env format_max loc field len))"

lemma keeps_strings_content: "keeps string_count (string_content env format_max loc field len)"
  unfolding string_content_def by (intro keeps_bind keeps_strings_steps)

lemma string_parse_code_simps [simp]:
  "string_parse_code cur m \<noteq> YVEX_GGUF_PARSE_OK" "identifier_parse_code cur \<noteq> YVEX_GGUF_PARSE_OK"
  "empty_identifier_parse_code cur \<noteq> YVEX_GGUF_PARSE_OK"
  by (simp_all add: string_parse_code_def identifier_parse_code_def empty_identifier_parse_code_def)

lemma sound_string_bytes_read:
  assumes "reads_file (env_artifact env) file"
  shows "sound env file (plain_failure file) (string_bytes_read env format_max loc field len)
    (\<lambda>x bs. x = bs \<and> length bs = unat len)"
proof (cases "len > 0")
  case True
  have "cursor_within env file cur1"
    if "cursor_within env file cur" "cursor_read_exact env len loc field cur = (Inl e, cur1)" for cur cur1 e
    using that by (auto simp: cursor_read_exact_def cursor_fail_def Let_def split: if_splits sum.splits)
  then show ?thesis
    using True sound_read_exact [OF assms, of len loc field]
    by (auto simp: sound_def string_bytes_read_def intro!: lands_fail split: prod.splits sum.splits)
next
  case False
  then have "len = 0" by (simp add: word_less_nat_alt unat_eq_0)
  then show ?thesis by (auto simp: sound_def string_bytes_read_def intro!: lands_Inr_none)
qed

lemma sound_string_content:
  assumes "reads_file (env_artifact env) file"
  shows "sound env file (plain_failure file) (string_content env format_max loc field len)
    (\<lambda>x bs. x = bs \<and> length bs = unat len)"
  unfolding string_content_def
  by (rule sound_bind [OF sound_reserve_owned], simp, rule sound_bind [OF sound_allocate], simp,
      rule sound_string_bytes_read [OF assms])

lemma string_length_check_cases:
  obtains (refused) code sec l reason where
      "string_length_check env format_max reject_empty loc len cur = cursor_fail code sec l reason cur"
      "code \<noteq> YVEX_GGUF_PARSE_OK"
    | (admitted) "string_length_check env format_max reject_empty loc len cur = (Inr (), cur)"
      "format_max \<noteq> 0 \<longrightarrow> len \<le> format_max" "reject_empty \<longrightarrow> len \<noteq> 0"
      "total_string_bytes (cur_stats cur) + len \<le> max_total_string_bytes (env_options env)"
proof -
  let ?used = "total_string_bytes (cur_stats cur)" and ?r = "string_length_check env format_max reject_empty loc len cur"
  let ?A = "reject_empty \<and> len = 0" and ?B = "format_max \<noteq> 0 \<and> len > format_max"
    and ?C = "len > max_string_bytes (env_options env)"
    and ?D = "len > SIZE_MAX - 1 \<or> len > ULLONG_MAX - ?used \<or> ?used + len > max_total_string_bytes (env_options env)"
  have fails: "?r = cursor_fail code sec l reason cur \<Longrightarrow> code \<noteq> YVEX_GGUF_PARSE_OK \<Longrightarrow> thesis" for code sec l reason
    by (rule refused)
  note defs = string_length_check_def Let_def
  consider ?A | "\<not> ?A" ?B | "\<not> ?A" "\<not> ?B" ?C | "\<not> ?A" "\<not> ?B" "\<not> ?C" ?D | "\<not> ?A" "\<not> ?B" "\<not> ?C" "\<not> ?D"
    by blast
  then show thesis
  proof cases
    case 5
    then have "?r = (Inr (), cur)" unfolding defs by (simp only: if_False)
    then show thesis using 5 by (intro admitted) (auto simp: not_less)
  next
    case 1
    show thesis by (rule fails, unfold defs if_P [OF 1], rule refl, simp)
  next
    case 2
    show thesis by (rule fails, unfold defs if_not_P [OF 2(1)] if_P [OF 2(2)], rule refl, simp)
  next
    case 3
    show thesis by (rule fails, unfold defs if_not_P [OF 3(1)] if_not_P [OF 3(2)] if_P [OF 3(3)], rule refl, simp)
  next
    case 4
    show thesis
      by (rule fails, unfold defs if_not_P [OF 4(1)] if_not_P [OF 4(2)] if_not_P [OF 4(3)] if_P [OF 4(4)],
          rule refl, simp)
  qed
qed

lemma sound_string_tail:
  assumes reads: "reads_file (env_artifact env) file"
  shows "sound env file (plain_failure file)
    (read_bind (string_length_check env format_max reject_empty loc len) (\<lambda>_.
     read_bind (string_content env format_max loc field len) (\<lambda>copy.
     string_content_check format_max reject_nul loc copy)))
    (\<lambda>x bs. bs = x \<and> length x = unat len \<and> string_admitted format_max reject_empty reject_nul x)"
    (is "sound _ _ _ ?m ?Q")
  unfolding sound_def
proof (intro allI impI)
  fix cur assume cur: "cursor_within env file cur"
  show "lands env file (plain_failure file) ?Q cur (?m cur)"
  proof (cases rule: string_length_check_cases [of env format_max reject_empty loc len cur])
    case (refused code sec l reason)
    then show ?thesis
      using lands_fail [OF cur refused(2)] refused(1) by (simp add: read_bind_def cursor_fail_def)
  next
    case admitted
    obtain r cur1 where content: "string_content env format_max loc field len cur = (r, cur1)"
      by (rule prod.exhaust)
    have kept: "total_string_bytes (cur_stats cur1) = total_string_bytes (cur_stats cur)"
      by (rule keepsD [OF keeps_strings_content content])
    have lands: "lands env file (plain_failure file) (\<lambda>x bs. x = bs \<and> length bs = unat len) cur (r, cur1)"
      by (rule soundD [OF sound_string_content [OF reads] cur content])
    show ?thesis
    proof (cases r)
      case (Inl e)
      then show ?thesis using lands content admitted(1) by (simp add: read_bind_def)
    next
      case (Inr x)
      then have x: "cursor_within env file cur1" "consumed file cur cur1 x" "length x = unat len"
        using lands by auto
      let ?cur2 = "cur1\<lparr>cur_stats := (cur_stats cur1)\<lparr>total_string_bytes :=
        total_string_bytes (cur_stats cur1) + of_nat (length x)\<rparr>\<rparr>"
      have "cursor_within env file ?cur2" "consumed file cur ?cur2 x"
        using x admitted(4) kept by (auto simp: cursor_within_def consumed_def)
      moreover have "reject_empty \<longrightarrow> x \<noteq> []" "format_max \<noteq> 0 \<longrightarrow> length x \<le> unat format_max"
        using admitted(2,3) x(3) by (auto simp: word_le_nat_alt unat_eq_0)
      ultimately show ?thesis
        using x content admitted(1) Inr
        by (auto simp: read_bind_def string_content_check_def string_admitted_def intro: lands_fail)
    qed
  qed
qed

lemma sound_read_string:
  assumes "reads_file (env_artifact env) file"
  shows "sound env file (plain_failure file) (cursor_read_string env format_max reject_empty reject_nul loc field)
    (\<lambda>x bs. bs = string_encoding x \<and> string_admitted format_max reject_empty reject_nul x)"
proof -
  have "cursor_read_string env format_max reject_empty reject_nul loc field =
    read_bind (cursor_read_u64le env loc field) (\<lambda>len.
    read_bind (string_length_check env format_max reject_empty loc len) (\<lambda>_.
    read_bind (string_content env format_max loc field len) (\<lambda>copy.
    string_content_check format_max reject_nul loc copy)))"
    by (simp add: cursor_read_string_def string_content_def read_bind_assoc)
  then show ?thesis
    by (auto simp: string_encoding_def
        intro!: sound_bind [OF sound_read_u64 [OF assms]] sound_weaken [OF sound_string_tail [OF assms]])
qed

end
