(* ===== verification/Gguf_Values.thy ===== *)
theory Gguf_Values
  imports Gguf_Contract
begin

unbundle bit_operations_syntax

text \<open>
  What the bytes of a metadata value mean, independently of the code, and that the reader of values
  and the loop over the metadata entries return what the bytes they consume encode.
\<close>

section \<open>Two's complement\<close>

lemma bit_top:
  fixes m :: nat
  assumes "m < 2 ^ Suc k"
  shows "bit m k \<longleftrightarrow> 2 ^ k \<le> m"
proof -
  have "m div 2 ^ k = (if 2 ^ k \<le> m then 1 else 0)"
    using assms div_nat_eqI [of "2 ^ k" 1 m] by (simp add: not_le)
  then show ?thesis by (simp add: bit_iff_odd)
qed

lemma take_bit_uint_64: "take_bit 64 (uint (x :: u64)) = uint x"
  using uint_lt2p [of x] by (simp add: take_bit_int_eq_self)

lemma sint_by_unat: "sint (x :: u64) = (if unat x < 2 ^ 63 then int (unat x) else int (unat x) - 2 ^ 64)"
proof -
  have lt: "unat x < 2 ^ Suc 63" using unat_u64_less [of x] by simp
  have "sint x = take_bit 64 (uint x) - 2 ^ 64 * of_bool (bit (uint x) 63)"
    by (simp add: sint_uint signed_take_bit_eq_take_bit_minus)
  also have "take_bit 64 (uint x) = int (unat x)" by (metis (no_types) take_bit_uint_64 uint_nat)
  also have "bit (uint x) 63 \<longleftrightarrow> bit (unat x) 63" by (simp add: bit_unsigned_iff)
  finally show ?thesis unfolding bit_top [OF lt] by (auto simp: not_less)
qed

text \<open>The number an \<open>n\<close>-byte field denotes in two's complement.\<close>

definition signed_value :: "nat \<Rightarrow> nat \<Rightarrow> int" where
  "signed_value bytes v = (if v < 2 ^ (8 * bytes - 1) then int v else int v - 2 ^ (8 * bytes))"

lemma push_bit_ones: "push_bit k (ULLONG_MAX :: u64) = - (2 ^ k)"
  by (simp add: push_bit_minus_one_eq_not_mask mask_eq_exp_minus_1 not_eq_complement)

lemma unat_sub_wrap:
  assumes "unat a < unat (b :: u64)"
  shows "unat (a - b) = unat a + (2 ^ 64 - unat b)"
proof -
  have b: "unat b < 2 ^ 64" by (rule unat_u64_less)
  let ?c = "of_nat (unat a + (2 ^ 64 - unat b)) :: u64"
  have zero: "(of_nat (2 ^ 64) :: u64) = 0" by (simp add: word_unat_eq_iff unat_of_nat)
  have "?c + b = of_nat (unat a + (2 ^ 64 - unat b)) + of_nat (unat b)" by simp
  also have "\<dots> = of_nat (unat a + (2 ^ 64 - unat b) + unat b)" by (simp only: of_nat_add)
  also have "unat a + (2 ^ 64 - unat b) + unat b = unat a + 2 ^ 64" using b by simp
  also have "of_nat (unat a + 2 ^ 64) = (of_nat (unat a) :: u64) + of_nat (2 ^ 64)" by (rule of_nat_add)
  also have "\<dots> = a" unfolding zero by simp
  finally have "a - b = ?c" by (metis add_diff_cancel_right')
  moreover have "unat a + (2 ^ 64 - unat b) < 2 ^ 64" using assms b by simp
  ultimately show ?thesis using unat_eq_of_nat_u64 [of "unat a + (2 ^ 64 - unat b)"] by (simp only:)
qed

lemma sint_sign_extend:
  assumes "0 < bytes" "bytes \<le> 8" "unat bits < 256 ^ bytes"
  shows "sint (sign_extend bytes bits) = signed_value bytes (unat bits)"
proof (cases "bytes = 8")
  case True
  then show ?thesis by (simp add: sign_extend_def signed_value_def sint_by_unat)
next
  case False
  define k where "k = 8 * bytes - 1"
  have k: "bytes * 8 = Suc k" "k < 56" "bytes * 8 - 1 = k" "8 * bytes = Suc k" using assms(1,2) False by (auto simp: k_def)
  have lt: "unat bits < 2 ^ Suc k" using assms(3) by (simp add: k(4) [symmetric] power_mult)
  have test: "bits AND push_bit k 1 \<noteq> 0 \<longleftrightarrow> 2 ^ k \<le> unat bits"
  proof -
    have "bits AND push_bit k 1 \<noteq> 0 \<longleftrightarrow> bit bits k" by (simp add: bit_iff_and_push_bit_not_eq_0)
    also have "\<dots> \<longleftrightarrow> bit (unat bits) k" using k(2) by (simp add: bit_unsigned_iff)
    finally show ?thesis by (simp only: bit_top [OF lt])
  qed
  have small: "(2 :: nat) ^ Suc k \<le> 2 ^ 56" using k(2) by (intro power_increasing) auto
  show ?thesis
  proof (cases "2 ^ k \<le> unat bits")
    case neg: True
    have "bits AND push_bit (Suc k) ULLONG_MAX = 0"
    proof (rule bit_word_eqI)
      fix i assume "i < LENGTH(64)"
      have "\<not> bit (unat bits) i" if "Suc k \<le> i"
      proof -
        have "unat bits < 2 ^ i" using lt power_increasing [OF that, of "2 :: nat"] by linarith
        then show ?thesis by (simp add: bit_iff_odd)
      qed
      then show "bit (bits AND push_bit (Suc k) ULLONG_MAX) i = bit (0 :: u64) i"
        by (cases "Suc k \<le> i") (auto simp: bit_and_iff bit_unsigned_iff bit_not_iff bit_mask_iff)
    qed
    then have "bits OR push_bit (Suc k) ULLONG_MAX = bits + push_bit (Suc k) ULLONG_MAX"
      using word_plus_and_or [of bits "push_bit (Suc k) ULLONG_MAX"] by simp
    then have "bits OR push_bit (Suc k) ULLONG_MAX = bits - 2 ^ Suc k"
      by (simp only: push_bit_ones diff_conv_add_uminus)
    moreover have "unat (bits - 2 ^ Suc k) = unat bits + (2 ^ 64 - 2 ^ Suc k)"
    proof -
      have p: "unat (2 ^ Suc k :: u64) = 2 ^ Suc k" using unat_eq_of_nat_u64 [of "2 ^ Suc k"] small by simp
      show ?thesis using unat_sub_wrap [of bits "2 ^ Suc k"] lt by (simp only: p)
    qed
    moreover have "sign_extend bytes bits = bits OR push_bit (Suc k) ULLONG_MAX"
      unfolding sign_extend_def k using test neg assms(2) False by (simp only: simp_thms if_True) auto
    ultimately have u: "unat (sign_extend bytes bits) = unat bits + (2 ^ 64 - 2 ^ Suc k)" by (simp only:)
    have "\<not> n + (2 ^ 64 - p) < 2 ^ 63" if "p \<le> 2 ^ 56" for n p :: nat using that by simp
    from this [OF small] have "\<not> unat (sign_extend bytes bits) < 2 ^ 63" unfolding u .
    then have "sint (sign_extend bytes bits) = int (unat bits + (2 ^ 64 - 2 ^ Suc k)) - 2 ^ 64"
      unfolding sint_by_unat u by (simp only: if_False)
    also have "\<dots> = int (unat bits) - 2 ^ Suc k" using small by (simp add: of_nat_diff)
    finally show ?thesis using neg unfolding signed_value_def k by (simp add: not_less)
  next
    case False
    have "unat bits < 2 ^ 63" using less_le_trans [OF lt small] by simp
    moreover have "sign_extend bytes bits = bits"
      unfolding sign_extend_def k using test False by (simp only: diff_Suc_1 simp_thms if_False)
    ultimately show ?thesis using False by (simp add: k sint_by_unat signed_value_def)
  qed
qed

section \<open>The encoding of values\<close>

fun type_code :: "yvex_gguf_value_type \<Rightarrow> nat" where
  "type_code YVEX_GGUF_VALUE_UINT8 = 0" | "type_code YVEX_GGUF_VALUE_INT8 = 1"
| "type_code YVEX_GGUF_VALUE_UINT16 = 2" | "type_code YVEX_GGUF_VALUE_INT16 = 3"
| "type_code YVEX_GGUF_VALUE_UINT32 = 4" | "type_code YVEX_GGUF_VALUE_INT32 = 5"
| "type_code YVEX_GGUF_VALUE_FLOAT32 = 6" | "type_code YVEX_GGUF_VALUE_BOOL = 7"
| "type_code YVEX_GGUF_VALUE_STRING = 8" | "type_code YVEX_GGUF_VALUE_ARRAY = 9"
| "type_code YVEX_GGUF_VALUE_UINT64 = 10" | "type_code YVEX_GGUF_VALUE_INT64 = 11"
| "type_code YVEX_GGUF_VALUE_FLOAT64 = 12" | "type_code YVEX_GGUF_VALUE_INVALID = 13"

inductive encodes_value :: "(u32 \<Rightarrow> u64) \<Rightarrow> yvex_gguf_value \<Rightarrow> u8 list \<Rightarrow> bool" for widen where
  unsigned: "scalar_specs t = (w, SCALAR_UNSIGNED, why) \<Longrightarrow> 0 < w \<Longrightarrow> unat n < 256 ^ w \<Longrightarrow>
    encodes_value widen (Gguf_u64 t n) (le_encode w (unat n))"
| signed: "scalar_specs t = (w, SCALAR_SIGNED, why) \<Longrightarrow> v < 256 ^ w \<Longrightarrow> sint n = signed_value w v \<Longrightarrow>
    encodes_value widen (Gguf_i64 t n) (le_encode w v)"
| float32: "encodes_value widen (Gguf_f64 YVEX_GGUF_VALUE_FLOAT32 (widen x)) (le_encode 4 (unat x))"
| float64: "encodes_value widen (Gguf_f64 YVEX_GGUF_VALUE_FLOAT64 x) (le_encode 8 (unat x))"
| truth: "encodes_value widen (Gguf_bool b) [if b then 1 else 0]"
| text_value: "utf8_valid s \<Longrightarrow> encodes_value widen (Gguf_string s) (string_encoding s)"
| empty: "t \<noteq> YVEX_GGUF_VALUE_INVALID \<Longrightarrow>
    encodes_value widen (Gguf_array t 0 None) (le_encode 4 (type_code t) @ le_encode 8 0)"
| array: "t \<noteq> YVEX_GGUF_VALUE_INVALID \<Longrightarrow> items \<noteq> [] \<Longrightarrow> length items = unat n \<Longrightarrow>
    \<forall>v \<in> set items. value_tag v = t \<Longrightarrow> list_all2 (encodes_value widen) items bss \<Longrightarrow>
    encodes_value widen (Gguf_array t n (Some items))
      (le_encode 4 (type_code t) @ le_encode 8 (length items) @ concat bss)"
  monos list_all2_mono

lemma encodes_value_clear: "encodes_value widen v bs \<Longrightarrow> \<not> value_clear_faults v"
proof (induction rule: encodes_value.induct)
  case (array t items n bss)
  have "\<not> value_clear_faults v" if "v \<in> set items" for v
    using array(5) that by (auto simp: list_all2_conv_all_nth in_set_conv_nth)
  then show ?case by (simp add: list_ex_iff)
qed auto

section \<open>Reading values\<close>

lemma parse_value_type_exact:
  "sound env file (plain_failure file) (parse_value_type raw)
     (\<lambda>t bs. bs = [] \<and> t \<noteq> YVEX_GGUF_VALUE_INVALID \<and> unat raw = type_code t)"
proof (cases "raw > 12")
  case True
  then show ?thesis by (simp add: parse_value_type_def sound_fail)
next
  case False
  then have "unat raw \<in> set [0..<13]" by (simp add: word_less_nat_alt)
  moreover have "list_all (\<lambda>i. value_types ! i \<noteq> YVEX_GGUF_VALUE_INVALID \<and> i = type_code (value_types ! i)) [0..<13]"
    by code_simp
  ultimately show ?thesis using False by (simp add: parse_value_type_def list_all_iff sound_return)
qed

lemma scalar_specs_cases:
  assumes "type \<notin> {YVEX_GGUF_VALUE_STRING, YVEX_GGUF_VALUE_ARRAY, YVEX_GGUF_VALUE_INVALID}"
    "scalar_specs type = (width, kind, why)"
  shows "width \<in> {1, 2, 4, 8}" "kind = SCALAR_BOOL \<longleftrightarrow> type = YVEX_GGUF_VALUE_BOOL"
    "kind = SCALAR_BOOL \<Longrightarrow> width = 1"
    "kind = SCALAR_FLOAT \<Longrightarrow> width = 4 \<and> type = YVEX_GGUF_VALUE_FLOAT32 \<or> width = 8 \<and> type = YVEX_GGUF_VALUE_FLOAT64"
  using assms by (cases type; auto)+

lemma encodes_scalar:
  assumes type: "type \<notin> {YVEX_GGUF_VALUE_STRING, YVEX_GGUF_VALUE_ARRAY, YVEX_GGUF_VALUE_INVALID}"
    and spec: "scalar_specs type = (width, kind, why)" and len: "length bs = width"
  shows "kind = SCALAR_UNSIGNED \<Longrightarrow> encodes_value widen (Gguf_u64 type (le_load bs)) bs"
    "kind = SCALAR_SIGNED \<Longrightarrow> encodes_value widen (Gguf_i64 type (sign_extend width (le_load bs))) bs"
    "kind = SCALAR_FLOAT \<Longrightarrow> encodes_value widen
       (Gguf_f64 type (if width = 4 then widen (ucast (le_load bs)) else le_load bs)) bs"
    "kind = SCALAR_BOOL \<Longrightarrow> le_load bs \<le> 1 \<Longrightarrow> encodes_value widen (Gguf_bool (le_load bs \<noteq> 0)) bs"
proof -
  note sp = scalar_specs_cases [OF type spec]
  have width: "0 < width" "width \<le> 8" using sp(1) by auto
  have val: "unat (le_load bs) = le_value bs" using len width by (simp add: unat_le_load)
  have bound: "le_value bs < 256 ^ width" using le_value_less [of bs] len by simp
  have enc: "le_encode width (le_value bs) = bs" using len by (rule le_encode_eq) simp
  { assume "kind = SCALAR_UNSIGNED"
    then show "encodes_value widen (Gguf_u64 type (le_load bs)) bs"
      using encodes_value.unsigned [of type width why "le_load bs" widen] spec width val bound enc by simp }
  { assume "kind = SCALAR_SIGNED"
    then show "encodes_value widen (Gguf_i64 type (sign_extend width (le_load bs))) bs"
      using encodes_value.signed [of type width why "le_value bs" "sign_extend width (le_load bs)" widen] spec bound enc
        sint_sign_extend [OF width, of "le_load bs"] val by simp }
  { assume "kind = SCALAR_FLOAT"
    then consider "width = 4" "type = YVEX_GGUF_VALUE_FLOAT32" | "width = 8" "type = YVEX_GGUF_VALUE_FLOAT64"
      using sp(4) by blast
    then show "encodes_value widen (Gguf_f64 type (if width = 4 then widen (ucast (le_load bs)) else le_load bs)) bs"
    proof cases
      case 1
      have "unat (ucast (le_load bs) :: u32) = le_value bs"
        using bound 1 val by (simp add: unsigned_ucast_eq take_bit_nat_eq_self)
      then show ?thesis using encodes_value.float32 [of widen "ucast (le_load bs)"] 1 enc by simp
    next
      case 2
      then show ?thesis using encodes_value.float64 [of widen "le_load bs"] val enc by simp
    qed }
  { assume "kind = SCALAR_BOOL" and le: "le_load bs \<le> 1"
    then obtain b where b: "bs = [b]" using sp(3) len by (auto simp: length_Suc_conv)
    have "unat b \<le> 1" using le by (simp add: b word_le_nat_alt)
    then have "b = 0 \<or> b = 1" by (simp add: word_unat_eq_iff le_Suc_eq)
    then have "bs = [if le_load bs \<noteq> 0 then 1 else 0]" by (auto simp: b)
    then show "encodes_value widen (Gguf_bool (le_load bs \<noteq> 0)) bs"
      using encodes_value.truth [of widen "le_load bs \<noteq> 0"] by simp }
qed

lemma sound_parse_scalar:
  assumes reads: "reads_file (env_artifact env) file"
    and type: "type \<notin> {YVEX_GGUF_VALUE_STRING, YVEX_GGUF_VALUE_ARRAY, YVEX_GGUF_VALUE_INVALID}"
  shows "sound env file (plain_failure file) (parse_scalar env type)
    (\<lambda>v bs. encodes_value (env_f32 env) v bs \<and> value_tag v = type)"
proof -
  obtain width kind why where spec: "scalar_specs type = (width, kind, why)" by (rule prod_cases3)
  note sp = scalar_specs_cases [OF type spec]
  have w: "width \<noteq> 0" "unat (of_nat width :: u64) = width" using sp(1) by auto
  show ?thesis
    unfolding parse_scalar_def spec Let_def prod.case if_not_P [OF w(1)]
  proof (rule sound_bind [OF sound_read_exact [OF reads]])
    fix x b1 :: "u8 list" assume "x = b1 \<and> length b1 = unat (of_nat width :: u64)"
    then have x: "x = b1" "length b1 = width" using w(2) by auto
    note enc = encodes_scalar [OF type spec x(2), of "env_f32 env"]
    show "sound env file (plain_failure file)
      (case kind of SCALAR_UNSIGNED \<Rightarrow> read_return (Gguf_u64 type (le_load (take width x)))
       | SCALAR_SIGNED \<Rightarrow> read_return (Gguf_i64 type (sign_extend width (le_load (take width x))))
       | SCALAR_FLOAT \<Rightarrow> read_return (Gguf_f64 type (if width = 4 then env_f32 env (ucast (le_load (take width x)))
           else le_load (take width x)))
       | SCALAR_BOOL \<Rightarrow> if le_load (take width x) \<le> 1 then read_return (Gguf_bool (le_load (take width x) \<noteq> 0))
           else cursor_fail YVEX_GGUF_PARSE_MALFORMED_VALUE YVEX_GGUF_PARSE_SECTION_METADATA
             ''gguf.metadata.value'' ''GGUF bool metadata value must be zero or one'')
      (\<lambda>v b2. encodes_value (env_f32 env) v (b1 @ b2) \<and> value_tag v = type)"
      using enc x sp(2) by (cases kind) (auto intro: sound_return sound_fail)
  qed
qed

lemma parse_items_bind:
  "parse_items item (Suc n) items =
     read_bind (read_map_failure (\<lambda>(e, partial). (e, items @ [partial])) item) (\<lambda>v. parse_items item n (items @ [v]))"
  by (auto simp: fun_eq_iff read_bind_def read_map_failure_def split: prod.split sum.split)

lemma sound_parse_items:
  assumes item: "sound env file (filled_failure file value_clear_faults) item Q"
    and clear: "\<And>v bs. Q v bs \<Longrightarrow> \<not> value_clear_faults v"
  shows "\<not> list_ex value_clear_faults items \<Longrightarrow>
    sound env file (filled_failure file (list_ex value_clear_faults)) (parse_items item n items)
      (\<lambda>vs bs. \<exists>news bss. vs = items @ news \<and> length news = n \<and> bs = concat bss \<and> list_all2 Q news bss)"
proof (induction n arbitrary: items)
  case 0
  then show ?case
    by (auto simp: sound_def intro!: exI [of _ "[]"])
next
  case (Suc n)
  show ?case unfolding parse_items_bind
  proof (rule sound_bind)
    show "sound env file (filled_failure file (list_ex value_clear_faults))
      (read_map_failure (\<lambda>(e, partial). (e, items @ [partial])) item) Q"
      by (rule sound_map_failure [OF item]) (use Suc.prems in \<open>auto simp: filled_failure_def\<close>)
  next
    fix v b1 assume q: "Q v b1"
    then have "\<not> list_ex value_clear_faults (items @ [v])" using Suc.prems clear by simp
    from Suc.IH [OF this] show "sound env file (filled_failure file (list_ex value_clear_faults))
      (parse_items item n (items @ [v]))
      (\<lambda>vs b2. \<exists>news bss. vs = items @ news \<and> length news = Suc n \<and> b1 @ b2 = concat bss \<and> list_all2 Q news bss)"
    proof (rule sound_weaken)
      fix vs b2
      assume "\<exists>news bss. vs = (items @ [v]) @ news \<and> length news = n \<and> b2 = concat bss \<and> list_all2 Q news bss"
      then obtain news bss where "vs = items @ v # news" "length news = n" "b2 = concat bss" "list_all2 Q news bss"
        by auto
      then show "\<exists>news bss. vs = items @ news \<and> length news = Suc n \<and> b1 @ b2 = concat bss \<and> list_all2 Q news bss"
        using q by (intro exI [of _ "v # news"] exI [of _ "b1 # bss"]) simp
    qed
  qed
qed

lemma sound_array_budget:
  "sound env file (plain_failure file) (array_budget_check env entries) (\<lambda>_ bs. bs = [])"
  unfolding sound_def
proof (intro allI impI)
  fix cur assume cur: "cursor_within env file cur"
  let ?used = "total_array_entries (cur_stats cur)"
  show "lands env file (plain_failure file) (\<lambda>_ bs. bs = []) cur (array_budget_check env entries cur)"
  proof (cases "entries > ULLONG_MAX - ?used \<or> ?used + entries > max_total_array_entries (env_options env)")
    case True
    then show ?thesis by (auto simp: array_budget_check_def Let_def lands_fail [OF cur])
  next
    case False
    then have "cursor_within env file (cur\<lparr>cur_stats := (cur_stats cur)\<lparr>total_array_entries := ?used + entries\<rparr>\<rparr>)"
      using cur budget_guard(2) [OF False] by (auto simp: cursor_within_def)
    then show ?thesis
      using False by (auto simp: array_budget_check_def Let_def lands_fail [OF cur] consumed_def)
  qed
qed

text \<open>The items after their memory has been reserved, with the cleanup of an array whose item fails.\<close>

definition array_items ::
  "yvex_gguf_value_type \<Rightarrow> u64 \<Rightarrow> (gguf_failure \<times> yvex_gguf_value, yvex_gguf_value) reader \<Rightarrow>
   (gguf_failure \<times> yvex_gguf_value, yvex_gguf_value) reader" where
  "array_items element_type entries item cur =
     (case parse_items item (unat entries) [] cur of
        (Inl (e, items), cur1) \<Rightarrow>
          let (fault, cleared) = gguf_value_clear (Gguf_array element_type entries (Some items))
          in (Inl (e, cleared), cur1\<lparr>cur_fault := cur_fault cur1 \<or> fault\<rparr>)
      | (Inr items, cur1) \<Rightarrow> (Inr (Gguf_array element_type entries (Some items)), cur1))"

abbreviation value_failure :: "u8 list \<Rightarrow> gguf_failure \<times> yvex_gguf_value \<Rightarrow> bool \<Rightarrow> bool" where
  "value_failure file \<equiv> filled_failure file value_clear_faults"

lemma sound_array_items:
  assumes item: "sound env file (value_failure file) item (\<lambda>v bs. encodes_value widen v bs \<and> value_tag v = t)"
    and t: "t \<noteq> YVEX_GGUF_VALUE_INVALID" "entries \<noteq> 0"
  shows "sound env file (value_failure file) (array_items t entries item)
    (\<lambda>v bs. encodes_value widen v (le_encode 4 (type_code t) @ le_encode 8 (unat entries) @ bs) \<and>
       value_tag v = YVEX_GGUF_VALUE_ARRAY)" (is "sound _ _ _ _ ?Q")
  unfolding sound_def
proof (intro allI impI)
  fix cur assume cur: "cursor_within env file cur"
  obtain r cur1 where r: "parse_items item (unat entries) [] cur = (r, cur1)" by (rule prod.exhaust)
  have lands: "lands env file (filled_failure file (list_ex value_clear_faults))
      (\<lambda>vs bs. \<exists>news bss. vs = [] @ news \<and> length news = unat entries \<and> bs = concat bss \<and>
         list_all2 (\<lambda>v bs. encodes_value widen v bs \<and> value_tag v = t) news bss) cur (r, cur1)"
    by (rule soundD [OF sound_parse_items [OF item] cur r]) (auto dest: encodes_value_clear)
  show "lands env file (value_failure file) ?Q cur (array_items t entries item cur)"
  proof (cases r)
    case (Inl p)
    then show ?thesis
      using lands r by (cases p) (simp add: array_items_def gguf_value_clear_def filled_failure_def)
  next
    case (Inr items)
    then obtain bss where items: "length items = unat entries"
      "list_all2 (\<lambda>v bs. encodes_value widen v bs \<and> value_tag v = t) items bss"
      and ok: "cursor_within env file cur1" "consumed file cur cur1 (concat bss)"
      using lands by auto
    have "items \<noteq> []" using items(1) t(2) by (auto simp: unat_eq_0)
    moreover have "\<forall>v \<in> set items. value_tag v = t" "list_all2 (encodes_value widen) items bss"
      using items(2) by (auto simp: list_all2_conv_all_nth in_set_conv_nth)
    ultimately have "encodes_value widen (Gguf_array t entries (Some items))
        (le_encode 4 (type_code t) @ le_encode 8 (unat entries) @ concat bss)"
      using encodes_value.array [OF t(1) _ items(1)] items(1) by metis
    then show ?thesis using ok r Inr by (auto simp: array_items_def)
  qed
qed

lemma parse_array_items:
  "parse_array env item =
     (let untouched = Gguf_zero YVEX_GGUF_VALUE_ARRAY in
      read_bind (failing_with untouched (cursor_read_u32le env ''gguf.metadata.array'' ''truncated GGUF array element type'')) (\<lambda>raw_type.
      read_bind (failing_with untouched (parse_value_type raw_type)) (\<lambda>element_type.
      read_bind (failing_with untouched (cursor_read_u64le env ''gguf.metadata.array'' ''truncated GGUF array count'')) (\<lambda>entries.
      read_bind (failing_with untouched (array_budget_check env entries)) (\<lambda>_.
      if entries = 0 then read_return (Gguf_array element_type 0 None)
      else
        let sized = Gguf_array element_type entries None in
        read_bind (failing_with sized (reserve_owned env (entries * sizeof_value env))) (\<lambda>_.
        read_bind (failing_with sized (reader_allocate env ''failed to allocate GGUF array items'')) (\<lambda>_.
        array_items element_type entries (item element_type))))))))"
  unfolding parse_array_def array_items_def [abs_def] by (rule refl)

lemma sound_parse_array:
  assumes reads: "reads_file (env_artifact env) file"
    and item: "\<And>t. t \<noteq> YVEX_GGUF_VALUE_INVALID \<Longrightarrow>
      sound env file (value_failure file) (item t) (\<lambda>v bs. encodes_value widen v bs \<and> value_tag v = t)"
  shows "sound env file (value_failure file) (parse_array env item)
    (\<lambda>v bs. encodes_value widen v bs \<and> value_tag v = YVEX_GGUF_VALUE_ARRAY)"
  unfolding parse_array_items Let_def
proof (rule sound_bind [OF sound_failing_with [OF sound_read_u32 [OF reads]]], simp,
    rule sound_bind [OF sound_failing_with [OF parse_value_type_exact]], simp,
    rule sound_bind [OF sound_failing_with [OF sound_read_u64 [OF reads]]], simp,
    rule sound_bind [OF sound_failing_with [OF sound_array_budget]], simp, goal_cases)
  case (1 raw b1 t b2 entries b3 _ b4)
  then have t: "t \<noteq> YVEX_GGUF_VALUE_INVALID"
    and bytes: "b1 @ b2 @ b3 @ b4 = le_encode 4 (type_code t) @ le_encode 8 (unat entries)" by simp_all
  show ?case
  proof (cases "entries = 0")
    case True
    then show ?thesis
      using encodes_value.empty [OF t, of widen] bytes by (auto intro!: sound_return)
  next
    case False
    have "sound env file (value_failure file)
      (read_bind (failing_with (Gguf_array t entries None) (reserve_owned env (entries * sizeof_value env))) (\<lambda>_.
       read_bind (failing_with (Gguf_array t entries None) (reader_allocate env ''failed to allocate GGUF array items'')) (\<lambda>_.
       array_items t entries (item t))))
      (\<lambda>v bs. encodes_value widen v (le_encode 4 (type_code t) @ le_encode 8 (unat entries) @ bs) \<and>
         value_tag v = YVEX_GGUF_VALUE_ARRAY)"
      by (rule sound_bind [OF sound_failing_memory [OF memory_reserve_owned]], simp,
          rule sound_bind [OF sound_failing_memory [OF memory_allocate]], simp,
          rule sound_array_items [OF item [OF t] t False])
    then show ?thesis using False bytes by (simp flip: append_assoc)
  qed
qed

lemma sound_parse_typed:
  assumes reads: "reads_file (env_artifact env) file" and t: "t \<noteq> YVEX_GGUF_VALUE_INVALID"
    and array: "t = YVEX_GGUF_VALUE_ARRAY \<Longrightarrow> sound env file (value_failure file) array
      (\<lambda>v bs. encodes_value (env_f32 env) v bs \<and> value_tag v = YVEX_GGUF_VALUE_ARRAY)"
  shows "sound env file (value_failure file) (parse_typed env array t)
    (\<lambda>v bs. encodes_value (env_f32 env) v bs \<and> value_tag v = t)"
proof -
  consider "t = YVEX_GGUF_VALUE_STRING" | "t = YVEX_GGUF_VALUE_ARRAY"
    | "t \<notin> {YVEX_GGUF_VALUE_STRING, YVEX_GGUF_VALUE_ARRAY, YVEX_GGUF_VALUE_INVALID}" using t by blast
  then show ?thesis
  proof cases
    case 1
    have "sound env file (value_failure file) (parse_typed env array YVEX_GGUF_VALUE_STRING)
      (\<lambda>v bs. encodes_value (env_f32 env) v bs \<and> value_tag v = YVEX_GGUF_VALUE_STRING)"
      unfolding parse_typed_def if_P [OF refl]
      by (rule sound_bind [OF sound_failing_with [OF sound_read_string [OF reads]]], simp, rule sound_return)
        (simp add: encodes_value.text_value string_admitted_def)
    then show ?thesis using 1 by simp
  next
    case 2
    then show ?thesis using array by (simp add: parse_typed_def)
  next
    case 3
    then show ?thesis
      by (simp add: parse_typed_def sound_failing_with [OF sound_parse_scalar [OF reads 3]])
  qed
qed

theorem sound_parse_value:
  assumes reads: "reads_file (env_artifact env) file"
  shows "t \<noteq> YVEX_GGUF_VALUE_INVALID \<Longrightarrow> sound env file (value_failure file) (parse_value depth env t)
    (\<lambda>v bs. encodes_value (env_f32 env) v bs \<and> value_tag v = t)"
proof (induction depth arbitrary: t)
  case 0
  have "sound env file (value_failure file) array_too_deep Q" for Q
    unfolding array_too_deep_def by (rule sound_failing_with [OF sound_fail]) simp_all
  then show ?case using sound_parse_typed [OF reads 0] by simp
next
  case (Suc depth)
  show ?case
    unfolding parse_value.simps
    by (rule sound_parse_typed [OF reads Suc.prems sound_parse_array [OF reads Suc.IH]])
qed

section \<open>The metadata loop\<close>

text \<open>The bytes of an entry, and the table after a number of entries have been read.\<close>

inductive encodes_entry :: "(u32 \<Rightarrow> u64) \<Rightarrow> yvex_gguf_metadata_entry \<Rightarrow> u8 list \<Rightarrow> bool" for widen where
  entry: "encodes_value widen (md_value e) bs \<Longrightarrow> encodes_entry widen e
    (string_encoding (md_key e) @ le_encode 4 (type_code (value_tag (md_value e))) @ bs)"

definition key_ok :: "u8 list \<Rightarrow> bool" where
  "key_ok key \<longleftrightarrow> metadata_key_valid key \<and> length key \<le> 65535"

definition metadata_ok :: "yvex_gguf \<Rightarrow> bool" where
  "metadata_ok gguf \<longleftrightarrow> index_ok (metadata_index gguf) (map md_key (g_metadata gguf)) \<and>
     list_all (\<lambda>e. key_ok (md_key e) \<and> \<not> value_clear_faults (md_value e)) (g_metadata gguf)"

abbreviation view_failure :: "u8 list \<Rightarrow> gguf_failure \<times> yvex_gguf \<Rightarrow> bool \<Rightarrow> bool" where
  "view_failure file \<equiv> filled_failure file gguf_clear"

lemma metadata_ok_clear: "metadata_ok gguf \<Longrightarrow> \<not> gguf_clear gguf"
  by (auto simp: metadata_ok_def gguf_clear_def gguf_value_clear_def list_all_iff list_ex_iff)

lemma within_clear_fault: "cursor_within env file cur \<Longrightarrow> cursor_within env file (cur\<lparr>cur_fault := False\<rparr>)"
  by (auto simp: cursor_within_def)

lemma sound_index_insert:
  assumes ok: "index_ok slots names" and room: "2 * (length names + 1) \<le> length slots"
    and code: "code \<noteq> YVEX_GGUF_PARSE_OK"
  shows "sound env file (plain_failure file)
    (\<lambda>cur. case name_index_insert slots names key of
        Inr slots \<Rightarrow> (Inr slots, cur)
      | Inl prior \<Rightarrow> cursor_fail code sec loc reason (cur\<lparr>cur_fault := cur_fault cur \<or> prior \<ge> length names\<rparr>))
    (\<lambda>slots' bs. bs = [] \<and> index_ok slots' (names @ [key]) \<and> length slots' = length slots)"
proof (cases "name_index_insert slots names key")
  case (Inl prior)
  have "prior < length names"
    using Inl by (cases rule: probe_decides [OF ok, of key]) (auto simp: name_index_insert_def)
  then show ?thesis
    using Inl code by (auto simp: sound_def within_no_fault intro!: lands_fail within_clear_fault)
next
  case (Inr slots')
  then show ?thesis
    using names.insert_success [OF ok room Inr] by (auto simp: sound_def intro!: lands_Inr_none)
qed

lemma metadata_index_insert_eq:
  "metadata_index_insert gguf key =
     (\<lambda>cur. case name_index_insert (metadata_index gguf) (map md_key (g_metadata gguf)) key of
        Inr slots \<Rightarrow> (Inr slots, cur)
      | Inl prior \<Rightarrow> cursor_fail YVEX_GGUF_PARSE_DUPLICATE_METADATA_KEY YVEX_GGUF_PARSE_SECTION_METADATA
          ''gguf.metadata.key'' ''duplicate GGUF metadata key''
          (cur\<lparr>cur_fault := cur_fault cur \<or> prior \<ge> length (map md_key (g_metadata gguf))\<rparr>))"
  by (auto simp: metadata_index_insert_def fun_eq_iff split: sum.split)

text \<open>One entry, and the loop.\<close>

definition metadata_step :: "reader_environment \<Rightarrow> yvex_gguf \<Rightarrow> (gguf_failure \<times> yvex_gguf, yvex_gguf) reader" where
  "metadata_step env gguf =
     (read_bind (set_record (of_nat (length (g_metadata gguf)))) (\<lambda>_.
      read_bind (failing_with gguf (cursor_read_string env YVEX_GGUF_MAX_KEY_LEN True True ''gguf.metadata.key''
        ''truncated GGUF metadata key'')) (\<lambda>key.
      if \<not> metadata_key_valid key
      then failing_with gguf (cursor_fail YVEX_GGUF_PARSE_MALFORMED_KEY YVEX_GGUF_PARSE_SECTION_METADATA
        ''gguf.metadata.key'' ''GGUF metadata key violates pinned key grammar'')
      else
      read_bind (failing_with gguf (metadata_index_insert gguf key)) (\<lambda>slots.
      read_bind (failing_with gguf (cursor_read_u32le env ''gguf.metadata.type'' ''truncated GGUF metadata value type'')) (\<lambda>raw_type.
      read_bind (failing_with gguf (parse_value_type raw_type)) (\<lambda>type.
      read_bind (read_map_failure
          (\<lambda>(e, partial). (e, gguf\<lparr>g_metadata := g_metadata gguf @ [\<lparr>md_key = key, md_value = partial\<rparr>]\<rparr>))
          (parse_value (unat (max_array_depth (env_options env))) env type)) (\<lambda>value.
      read_return (gguf\<lparr>metadata_index := slots,
        g_metadata := g_metadata gguf @ [\<lparr>md_key = key, md_value = value\<rparr>]\<rparr>))))))))"

lemma read_bind_if: "read_bind (if b then m else m') k = (if b then read_bind m k else read_bind m' k)"
  by simp

lemma read_bind_return: "read_bind (read_return x) k = k x"
  by (simp add: read_bind_def read_return_def fun_eq_iff)

lemma read_bind_fail: "read_bind (failing_with g (cursor_fail code sec loc reason)) k =
    failing_with g (cursor_fail code sec loc reason)"
  by (auto simp: read_bind_def failing_with_def read_map_failure_def cursor_fail_def fun_eq_iff)

lemma metadata_loop_step: "metadata_loop env (Suc n) gguf = read_bind (metadata_step env gguf) (metadata_loop env n)"
  by (simp add: metadata_step_def read_bind_assoc read_bind_if read_bind_return read_bind_fail cong: if_cong)

definition metadata_extends :: "(u32 \<Rightarrow> u64) \<Rightarrow> nat \<Rightarrow> yvex_gguf \<Rightarrow> yvex_gguf \<Rightarrow> u8 list \<Rightarrow> bool" where
  "metadata_extends widen n gguf g bs \<longleftrightarrow> metadata_ok g \<and> length (metadata_index g) = length (metadata_index gguf) \<and>
     (\<exists>new bss. g = gguf\<lparr>metadata_index := metadata_index g, g_metadata := g_metadata gguf @ new\<rparr> \<and>
        length new = n \<and> list_all2 (encodes_entry widen) new bss \<and> bs = concat bss)"

lemma metadata_ok_append:
  assumes "metadata_ok gguf" "index_ok slots (map md_key (g_metadata gguf) @ [key])" "key_ok key"
    "\<not> value_clear_faults v"
  shows "metadata_ok (gguf\<lparr>metadata_index := slots, g_metadata := g_metadata gguf @ [\<lparr>md_key = key, md_value = v\<rparr>]\<rparr>)"
  using assms by (simp add: metadata_ok_def)

lemma sound_metadata_step:
  assumes reads: "reads_file (env_artifact env) file" and ok: "metadata_ok gguf"
    and room: "2 * (length (g_metadata gguf) + 1) \<le> length (metadata_index gguf)"
  shows "sound env file (view_failure file) (metadata_step env gguf) (metadata_extends (env_f32 env) 1 gguf)"
  unfolding metadata_step_def
proof (rule sound_bind [OF sound_set_record [where Q = "\<lambda>_ bs. bs = []"]], simp,
    rule sound_bind [OF sound_failing_with [OF sound_read_string [OF reads]]], rule metadata_ok_clear [OF ok],
    goal_cases)
  case (1 _ b0 key b1)
  then have b: "b0 = []" "b1 = string_encoding key" and adm: "string_admitted YVEX_GGUF_MAX_KEY_LEN True True key"
    by simp_all
  have clear: "\<not> gguf_clear gguf" by (rule metadata_ok_clear [OF ok])
  note keep = sound_failing_with [where clear_faults = gguf_clear, OF _ clear]
  show ?case
  proof (cases "metadata_key_valid key")
    case False
    then show ?thesis by (simp add: keep [OF sound_fail])
  next
    case True
    then have key: "key_ok key" using adm by (simp add: key_ok_def string_admitted_def YVEX_GGUF_MAX_KEY_LEN_def)
    have index: "index_ok (metadata_index gguf) (map md_key (g_metadata gguf))" using ok by (simp add: metadata_ok_def)
    have room': "2 * (length (map md_key (g_metadata gguf)) + 1) \<le> length (metadata_index gguf)" using room by simp
    have valid: "\<not> \<not> metadata_key_valid key" using True by simp
    show ?thesis
      unfolding if_not_P [OF valid] metadata_index_insert_eq
    proof (rule sound_bind [OF keep [OF sound_index_insert [OF index room']]], simp,
        rule sound_bind [OF keep [OF sound_read_u32 [OF reads]]],
        rule sound_bind [OF keep [OF parse_value_type_exact]], goal_cases)
      case (1 slots b2 raw b3 t b4)
      then have s: "index_ok slots (map md_key (g_metadata gguf) @ [key])" "length slots = length (metadata_index gguf)"
        and t: "t \<noteq> YVEX_GGUF_VALUE_INVALID" and b': "b2 = []" "b3 = le_encode 4 (type_code t)" "b4 = []"
        by simp_all
      show ?case
      proof (rule sound_bind [OF sound_map_failure [OF sound_parse_value [OF reads t]]], goal_cases)
        case (1 e fault)
        then show ?case
          using clear by (cases e) (auto simp: filled_failure_def gguf_clear_def gguf_value_clear_def)
      next
        case (2 v b5)
        then have enc: "encodes_value (env_f32 env) v b5" "value_tag v = t" by simp_all
        let ?e = "\<lparr>md_key = key, md_value = v\<rparr>"
        let ?g = "gguf\<lparr>metadata_index := slots, g_metadata := g_metadata gguf @ [?e]\<rparr>"
        have "metadata_ok ?g" by (rule metadata_ok_append [OF ok s(1) key encodes_value_clear [OF enc(1)]])
        moreover have "encodes_entry (env_f32 env) ?e (b0 @ b1 @ b2 @ b3 @ b4 @ b5)"
          using encodes_entry.entry [of "env_f32 env" ?e b5] enc b b' by simp
        ultimately show ?case
          using s(2) by (intro sound_return) (auto simp: metadata_extends_def
              intro!: exI [of _ "[?e]"] exI [of _ "[b0 @ b1 @ b2 @ b3 @ b4 @ b5]"])
      qed
    qed
  qed
qed

lemma metadata_extendsD:
  assumes "metadata_extends widen n gguf g bs"
  shows "metadata_ok g" "length (metadata_index g) = length (metadata_index gguf)"
    "length (g_metadata g) = length (g_metadata gguf) + n"
proof -
  obtain new where new: "g = gguf\<lparr>metadata_index := metadata_index g, g_metadata := g_metadata gguf @ new\<rparr>"
    "length new = n" using assms by (auto simp: metadata_extends_def)
  show "length (g_metadata g) = length (g_metadata gguf) + n" by (subst new(1)) (simp add: new(2))
qed (use assms in \<open>simp_all add: metadata_extends_def\<close>)

lemma metadata_extends_trans:
  assumes "metadata_extends widen n g0 g1 b1" "metadata_extends widen m g1 g2 b2"
  shows "metadata_extends widen (n + m) g0 g2 (b1 @ b2)"
proof -
  obtain new1 bss1 where 1: "g1 = g0\<lparr>metadata_index := metadata_index g1, g_metadata := g_metadata g0 @ new1\<rparr>"
    "length new1 = n" "list_all2 (encodes_entry widen) new1 bss1" "b1 = concat bss1"
    using assms(1) by (auto simp: metadata_extends_def)
  obtain new2 bss2 where 2: "g2 = g1\<lparr>metadata_index := metadata_index g2, g_metadata := g_metadata g1 @ new2\<rparr>"
    "length new2 = m" "list_all2 (encodes_entry widen) new2 bss2" "b2 = concat bss2"
    using assms(2) by (auto simp: metadata_extends_def)
  have md: "g_metadata g1 = g_metadata g0 @ new1" by (subst 1(1)) simp
  have "g2 = g0\<lparr>metadata_index := metadata_index g2, g_metadata := g_metadata g0 @ (new1 @ new2)\<rparr>"
    by (subst 2(1), subst 1(1)) (simp add: md)
  then show ?thesis
    unfolding metadata_extends_def using assms 1 2
    by (auto simp: metadata_extends_def list_all2_appendI intro!: exI [of _ "new1 @ new2"] exI [of _ "bss1 @ bss2"])
qed

lemma sound_metadata_loop:
  assumes reads: "reads_file (env_artifact env) file"
  shows "metadata_ok gguf \<Longrightarrow> 2 * (length (g_metadata gguf) + n) \<le> length (metadata_index gguf) \<Longrightarrow>
    sound env file (view_failure file) (metadata_loop env n gguf) (metadata_extends (env_f32 env) n gguf)"
proof (induction n arbitrary: gguf)
  case 0
  then show ?case
    by (auto intro!: sound_return simp: metadata_extends_def intro!: exI [of _ "[]"])
next
  case (Suc n)
  show ?case unfolding metadata_loop_step
  proof (rule sound_bind [OF sound_metadata_step [OF reads Suc.prems(1)]])
    show "2 * (length (g_metadata gguf) + 1) \<le> length (metadata_index gguf)" using Suc.prems(2) by simp
  next
    fix g b1 assume g: "metadata_extends (env_f32 env) 1 gguf g b1"
    then have "metadata_ok g" "length (metadata_index g) = length (metadata_index gguf)"
      "length (g_metadata g) = length (g_metadata gguf) + 1"
      using metadata_extendsD [OF g] by simp_all
    then show "sound env file (view_failure file) (metadata_loop env n g)
        (\<lambda>y b2. metadata_extends (env_f32 env) (Suc n) gguf y (b1 @ b2))"
      using Suc.prems(2) metadata_extends_trans [OF g]
      by (intro sound_weaken [OF Suc.IH]) auto
  qed
qed

end
