(* ===== verification/Gguf_View.thy ===== *)
theory Gguf_View
  imports Gguf_Values
begin

text \<open>
  What an accepted GGUF file gives, as one predicate over the final view and cursor: header, metadata,
  alignment, directory and ranges are composed along the code.  The statements about the entry point
  are drawn from it in \<open>Gguf_Open\<close>.
\<close>

section \<open>Header and metadata\<close>

definition header_encoding :: "yvex_gguf_header \<Rightarrow> u8 list" where
  "header_encoding h = le_encode 4 (unat YVEX_GGUF_MAGIC) @ le_encode 4 (unat (version h)) @
     le_encode 8 (unat (tensor_count h)) @ le_encode 8 (unat (metadata_count h))"

lemma sound_parse_header:
  assumes reads: "reads_file (env_artifact env) file"
  shows "sound env file (plain_failure file) (parse_header env)
    (\<lambda>h bs. bs = header_encoding h \<and> version h = 3 \<and> metadata_count h \<le> max_metadata_entries (env_options env) \<and>
       tensor_count h \<le> max_tensor_entries (env_options env))"
  unfolding parse_header_def
proof (rule sound_bind [OF sound_set_section [where Q = "\<lambda>_ bs. bs = []"]], simp,
    rule sound_bind [OF sound_set_record [where Q = "\<lambda>_ bs. bs = []"]], simp,
    rule sound_bind [OF sound_read_u32 [OF reads]], goal_cases)
  case start: (1 _ c1 _ c2 magic b1)
  show ?case
  proof (cases "magic \<noteq> YVEX_GGUF_MAGIC")
    case True
    then show ?thesis by (simp add: sound_fail)
  next
    case magic: False
    show ?thesis unfolding if_not_P [OF magic]
    proof (rule sound_bind [OF sound_read_u32 [OF reads]], goal_cases)
      case (1 ver b2)
      show ?case
      proof (cases "ver \<noteq> YVEX_GGUF_SUPPORTED_VERSION")
        case True
        then show ?thesis by (simp add: sound_fail)
      next
        case ver: False
        show ?thesis unfolding if_not_P [OF ver]
          by (rule sound_bind [OF sound_read_u64 [OF reads]], rule sound_bind [OF sound_read_u64 [OF reads]])
            (use 1 start magic ver in \<open>auto simp: not_less header_encoding_def YVEX_GGUF_SUPPORTED_VERSION_def
              intro!: sound_fail sound_return\<close>)
      qed
    qed
  qed
qed

lemma sound_index_allocate:
  "sound env file (plain_failure file) (name_index_allocate env entries)
     (\<lambda>slots bs. bs = [] \<and> (if entries = 0 then slots = [] else index_ok slots [] \<and> 2 * unat entries \<le> length slots))"
proof (cases "entries = 0 \<or> entries > ULLONG_MAX div 2")
  case True
  then show ?thesis by (auto simp: name_index_allocate_def intro: sound_return sound_fail)
next
  case False
  then have e: "entries \<noteq> 0" "\<not> entries > ULLONG_MAX div 2" by auto
  have two: "unat (entries * 2) = 2 * unat entries" by (rule unat_double [OF e(2)])
  show ?thesis
  proof (cases "name_index_capacity (entries * 2) 8")
    case None
    then show ?thesis using e by (auto simp: name_index_allocate_def intro: sound_fail)
  next
    case (Some c)
    obtain j where j: "j < 64" "unat c = 2 ^ j" "entries * 2 \<le> c"
      using name_index_capacity_pow [OF Some, of 3] by auto
    show ?thesis
    proof (cases "c > SIZE_MAX div 8")
      case True
      then show ?thesis using e Some by (auto simp: name_index_allocate_def intro: sound_fail)
    next
      case False
      then have "name_index_allocate env entries =
          read_bind (reserve_owned env (c * 8)) (\<lambda>_.
          read_bind (reader_allocate env ''failed to allocate GGUF identifier index'') (\<lambda>_.
          read_return (replicate (unat c) 0)))"
        using e Some by (simp add: name_index_allocate_def)
      moreover have "index_ok (replicate (unat c) 0) []" using index_ok_empty [OF j(1)] j(2) by simp
      moreover have "2 * unat entries \<le> unat c" using j(3) two by (simp add: word_le_nat_alt)
      ultimately show ?thesis
        using e(1)
        by (auto intro!: sound_bind [OF sound_reserve_owned] sound_bind [OF sound_allocate] sound_return)
    qed
  qed
qed

text \<open>A view after the metadata: the table and its index, absent when there are no entries.\<close>

definition described :: "yvex_gguf \<Rightarrow> bool" where
  "described gguf \<longleftrightarrow> g_metadata gguf = [] \<and> metadata_index gguf = [] \<or> metadata_ok gguf"

lemma described_clear: "described gguf \<Longrightarrow> \<not> gguf_clear gguf"
  by (auto simp: described_def metadata_ok_clear) (simp add: gguf_clear_def)

lemma sound_parse_metadata:
  assumes reads: "reads_file (env_artifact env) file"
    and fresh: "g_metadata gguf = []" "metadata_index gguf = []"
  shows "sound env file (view_failure file) (parse_metadata env gguf)
    (\<lambda>g bs. described g \<and> g = gguf\<lparr>metadata_index := metadata_index g, g_metadata := g_metadata g\<rparr> \<and>
       length (g_metadata g) = unat (metadata_count (g_header gguf)) \<and>
       (\<exists>bss. list_all2 (encodes_entry (env_f32 env)) (g_metadata g) bss \<and> bs = concat bss))"
    (is "sound _ _ _ _ ?Q")
proof -
  let ?n = "metadata_count (g_header gguf)"
  have clear: "\<not> gguf_clear gguf" using fresh by (simp add: gguf_clear_def)
  note keep = sound_failing_with [where clear_faults = gguf_clear, OF _ clear]
  consider "?n = 0" | "?n \<noteq> 0" "?n > SIZE_MAX div sizeof_entry env" | "?n \<noteq> 0" "\<not> ?n > SIZE_MAX div sizeof_entry env"
    by blast
  then show ?thesis
  proof cases
    case 1
    then show ?thesis
      unfolding parse_metadata_def Let_def if_P [OF 1]
      by (intro sound_bind [OF sound_set_section [where Q = "\<lambda>_ bs. bs = []"]] sound_return)
        (simp_all add: described_def fresh exI [of _ "[]"])
  next
    case 2
    then show ?thesis
      unfolding parse_metadata_def Let_def if_not_P [OF 2(1)] if_P [OF 2(2)]
      by (intro sound_bind [OF sound_set_section [where Q = "\<lambda>_ bs. bs = []"]] keep [OF sound_fail]) simp_all
  next
    case 3
    show ?thesis
      unfolding parse_metadata_def Let_def if_not_P [OF 3(1)] if_not_P [OF 3(2)]
    proof (rule sound_bind [OF sound_set_section [where Q = "\<lambda>_ bs. bs = []"]], simp,
        rule sound_bind [OF keep [OF sound_reserve_owned]], rule sound_bind [OF keep [OF sound_allocate]],
        rule sound_bind [OF keep [OF sound_index_allocate]], goal_cases)
      case (1 _ b0 _ b1 _ b2 slots b3)
      then have slots: "index_ok slots []" "2 * unat ?n \<le> length slots" and b: "b0 @ b1 @ b2 @ b3 = []"
        using 3(1) by simp_all
      let ?g = "gguf\<lparr>metadata_index := slots\<rparr>"
      have "metadata_ok ?g" "2 * (length (g_metadata ?g) + unat ?n) \<le> length (metadata_index ?g)"
        using slots fresh by (simp_all add: metadata_ok_def)
      note loop = sound_metadata_loop [OF reads this]
      show ?case
      proof (rule sound_bind [OF loop], rule sound_bind [OF sound_set_record [where Q = "\<lambda>_ bs. bs = []"]], simp,
          rule sound_return, goal_cases)
        case (1 g b4 _ b5)
        note ext = metadata_extendsD [OF 1(1)]
        obtain new bss where new: "g = ?g\<lparr>metadata_index := metadata_index g, g_metadata := g_metadata ?g @ new\<rparr>"
          "list_all2 (encodes_entry (env_f32 env)) new bss" "b4 = concat bss"
          using 1(1) by (auto simp: metadata_extends_def)
        have md: "g_metadata g = new" by (subst new(1)) (simp add: fresh)
        have "g = gguf\<lparr>metadata_index := metadata_index g, g_metadata := g_metadata g\<rparr>"
          by (subst new(1)) (simp add: md fresh)
        then show ?case using ext new(2,3) md b 1(2) fresh by (auto simp: described_def)
      qed
    qed
  qed
qed

section \<open>Lookups\<close>

lemma described_find:
  assumes "described gguf"
  shows "name_index_find (metadata_index gguf) (map md_key (g_metadata gguf)) key = Some i \<longleftrightarrow>
    i < length (g_metadata gguf) \<and> md_key (g_metadata gguf ! i) = key"
  using assms names.find_iff [of "metadata_index gguf" "map md_key (g_metadata gguf)" key i]
  by (auto simp: described_def metadata_ok_def name_index_find_def)

lemma described_keys: "described gguf \<Longrightarrow> distinct (map md_key (g_metadata gguf)) \<and> list_all (\<lambda>e. key_ok (md_key e)) (g_metadata gguf)"
  using names.ok_distinct [of "metadata_index gguf" "map md_key (g_metadata gguf)"]
  by (auto simp: described_def metadata_ok_def list_all_iff)

lemma metadata_find_iff:
  assumes "described gguf"
  shows "yvex_gguf_metadata_find (Some gguf) (Some key) = Some v \<longleftrightarrow>
    (\<exists>e \<in> set (g_metadata gguf). md_key e = key \<and> md_value e = v)"
proof -
  have "yvex_gguf_metadata_find (Some gguf) (Some key) = Some v \<longleftrightarrow>
    (\<exists>i. i < length (g_metadata gguf) \<and> md_key (g_metadata gguf ! i) = key \<and> md_value (g_metadata gguf ! i) = v)"
    by (simp add: yvex_gguf_metadata_find_def map_option_eq_Some described_find [OF assms] conj_assoc)
  then show ?thesis by (metis in_set_conv_nth)
qed

section \<open>Alignment\<close>

text \<open>The alignment in force: the stored one when present, 32 otherwise.\<close>

definition alignment_ok :: "yvex_gguf \<Rightarrow> bool" where
  "alignment_ok gguf \<longleftrightarrow> alignment gguf \<noteq> 0 \<and>
     (case yvex_gguf_metadata_find (Some gguf) (Some general_alignment) of
        None \<Rightarrow> alignment gguf = 32
      | Some v \<Rightarrow> v = Gguf_u64 YVEX_GGUF_VALUE_UINT32 (ucast (alignment gguf)))"

lemma ucast_u32_back: "(n :: u64) \<le> 0xffffffff \<Longrightarrow> ucast (ucast n :: u32) = n"
proof -
  assume "n \<le> 0xffffffff"
  then have "unat n < 2 ^ 32" by (simp add: word_le_nat_alt)
  then have "unat (ucast n :: u32) = unat n" by (simp add: unsigned_ucast_eq take_bit_nat_eq_self)
  then show ?thesis by (simp add: word_unat_eq_iff)
qed

lemma metadata_find_alignment [simp]:
  "yvex_gguf_metadata_find (Some (gguf\<lparr>alignment := n\<rparr>)) key = yvex_gguf_metadata_find (Some gguf) key"
  by (cases key) (simp_all add: yvex_gguf_metadata_find_def)

lemma sound_derive_alignment:
  "sound env file (plain_failure file) (derive_alignment gguf)
     (\<lambda>g bs. bs = [] \<and> g = gguf\<lparr>alignment := alignment g\<rparr> \<and> alignment_ok g)"
proof (cases "yvex_gguf_metadata_find (Some gguf) (Some general_alignment)")
  case None
  then show ?thesis
    by (simp add: derive_alignment_def Let_def alignment_ok_def YVEX_GGUF_DEFAULT_ALIGNMENT_def sound_return)
next
  case (Some v)
  have fails: "sound env file (plain_failure file)
      (read_bind (set_section YVEX_GGUF_PARSE_SECTION_METADATA) (\<lambda>_. cursor_fail YVEX_GGUF_PARSE_INVALID_ALIGNMENT sec loc reason)) Q"
    for sec loc reason and Q :: "yvex_gguf \<Rightarrow> u8 list \<Rightarrow> bool"
    by (rule sound_bind [OF sound_set_section [where Q = "\<lambda>_ bs. bs = []"]]) (simp_all add: sound_fail)
  show ?thesis
  proof (cases "\<exists>n. v = Gguf_u64 YVEX_GGUF_VALUE_UINT32 n \<and> n \<noteq> 0 \<and> n \<le> 0xffffffff")
    case True
    then obtain n where n: "v = Gguf_u64 YVEX_GGUF_VALUE_UINT32 n" "n \<noteq> 0" "n \<le> 0xffffffff" by blast
    have same: "ucast (ucast n :: u32) = n" by (rule ucast_u32_back [OF n(3)])
    then have "(ucast n :: u32) \<noteq> 0" using n(2) by auto
    then show ?thesis
      using Some n same
      by (auto simp: derive_alignment_def Let_def alignment_ok_def yvex_gguf_value_type_of_def
          yvex_gguf_value_as_u64_def not_less intro!: sound_return)
  next
    case False
    have shape: "yvex_gguf_value_as_u64 (Some v) = Some n \<Longrightarrow> n \<noteq> 0 \<Longrightarrow> \<exists>t. v = Gguf_u64 t n" for n
      by (cases v) (auto simp: yvex_gguf_value_as_u64_def split: if_splits)
    show ?thesis
      using Some False shape fails
      by (auto simp: derive_alignment_def Let_def yvex_gguf_value_type_of_def not_less split: option.splits)
  qed
qed

definition align_up :: "nat \<Rightarrow> nat \<Rightarrow> nat" where
  "align_up n a = (if n mod a = 0 then n else n + (a - n mod a))"

lemma align_up:
  assumes "0 < a"
  shows "a dvd align_up n a" "n \<le> align_up n a" "align_up n a < n + a"
proof -
  have lt: "n mod a < a" using assms by simp
  have "n + (a - n mod a) = a * (n div a) + n mod a + (a - n mod a)" by simp
  also have "\<dots> = a * (n div a) + (n mod a + (a - n mod a))" by (rule add.assoc)
  also have "n mod a + (a - n mod a) = a" using lt by simp
  finally have "a dvd n + (a - n mod a)" by simp
  then show "a dvd align_up n a" by (simp add: align_up_def dvd_eq_mod_eq_0)
  show "n \<le> align_up n a" unfolding align_up_def by (metis le_add1 order_refl)
  show "align_up n a < n + a" using lt assms by (auto simp: align_up_def)
qed

lemma sound_align_offset:
  assumes "align \<noteq> 0"
  shows "sound env file (plain_failure file) (align_offset offset align)
    (\<lambda>v bs. bs = [] \<and> unat v = align_up (unat offset) (unat align))"
proof -
  let ?r = "offset mod ucast align" and ?p = "if offset mod ucast align = 0 then 0 else ucast align - offset mod ucast align :: u64"
  have a: "0 < unat align" using assms by (simp add: unat_gt_0)
  have r: "unat ?r = unat offset mod unat align" by (simp add: unat_mod)
  then have le: "?r \<le> ucast align" using a by (simp add: word_le_nat_alt less_imp_le)
  have p: "unat ?p = (if unat offset mod unat align = 0 then 0 else unat align - unat offset mod unat align)"
    using r unat_sub [OF le] by (auto simp: word_unat_eq_iff)
  show ?thesis
  proof (cases "offset > ULLONG_MAX - ?p")
    case True
    then show ?thesis using assms by (simp add: align_offset_def Let_def sound_fail)
  next
    case False
    then have "unat (offset + ?p) = unat offset + unat ?p"
      by (intro unat_add_no_wrap) (simp add: word_nat_simps add.commute)
    then show ?thesis
      using assms False p by (simp add: align_offset_def Let_def align_up_def sound_return)
  qed
qed

section \<open>The tensor directory\<close>

definition tensor_encoding :: "yvex_gguf_tensor_info \<Rightarrow> u8 list" where
  "tensor_encoding t = string_encoding (ti_name t) @ le_encode 4 (unat (ti_rank t)) @
     concat (map (\<lambda>d. le_encode 8 (unat d)) (ti_dims t)) @ le_encode 4 (unat (ggml_type t)) @
     le_encode 8 (unat (relative_offset t))"

text \<open>A record of the directory that the format admits; the size is the exact one of its type and shape.\<close>

definition tensor_ok :: "u32 \<Rightarrow> yvex_gguf_tensor_info \<Rightarrow> bool" where
  "tensor_ok align t \<longleftrightarrow> string_admitted 64 True True (ti_name t) \<and>
     length (ti_dims t) = unat (ti_rank t) \<and> ti_dims t \<noteq> [] \<and> length (ti_dims t) \<le> 4 \<and> 0 \<notin> set (ti_dims t) \<and>
     prod_list (map unat (ti_dims t)) < 2 ^ 64 \<and> qtype_admitted (ggml_type t) \<and> ggml_type_name t = yvex_gguf_qtype_name (ggml_type t) \<and>
     (\<exists>g. yvex_gguf_qtype_geometry_find (ggml_type t) = Some g \<and> unat (block_size g) dvd unat (hd (ti_dims t)) \<and>
        unat (storage_bytes t) =
          prod_list (map unat (ti_dims t)) div unat (block_size g) * unat (bytes_per_block g)) \<and>
     unat align dvd unat (relative_offset t)"

lemma sound_dims_loop:
  assumes reads: "reads_file (env_artifact env) file"
  shows "sound env file (plain_failure file) (dims_loop env n dims)
    (\<lambda>ds bs. \<exists>new. ds = dims @ new \<and> length new = n \<and> 0 \<notin> set new \<and> bs = concat (map (\<lambda>d. le_encode 8 (unat d)) new))"
proof (induction n arbitrary: dims)
  case 0
  show ?case by (auto intro!: sound_return)
next
  case (Suc n)
  show ?case unfolding dims_loop.simps
  proof (rule sound_bind [OF sound_read_u64 [OF reads]])
    fix d :: u64 and b1 assume b1: "b1 = le_encode 8 (unat d)"
    let ?Q = "\<lambda>ds b2. \<exists>new. ds = dims @ new \<and> length new = Suc n \<and> 0 \<notin> set new \<and>
      b1 @ b2 = concat (map (\<lambda>d. le_encode 8 (unat d)) new)"
    have "sound env file (plain_failure file) (dims_loop env n (dims @ [d])) ?Q" if "d \<noteq> 0"
      by (rule sound_weaken [OF Suc.IH [of "dims @ [d]"]]) (use that b1 in \<open>force intro: exI [of _ "d # _"]\<close>)
    then show "sound env file (plain_failure file)
      (if d = 0 then cursor_fail YVEX_GGUF_PARSE_INVALID_DIMENSION YVEX_GGUF_PARSE_SECTION_TENSOR_INFO
         ''gguf.tensor.dimension'' ''GGUF tensor dimension is zero'' else dims_loop env n (dims @ [d])) ?Q"
      by (simp add: sound_fail)
  qed
qed

lemma storage_ok_admitted:
  assumes "fst (yvex_gguf_qtype_tensor_storage q (Some ds) rank) = YVEX_GGUF_QTYPE_STORAGE_OK"
  shows "qtype_admitted q"
  using assms admission_ok_iff [of q]
  by (cases "qtype_admission_status (yvex_gguf_qtype_geometry_find q) = YVEX_GGUF_QTYPE_STORAGE_OK")
    (simp_all add: yvex_gguf_qtype_tensor_storage_def set_storage_status_def Let_def)

lemma qtype_parse_code_refuses: "qtype_parse_code status \<noteq> YVEX_GGUF_PARSE_OK"
  by (cases status) (simp_all add: qtype_parse_code_def)

lemma storage_tensor_ok:
  assumes adm: "string_admitted 64 True True name" and rank: "\<not> (rank = 0 \<or> rank > YVEX_GGUF_MAX_DIMS)"
    and dims: "length dims = unat rank" "0 \<notin> set dims"
    and st: "yvex_gguf_qtype_tensor_storage type (Some dims) rank = (YVEX_GGUF_QTYPE_STORAGE_OK, storage)"
    and off: "offset mod ucast align = 0"
  shows "tensor_ok align \<lparr>ti_name = name, ti_rank = rank, ti_dims = dims, ggml_type = type,
    ggml_type_name = yvex_gguf_qtype_name type, relative_offset = offset, absolute_offset = x,
    storage_bytes = sr_total_bytes storage, absolute_end_offset = y, range_addressable = z\<rparr>"
proof -
  have ok: "fst (yvex_gguf_qtype_tensor_storage type (Some dims) rank) = YVEX_GGUF_QTYPE_STORAGE_OK" using st by simp
  have q: "qtype_admitted type" by (rule storage_ok_admitted [OF ok])
  obtain g where g: "yvex_gguf_qtype_geometry_find type = Some g" using admitted_geometry [OF q] by blast
  have "storable g dims" using storage_ok_iff(1) [OF q dims(1) g] ok by simp
  moreover have "unat (sr_total_bytes storage) =
      prod_list (map unat dims) div unat (block_size g) * unat (bytes_per_block g)"
    using storage_ok_iff(2) [OF q dims(1) g ok] st by (simp add: Let_def)
  moreover have "unat align dvd unat offset" using off by (simp add: word_unat_eq_iff unat_mod dvd_eq_mod_eq_0)
  ultimately show ?thesis using adm dims q g by (simp add: tensor_ok_def storable_def)
qed

lemma sound_parse_tensor_info:
  assumes reads: "reads_file (env_artifact env) file" and adm: "string_admitted 64 True True name"
  shows "sound env file (plain_failure file) (parse_tensor_info env align name)
    (\<lambda>t bs. ti_name t = name \<and> tensor_ok align t \<and> string_encoding name @ bs = tensor_encoding t)"
  unfolding parse_tensor_info_def
proof (rule sound_bind [OF sound_read_u32 [OF reads]], goal_cases)
  case rank: (1 rank b1)
  show ?case
  proof (cases "rank = 0 \<or> rank > YVEX_GGUF_MAX_DIMS")
    case True
    then show ?thesis by (auto intro: sound_fail)
  next
    case in_range: False
    show ?thesis unfolding if_not_P [OF in_range]
    proof (rule sound_bind [OF sound_dims_loop [OF reads]], rule sound_bind [OF sound_read_u32 [OF reads]], goal_cases)
      case (1 dims b2 type b3)
      then have dims: "length dims = unat rank" "0 \<notin> set dims" and b2: "b2 = concat (map (\<lambda>d. le_encode 8 (unat d)) dims)"
        and b3: "b3 = le_encode 4 (unat type)" by auto
      obtain status storage where st: "yvex_gguf_qtype_tensor_storage type (Some dims) rank = (status, storage)"
        by (rule prod.exhaust)
      show ?case
      proof (cases "status \<noteq> YVEX_GGUF_QTYPE_STORAGE_OK")
        case True
        then show ?thesis
          unfolding st prod.case Let_def
          by (auto intro!: sound_bind [OF sound_set_section [where Q = "\<lambda>_ bs. bs = []"]] sound_fail
              simp: qtype_parse_code_refuses)
      next
        case ok: False
        then have st': "yvex_gguf_qtype_tensor_storage type (Some dims) rank = (YVEX_GGUF_QTYPE_STORAGE_OK, storage)"
          using st by simp
        show ?thesis unfolding st prod.case Let_def if_not_P [OF ok]
        proof (rule sound_bind [OF sound_set_section [where Q = "\<lambda>_ bs. bs = []"]], simp,
            rule sound_bind [OF sound_read_u64 [OF reads]], goal_cases)
          case (1 _ b4 offset b5)
          show ?case
          proof (cases "offset mod ucast align \<noteq> 0")
            case True
            then show ?thesis by (simp add: sound_fail)
          next
            case False
            then have off: "offset mod ucast align = 0" by simp
            show ?thesis unfolding if_not_P [OF False]
              using storage_tensor_ok [OF adm in_range dims st' off] rank b2 b3 1
              by (intro sound_return) (simp add: tensor_encoding_def)
          qed
        qed
      qed
    qed
  qed
qed

text \<open>The directory after a number of records: the index, and records the format admits.\<close>

definition directory_ok :: "yvex_gguf \<Rightarrow> bool" where
  "directory_ok gguf \<longleftrightarrow> index_ok (tensor_index gguf) (map ti_name (g_tensors gguf)) \<and>
     list_all (tensor_ok (alignment gguf)) (g_tensors gguf)"

definition directory_extends :: "nat \<Rightarrow> yvex_gguf \<Rightarrow> yvex_gguf \<Rightarrow> u8 list \<Rightarrow> bool" where
  "directory_extends n gguf g bs \<longleftrightarrow> directory_ok g \<and> length (tensor_index g) = length (tensor_index gguf) \<and>
     (\<exists>new. g = gguf\<lparr>tensor_index := tensor_index g, g_tensors := g_tensors gguf @ new\<rparr> \<and> length new = n \<and>
        bs = concat (map tensor_encoding new))"

lemma tensor_index_insert_eq:
  "tensor_index_insert gguf name =
     (\<lambda>cur. case name_index_insert (tensor_index gguf) (map ti_name (g_tensors gguf)) name of
        Inr slots \<Rightarrow> (Inr slots, cur)
      | Inl prior \<Rightarrow> cursor_fail YVEX_GGUF_PARSE_DUPLICATE_TENSOR_NAME YVEX_GGUF_PARSE_SECTION_TENSOR_INFO
          ''gguf.tensor.name'' ''duplicate GGUF tensor name''
          (cur\<lparr>cur_fault := cur_fault cur \<or> prior \<ge> length (map ti_name (g_tensors gguf))\<rparr>))"
  by (auto simp: tensor_index_insert_def fun_eq_iff split: sum.split)

lemma sound_tensor_loop:
  assumes reads: "reads_file (env_artifact env) file"
  shows "directory_ok gguf \<Longrightarrow> 2 * (length (g_tensors gguf) + n) \<le> length (tensor_index gguf) \<Longrightarrow>
    sound env file (plain_failure file) (tensor_loop env n gguf) (directory_extends n gguf)"
proof (induction n arbitrary: gguf)
  case 0
  then show ?case by (auto simp: directory_extends_def intro!: sound_return)
next
  case (Suc n)
  have index: "index_ok (tensor_index gguf) (map ti_name (g_tensors gguf))"
    and room: "2 * (length (map ti_name (g_tensors gguf)) + 1) \<le> length (tensor_index gguf)"
    using Suc.prems by (simp_all add: directory_ok_def)
  show ?case unfolding tensor_loop.simps tensor_index_insert_eq
  proof (rule sound_bind [OF sound_set_record [where Q = "\<lambda>_ bs. bs = []"]], simp,
      rule sound_bind [OF sound_read_string [OF reads]],
      rule sound_bind [OF sound_index_insert [OF index room]], simp, goal_cases)
    case (1 _ b0 name b1 slots b2)
    then have adm: "string_admitted 64 True True name" by (simp add: YVEX_GGUF_MAX_TENSOR_NAME_LEN_def)
    show ?case
    proof (rule sound_bind [OF sound_parse_tensor_info [OF reads adm]], goal_cases)
      case t: (1 t b3)
      let ?g = "gguf\<lparr>tensor_index := slots, g_tensors := g_tensors gguf @ [t]\<rparr>"
      have "directory_ok ?g" "2 * (length (g_tensors ?g) + n) \<le> length (tensor_index ?g)"
        using Suc.prems t 1 by (simp_all add: directory_ok_def)
      from Suc.IH [OF this] show ?case
      proof (rule sound_weaken)
        fix g b4 assume "directory_extends n ?g g b4"
        then obtain new where "directory_ok g" "length (tensor_index g) = length slots"
          "g = gguf\<lparr>tensor_index := tensor_index g, g_tensors := g_tensors gguf @ t # new\<rparr>" "length new = n"
          "b4 = concat (map tensor_encoding new)"
          by (auto simp: directory_extends_def)
        then show "directory_extends (Suc n) gguf g (b0 @ b1 @ b2 @ b3 @ b4)"
          using 1 t by (auto simp: directory_extends_def intro!: exI [of _ "t # new"])
      qed
    qed
  qed
qed

section \<open>Ranges\<close>

text \<open>A record with its absolute range in a file of the given size.\<close>

definition ranged :: "nat \<Rightarrow> nat \<Rightarrow> yvex_gguf_tensor_info \<Rightarrow> yvex_gguf_tensor_info \<Rightarrow> bool" where
  "ranged data_offset file_length t t' \<longleftrightarrow>
     t' = t\<lparr>absolute_offset := absolute_offset t', absolute_end_offset := absolute_end_offset t',
       range_addressable := range_addressable t'\<rparr> \<and>
     unat (absolute_offset t') = data_offset + unat (relative_offset t) \<and>
     unat (absolute_end_offset t') = unat (absolute_offset t') + unat (storage_bytes t) \<and>
     (range_addressable t' \<longleftrightarrow> unat (absolute_end_offset t') \<le> file_length)"

lemma sound_tensor_range:
  "sound env file (plain_failure file) (tensor_range data_offset t)
     (\<lambda>t' bs. bs = [] \<and> ranged (unat data_offset) (length file) t t')"
  unfolding sound_def
proof (intro allI impI)
  fix cur assume cur: "cursor_within env file cur"
  let ?b = "data_offset + relative_offset t" and ?Q = "\<lambda>t' bs. bs = [] \<and> ranged (unat data_offset) (length file) t t'"
  let ?e = "?b + storage_bytes t"
  have size: "unat (cur_size cur) = length file" using cur by (simp add: cursor_within_def)
  consider "relative_offset t > ULLONG_MAX - data_offset"
    | "\<not> relative_offset t > ULLONG_MAX - data_offset" "storage_bytes t > ULLONG_MAX - ?b"
    | "\<not> relative_offset t > ULLONG_MAX - data_offset" "\<not> storage_bytes t > ULLONG_MAX - ?b" by blast
  then show "lands env file (plain_failure file) ?Q cur (tensor_range data_offset t cur)"
  proof cases
    case 3
    have b: "unat ?b = unat data_offset + unat (relative_offset t)" "unat ?e = unat ?b + unat (storage_bytes t)"
      using 3 by (auto simp: word_nat_simps not_less intro!: unat_add_no_wrap)
    have "ranged (unat data_offset) (length file) t
        (t\<lparr>absolute_offset := ?b, absolute_end_offset := ?e, range_addressable := ?e \<le> cur_size cur\<rparr>)"
      using b size by (simp add: ranged_def word_le_nat_alt)
    then show ?thesis
      using 3 cur by (auto simp: tensor_range_def Let_def intro!: lands_Inr_none)
  qed (auto simp: tensor_range_def Let_def lands_fail [OF cur])
qed

lemma sound_range_loop:
  "sound env file (plain_failure file) (range_loop data_offset acc ts)
     (\<lambda>rs bs. bs = [] \<and> (\<exists>new. rs = acc @ new \<and> list_all2 (ranged (unat data_offset) (length file)) ts new))"
proof (induction ts arbitrary: acc)
  case Nil
  show ?case by (auto intro!: sound_return)
next
  case (Cons t ts)
  show ?case unfolding range_loop.simps
  proof (rule sound_bind [OF sound_set_record [where Q = "\<lambda>_ bs. bs = []"]], simp,
      rule sound_bind [OF sound_tensor_range], goal_cases)
    case (1 _ b0 t' b1)
    show ?case
      by (rule sound_weaken [OF Cons.IH [of "acc @ [t']"]]) (use 1 in auto)
  qed
qed

text \<open>The last steps read nothing: they leave the offset and mark it as the end of the directory.\<close>

definition finishes :: "u8 list \<Rightarrow> yvex_gguf \<Rightarrow> yvex_file_cursor \<Rightarrow> yvex_gguf \<Rightarrow> yvex_file_cursor \<Rightarrow> bool" where
  "finishes file gguf cur g cur1 \<longleftrightarrow>
     unat (tensor_data_offset g) = align_up (unat (cur_offset cur)) (unat (alignment gguf)) \<and>
     (g_tensors gguf \<noteq> [] \<longrightarrow> unat (tensor_data_offset g) \<le> length file) \<and>
     g = gguf\<lparr>tensor_data_offset := tensor_data_offset g, g_tensors := g_tensors g\<rparr> \<and>
     list_all2 (ranged (unat (tensor_data_offset g)) (length file)) (g_tensors gguf) (g_tensors g) \<and>
     cur_offset cur1 = cur_offset cur \<and>
     cur_stats cur1 = (cur_stats cur)\<lparr>directory_end_offset := cur_offset cur\<rparr>"

definition tensors_finish :: "bool \<Rightarrow> yvex_gguf \<Rightarrow> (gguf_failure, yvex_gguf) reader" where
  "tensors_finish without gguf =
     (if without
      then read_bind mark_directory_end (\<lambda>(offset, size).
        read_bind (align_offset offset (alignment gguf)) (\<lambda>data_offset.
        read_return (gguf\<lparr>tensor_data_offset := data_offset\<rparr>)))
      else derive_ranges gguf)"

definition tensors_read :: "reader_environment \<Rightarrow> yvex_gguf \<Rightarrow> (gguf_failure, yvex_gguf) reader" where
  "tensors_read env gguf =
     (let n = tensor_count (g_header gguf) in
      read_bind (set_section YVEX_GGUF_PARSE_SECTION_TENSOR_INFO) (\<lambda>_.
      if n = 0 then read_return gguf
      else if n > SIZE_MAX div sizeof_tensor env
      then cursor_fail YVEX_GGUF_PARSE_INVALID_COUNT YVEX_GGUF_PARSE_SECTION_RESOURCE ''gguf.resource''
        ''GGUF tensor count exceeds address space''
      else
      read_bind (reserve_owned env (n * sizeof_tensor env)) (\<lambda>_.
      read_bind (reader_allocate env ''failed to allocate GGUF tensor directory'') (\<lambda>_.
      read_bind (name_index_allocate env n) (\<lambda>slots.
      tensor_loop env (unat n) (gguf\<lparr>tensor_index := slots\<rparr>))))))"

lemma read_bind_cursor_fail: "read_bind (cursor_fail code sec loc reason) k = cursor_fail code sec loc reason"
  by (simp add: read_bind_def cursor_fail_def fun_eq_iff)

lemma parse_tensors_parts:
  "parse_tensors env gguf = read_bind (tensors_read env gguf) (tensors_finish (tensor_count (g_header gguf) = 0))"
proof (cases "tensor_count (g_header gguf) = 0")
  case False
  have derive: "tensors_finish False = derive_ranges" by (simp add: tensors_finish_def fun_eq_iff)
  show ?thesis
    unfolding parse_tensors_def tensors_read_def Let_def read_bind_assoc read_bind_if read_bind_cursor_fail
      if_not_P [OF False]
    using False by (simp add: derive)
qed (simp add: parse_tensors_def tensors_read_def read_bind_assoc read_bind_return tensors_finish_def)

definition listed :: "yvex_gguf \<Rightarrow> bool" where
  "listed gguf \<longleftrightarrow> g_tensors gguf = [] \<and> tensor_index gguf = [] \<or> directory_ok gguf"

lemma sound_tensors_read:
  assumes reads: "reads_file (env_artifact env) file" and fresh: "g_tensors gguf = []" "tensor_index gguf = []"
  shows "sound env file (plain_failure file) (tensors_read env gguf)
    (\<lambda>g bs. listed g \<and> g = gguf\<lparr>tensor_index := tensor_index g, g_tensors := g_tensors g\<rparr> \<and>
       length (g_tensors g) = unat (tensor_count (g_header gguf)) \<and> bs = concat (map tensor_encoding (g_tensors g)))"
proof -
  let ?n = "tensor_count (g_header gguf)"
  consider "?n = 0" | "?n \<noteq> 0" "?n > SIZE_MAX div sizeof_tensor env" | "?n \<noteq> 0" "\<not> ?n > SIZE_MAX div sizeof_tensor env"
    by blast
  then show ?thesis
  proof cases
    case 1
    then show ?thesis
      unfolding tensors_read_def Let_def if_P [OF 1]
      by (intro sound_bind [OF sound_set_section [where Q = "\<lambda>_ bs. bs = []"]] sound_return)
        (simp_all add: listed_def fresh)
  next
    case 2
    then show ?thesis
      unfolding tensors_read_def Let_def if_not_P [OF 2(1)] if_P [OF 2(2)]
      by (intro sound_bind [OF sound_set_section [where Q = "\<lambda>_ bs. bs = []"]] sound_fail) simp_all
  next
    case 3
    show ?thesis
      unfolding tensors_read_def Let_def if_not_P [OF 3(1)] if_not_P [OF 3(2)]
    proof (rule sound_bind [OF sound_set_section [where Q = "\<lambda>_ bs. bs = []"]], simp,
        rule sound_bind [OF sound_reserve_owned], rule sound_bind [OF sound_allocate],
        rule sound_bind [OF sound_index_allocate], goal_cases)
      case (1 _ b0 _ b1 _ b2 slots b3)
      then have slots: "index_ok slots []" "2 * unat ?n \<le> length slots" and b: "b0 @ b1 @ b2 @ b3 = []"
        using 3(1) by simp_all
      let ?g = "gguf\<lparr>tensor_index := slots\<rparr>"
      have "directory_ok ?g" "2 * (length (g_tensors ?g) + unat ?n) \<le> length (tensor_index ?g)"
        using slots fresh by (simp_all add: directory_ok_def)
      from sound_tensor_loop [OF reads this] show ?case
      proof (rule sound_weaken)
        fix g b4 assume ext: "directory_extends (unat ?n) ?g g b4"
        then obtain new where new: "g = ?g\<lparr>tensor_index := tensor_index g, g_tensors := g_tensors ?g @ new\<rparr>"
          "length new = unat ?n" "b4 = concat (map tensor_encoding new)" "directory_ok g"
          by (auto simp: directory_extends_def)
        have ts: "g_tensors g = new" by (subst new(1)) (simp add: fresh)
        have "g = gguf\<lparr>tensor_index := tensor_index g, g_tensors := g_tensors g\<rparr>"
          by (subst new(1)) (simp add: ts fresh)
        then show "listed g \<and> g = gguf\<lparr>tensor_index := tensor_index g, g_tensors := g_tensors g\<rparr> \<and>
          length (g_tensors g) = unat ?n \<and> b0 @ b1 @ b2 @ b3 @ b4 = concat (map tensor_encoding (g_tensors g))"
          using new ts b by (simp add: listed_def)
      qed
    qed
  qed
qed

lemma read_bind_Inr:
  "read_bind m k cur = (Inr y, cur2) \<longleftrightarrow> (\<exists>x cur1. m cur = (Inr x, cur1) \<and> k x cur1 = (Inr y, cur2))"
  by (auto simp: read_bind_def split: prod.splits sum.splits)

lemma failing_with_Inr: "failing_with partial m cur = (Inr x, cur1) \<longleftrightarrow> m cur = (Inr x, cur1)"
  by (auto simp: failing_with_def read_map_failure_def split: prod.splits sum.splits)

definition cursor_position :: "yvex_file_cursor \<Rightarrow> u64 \<times> yvex_gguf_reader_stats" where
  "cursor_position cur = (cur_offset cur, cur_stats cur)"

lemma keeps_position:
  "keeps cursor_position (set_section sec)" "keeps cursor_position (set_record n)"
  "keeps cursor_position (cursor_fail code section loc reason)" "keeps cursor_position (read_return x)"
  "keeps cursor_position (align_offset offset align)" "keeps cursor_position (tensor_range data_offset t)"
  by (auto simp: keeps_def cursor_position_def set_section_def set_record_def read_update_def cursor_fail_def
      read_return_def align_offset_def tensor_range_def Let_def)

lemma keeps_position_range_loop: "keeps cursor_position (range_loop data_offset acc ts)"
  by (induction ts arbitrary: acc) (auto intro!: keeps_bind keeps_position)

lemma sound_mark:
  "sound env file E mark_directory_end (\<lambda>(offset, size) bs. bs = [] \<and> unat size = length file)"
  by (auto simp: sound_def mark_directory_end_def cursor_within_def consumed_def)

lemma mark_directory_end_Inr:
  "mark_directory_end cur = (Inr x, cur1) \<longleftrightarrow> x = (cur_offset cur, cur_size cur) \<and>
     cur1 = cur\<lparr>cur_stats := (cur_stats cur)\<lparr>directory_end_offset := cur_offset cur\<rparr>\<rparr>"
  by (auto simp: mark_directory_end_def)

lemma sound_finish:
  assumes "alignment gguf \<noteq> 0"
  shows "sound env file (plain_failure file) (tensors_finish without gguf) (\<lambda>_ bs. bs = [])"
proof (cases without)
  case True
  show ?thesis
    unfolding tensors_finish_def if_P [OF True]
    by (rule sound_bind [OF sound_mark], clarify, rule sound_bind [OF sound_align_offset [OF assms]])
      (auto intro!: sound_return)
next
  case False
  show ?thesis
    unfolding tensors_finish_def if_not_P [OF False] derive_ranges_def
    by (rule sound_bind [OF sound_mark], clarify, rule sound_bind [OF sound_set_section [where Q = "\<lambda>_ bs. bs = []"]], simp,
        rule sound_bind [OF sound_set_record [where Q = "\<lambda>_ bs. bs = []"]], simp,
        rule sound_bind [OF sound_align_offset [OF assms]])
      (auto intro!: sound_fail sound_return sound_bind [OF sound_range_loop]
        sound_bind [OF sound_set_record [where Q = "\<lambda>_ bs. bs = []"]])
qed

lemma finish_exact:
  assumes cur: "cursor_within env file cur" and align: "alignment gguf \<noteq> 0" and empty: "without \<longleftrightarrow> g_tensors gguf = []"
    and run: "tensors_finish without gguf cur = (Inr g, cur2)"
  shows "finishes file gguf cur g cur2"
proof -
  let ?c0 = "cur\<lparr>cur_stats := (cur_stats cur)\<lparr>directory_end_offset := cur_offset cur\<rparr>\<rparr>"
  have c0: "cursor_within env file ?c0" using cur by (auto simp: cursor_within_def)
  have size: "unat (cur_size cur) = length file" using cur by (simp add: cursor_within_def)
  show ?thesis
  proof (cases without)
    case True
    then obtain v c1 where a: "align_offset (cur_offset cur) (alignment gguf) ?c0 = (Inr v, c1)"
      and g: "g = gguf\<lparr>tensor_data_offset := v\<rparr>" "cur2 = c1"
      using run by (auto simp: tensors_finish_def read_bind_Inr mark_directory_end_Inr read_return_def)
    have "unat v = align_up (unat (cur_offset cur)) (unat (alignment gguf))"
      using soundD [OF sound_align_offset [OF align] c0 a] by auto
    moreover have "cursor_position c1 = cursor_position ?c0" by (rule keepsD [OF keeps_position(5) a])
    ultimately show ?thesis
      using g True empty by (simp add: finishes_def cursor_position_def)
  next
    case False
    have w: "cursor_within env file (?c0\<lparr>cur_section := sec, cur_record_index := n\<rparr>)" for sec n
      using c0 by (auto simp: cursor_within_def)
    let ?c1 = "?c0\<lparr>cur_section := YVEX_GGUF_PARSE_SECTION_RANGE, cur_record_index := ULLONG_MAX\<rparr>"
    obtain v c1 ts c2 where a: "align_offset (cur_offset cur) (alignment gguf) ?c1 = (Inr v, c1)"
      and le: "\<not> v > cur_size cur" and r: "range_loop v [] (g_tensors gguf) c1 = (Inr ts, c2)"
      and g: "g = gguf\<lparr>tensor_data_offset := v, g_tensors := ts\<rparr>" "cur2 = c2\<lparr>cur_record_index := ULLONG_MAX\<rparr>"
      using run False
      by (auto simp: tensors_finish_def derive_ranges_def read_bind_Inr mark_directory_end_Inr read_return_def
          set_section_def set_record_def read_update_def cursor_fail_def split: if_splits)
    have v: "unat v = align_up (unat (cur_offset cur)) (unat (alignment gguf))" "cursor_within env file c1"
      using soundD [OF sound_align_offset [OF align] w a] by auto
    have "list_all2 (ranged (unat v) (length file)) (g_tensors gguf) ts"
      using soundD [OF sound_range_loop v(2) r] by auto
    moreover have "cursor_position c2 = cursor_position ?c1"
      using keepsD [OF keeps_position(5) a] keepsD [OF keeps_position_range_loop r] by simp
    ultimately show ?thesis
      using g v(1) le size by (simp add: finishes_def cursor_position_def word_le_nat_alt word_less_nat_alt)
  qed
qed

section \<open>Opening\<close>

text \<open>Everything an accepted file gives, in terms of the final cursor.\<close>

definition accepted :: "reader_environment \<Rightarrow> u8 list \<Rightarrow> yvex_gguf \<Rightarrow> yvex_file_cursor \<Rightarrow> bool" where
  "accepted env file view cur \<longleftrightarrow> cursor_within env file cur \<and>
     described view \<and> alignment_ok view \<and>
     (\<exists>mds. take (unat (cur_offset cur)) file =
        header_encoding (g_header view) @ concat mds @ concat (map tensor_encoding (g_tensors view)) \<and>
        list_all2 (encodes_entry (env_f32 env)) (g_metadata view) mds) \<and>
     version (g_header view) = 3 \<and>
     length (g_metadata view) = unat (metadata_count (g_header view)) \<and>
     length (g_tensors view) = unat (tensor_count (g_header view)) \<and>
     (\<exists>read. listed read \<and> alignment read = alignment view \<and> tensor_index read = tensor_index view \<and>
        list_all2 (ranged (unat (tensor_data_offset view)) (length file)) (g_tensors read) (g_tensors view)) \<and>
     unat (tensor_data_offset view) = align_up (unat (cur_offset cur)) (unat (alignment view)) \<and>
     (g_tensors view \<noteq> [] \<longrightarrow> unat (tensor_data_offset view) \<le> length file) \<and>
     directory_end_offset (cur_stats cur) = cur_offset cur"

lemma initial_within:
  assumes "reads_file (env_artifact env) file" "sizeof_view env \<le> max_owned_bytes (env_options env)"
  shows "cursor_within env file (initial_cursor env)"
  using assms by (simp add: cursor_within_def initial_cursor_def initial_stats_def reads_file_def)

lemma ranged_same:
  assumes "ranged d n t t'"
  shows "ti_name t' = ti_name t" "tensor_ok a t' = tensor_ok a t" "tensor_encoding t' = tensor_encoding t"
proof -
  obtain x y z where t': "t' = t\<lparr>absolute_offset := x, absolute_end_offset := y, range_addressable := z\<rparr>"
    using assms unfolding ranged_def by blast
  show "ti_name t' = ti_name t" "tensor_ok a t' = tensor_ok a t" "tensor_encoding t' = tensor_encoding t"
    unfolding t' by (simp_all add: tensor_ok_def tensor_encoding_def)
qed

lemma ranged_encodings:
  "list_all2 (ranged d n) ts ts' \<Longrightarrow> map tensor_encoding ts' = map tensor_encoding ts \<and>
     map ti_name ts' = map ti_name ts \<and> list_all (tensor_ok a) ts' = list_all (tensor_ok a) ts"
  by (induction rule: list_all2_induct) (auto simp: ranged_same)

lemma described_cong:
  "g_metadata g = g_metadata d \<Longrightarrow> metadata_index g = metadata_index d \<Longrightarrow> described g = described d"
  by (simp add: described_def metadata_ok_def)

lemma alignment_ok_cong:
  "g_metadata g = g_metadata d \<Longrightarrow> metadata_index g = metadata_index d \<Longrightarrow> alignment g = alignment d \<Longrightarrow>
     alignment_ok g = alignment_ok d"
  by (simp add: alignment_ok_def yvex_gguf_metadata_find_def split: option.split)

text \<open>The view before the last steps, with the bytes it encodes.\<close>

definition structured :: "reader_environment \<Rightarrow> u8 list \<Rightarrow> yvex_gguf \<Rightarrow> yvex_file_cursor \<Rightarrow> bool" where
  "structured env file r cur \<longleftrightarrow> cursor_within env file cur \<and> described r \<and> alignment_ok r \<and> listed r \<and>
     (\<exists>mds. consumed file (initial_cursor env) cur
        (header_encoding (g_header r) @ concat mds @ concat (map tensor_encoding (g_tensors r))) \<and>
        list_all2 (encodes_entry (env_f32 env)) (g_metadata r) mds) \<and>
     version (g_header r) = 3 \<and> length (g_metadata r) = unat (metadata_count (g_header r)) \<and>
     length (g_tensors r) = unat (tensor_count (g_header r))"

lemma parse_gguf_structured:
  assumes reads: "reads_file (env_artifact env) file" and owned: "sizeof_view env \<le> max_owned_bytes (env_options env)"
    and run: "parse_gguf env (initial_cursor env) = (Inr view, cur)"
  obtains r c4 where "structured env file r c4"
    "tensors_finish (tensor_count (g_header r) = 0) r c4 = (Inr view, cur)"
proof -
  let ?v = "initial_view env"
  obtain h c1 d c2 a c3 r c4 where
      h: "parse_header env (initial_cursor env) = (Inr h, c1)"
    and d: "parse_metadata env (?v\<lparr>g_header := h\<rparr>) c1 = (Inr d, c2)"
    and a: "derive_alignment d c2 = (Inr a, c3)"
    and r: "tensors_read env a c3 = (Inr r, c4)"
    and f: "tensors_finish (tensor_count (g_header a) = 0) r c4 = (Inr view, cur)"
    using run by (auto simp: parse_gguf_def Let_def read_bind_Inr failing_with_Inr parse_tensors_parts)
  have b1: "cursor_within env file c1" "consumed file (initial_cursor env) c1 (header_encoding h)" "version h = 3"
    using soundD [OF sound_parse_header [OF reads] initial_within [OF reads owned] h] by auto
  have fresh: "g_metadata (?v\<lparr>g_header := h\<rparr>) = []" "metadata_index (?v\<lparr>g_header := h\<rparr>) = []"
    by (simp_all add: initial_view_def)
  obtain mds where d': "cursor_within env file c2" "consumed file c1 c2 (concat mds)" "described d"
      "d = ?v\<lparr>g_header := h, metadata_index := metadata_index d, g_metadata := g_metadata d\<rparr>"
      "length (g_metadata d) = unat (metadata_count h)" "list_all2 (encodes_entry (env_f32 env)) (g_metadata d) mds"
    using soundD [OF sound_parse_metadata [OF reads fresh] b1(1) d] by auto
  have a': "cursor_within env file c3" "consumed file c2 c3 []" "a = d\<lparr>alignment := alignment a\<rparr>" "alignment_ok a"
    using soundD [OF sound_derive_alignment d'(1) a] by auto
  have same: "g_header a = h" "g_metadata a = g_metadata d" "metadata_index a = metadata_index d" "g_tensors a = []"
      "tensor_index a = []"
    by (subst a'(3), subst d'(4), simp add: initial_view_def)+
  have r': "cursor_within env file c4" "consumed file c3 c4 (concat (map tensor_encoding (g_tensors r)))" "listed r"
      "r = a\<lparr>tensor_index := tensor_index r, g_tensors := g_tensors r\<rparr>" "length (g_tensors r) = unat (tensor_count h)"
    using soundD [OF sound_tensors_read [OF reads same(4,5)] a'(1) r] same(1) by auto
  have rsame: "g_header r = h" "g_metadata r = g_metadata d" "metadata_index r = metadata_index d" "alignment r = alignment a"
    by (subst r'(4), simp add: same)+
  have "described r" using described_cong [OF rsame(2,3)] d'(3) by simp
  moreover have "alignment_ok r" using alignment_ok_cong [of r a] rsame same a'(4) by simp
  moreover have "consumed file (initial_cursor env) c4
      (header_encoding (g_header r) @ concat mds @ concat (map tensor_encoding (g_tensors r)))"
    using consumed_trans [OF consumed_trans [OF consumed_trans [OF b1(2) d'(2)] a'(2)] r'(2)] rsame(1) by simp
  ultimately have "structured env file r c4"
    using r' d' b1(3) unfolding structured_def rsame by blast
  then show thesis using that f same(1) rsame(1) by simp
qed

lemma parse_gguf_accepted:
  assumes reads: "reads_file (env_artifact env) file" and owned: "sizeof_view env \<le> max_owned_bytes (env_options env)"
    and run: "parse_gguf env (initial_cursor env) = (Inr view, cur)"
  shows "accepted env file view cur"
proof -
  obtain r c4 where st: "structured env file r c4"
    and f: "tensors_finish (tensor_count (g_header r) = 0) r c4 = (Inr view, cur)"
    by (rule parse_gguf_structured [OF assms])
  have w: "cursor_within env file c4" and al: "alignment r \<noteq> 0"
    using st by (auto simp: structured_def alignment_ok_def)
  have "tensor_count (g_header r) = 0 \<longleftrightarrow> g_tensors r = []"
    using st unfolding structured_def by (metis length_0_conv unat_eq_0)
  then have fin: "finishes file r c4 view cur" by (rule finish_exact [OF w al _ f])
  have within: "cursor_within env file cur" using soundD [OF sound_finish [OF al] w f] by auto
  have view: "view = r\<lparr>tensor_data_offset := tensor_data_offset view, g_tensors := g_tensors view\<rparr>"
    and ranges: "list_all2 (ranged (unat (tensor_data_offset view)) (length file)) (g_tensors r) (g_tensors view)"
    and off: "cur_offset cur = cur_offset c4" using fin by (auto simp: finishes_def)
  have same: "g_header view = g_header r" "g_metadata view = g_metadata r" "metadata_index view = metadata_index r"
      "alignment view = alignment r" "tensor_index view = tensor_index r"
    by (subst view, simp)+
  obtain mds where mds: "consumed file (initial_cursor env) c4
      (header_encoding (g_header r) @ concat mds @ concat (map tensor_encoding (g_tensors r)))"
      "list_all2 (encodes_entry (env_f32 env)) (g_metadata r) mds"
    using st by (auto simp: structured_def)
  have "take (unat (cur_offset cur)) file =
      header_encoding (g_header view) @ concat mds @ concat (map tensor_encoding (g_tensors view))"
    using mds(1) ranged_encodings [OF ranges] unfolding consumed_def off same
    by (simp add: initial_cursor_def)
  moreover have "described view" "alignment_ok view"
    using st described_cong [OF same(2,3)] alignment_ok_cong [OF same(2,3,4)] by (simp_all add: structured_def)
  moreover have "length (g_tensors view) = unat (tensor_count (g_header r))"
    using st list_all2_lengthD [OF ranges] by (simp add: structured_def)
  ultimately show ?thesis
    using st fin within mds(2) ranges off unfolding accepted_def structured_def finishes_def same by auto
qed

subsection \<open>The entry point\<close>

definition effective_limits :: "yvex_gguf_reader_options option \<Rightarrow> yvex_gguf_reader_options" where
  "effective_limits options = (case options of None \<Rightarrow> yvex_gguf_reader_options_default | Some given \<Rightarrow> given)"

definition open_environment ::
  "reader_environment \<Rightarrow> yvex_artifact \<Rightarrow> yvex_gguf_reader_options option \<Rightarrow> reader_environment" where
  "open_environment platform a options = platform\<lparr>env_artifact := a, env_options := effective_limits options\<rparr>"

lemma open_environment_simps [simp]:
  "env_artifact (open_environment platform a options) = a"
  "env_options (open_environment platform a options) = effective_limits options"
  "env_f32 (open_environment platform a options) = env_f32 platform"
  by (simp_all add: open_environment_def)

lemma open_accepted:
  assumes reads: "reads_file a file"
    and run: "yvex_gguf_open_ex True platform (Some a) options = (Inr (result, view), fault)"
  obtains v cur where "accepted (open_environment platform a options) file v cur"
    "view = v\<lparr>g_stats := (cur_stats cur)\<lparr>payload_bytes_read := 0\<rparr>\<rparr>" "pr_byte_offset result = cur_offset cur" "\<not> fault"
proof -
  let ?env = "open_environment platform a options"
  obtain v cur where p: "parse_gguf ?env (initial_cursor ?env) = (Inr v, cur)"
    and owned: "sizeof_view ?env \<le> max_owned_bytes (env_options ?env)"
    and res: "view = v\<lparr>g_stats := (cur_stats cur)\<lparr>payload_bytes_read := 0\<rparr>\<rparr>" "pr_byte_offset result = cur_offset cur"
      "fault = cur_fault cur"
    using run unfolding yvex_gguf_open_ex_def effective_limits_def [symmetric] option.case Let_def
      open_environment_def [symmetric]
    by (auto simp: not_less split: if_splits prod.splits sum.splits)
  have "accepted ?env file v cur" by (rule parse_gguf_accepted [OF _ owned p]) (simp add: reads)
  then show thesis using that res by (auto simp: accepted_def cursor_within_def)
qed

lemma accepted_directory:
  assumes "accepted env file view cur"
  shows "distinct (map ti_name (g_tensors view))" "list_all (tensor_ok (alignment view)) (g_tensors view)"
    "name_index_find (tensor_index view) (map ti_name (g_tensors view)) name = Some i \<longleftrightarrow>
       i < length (g_tensors view) \<and> ti_name (g_tensors view ! i) = name"
proof -
  obtain r where r: "listed r" "alignment r = alignment view" "tensor_index r = tensor_index view"
    "list_all2 (ranged (unat (tensor_data_offset view)) (length file)) (g_tensors r) (g_tensors view)"
    using assms by (auto simp: accepted_def)
  note enc = ranged_encodings [OF r(4), of "alignment view"]
  have ok: "g_tensors r = [] \<and> tensor_index view = [] \<or>
      index_ok (tensor_index view) (map ti_name (g_tensors view)) \<and> list_all (tensor_ok (alignment view)) (g_tensors r)"
    using r enc by (auto simp: listed_def directory_ok_def)
  show "distinct (map ti_name (g_tensors view))" using ok enc names.ok_distinct by auto
  show "list_all (tensor_ok (alignment view)) (g_tensors view)" using ok enc by auto
  show "name_index_find (tensor_index view) (map ti_name (g_tensors view)) name = Some i \<longleftrightarrow>
      i < length (g_tensors view) \<and> ti_name (g_tensors view ! i) = name"
    using ok
  proof
    assume "index_ok (tensor_index view) (map ti_name (g_tensors view)) \<and> list_all (tensor_ok (alignment view)) (g_tensors r)"
    then show ?thesis using names.find_iff [of "tensor_index view" "map ti_name (g_tensors view)" name i] by auto
  qed (use enc in \<open>simp add: name_index_find_def\<close>)
qed

text \<open>Refusals: the whole reader, as one step.\<close>

lemma sound_parse_gguf:
  assumes reads: "reads_file (env_artifact env) file"
  shows "sound env file (view_failure file) (parse_gguf env) (\<lambda>_ _. True)"
proof -
  let ?v = "initial_view env"
  have clear: "\<not> gguf_clear ?v" by (simp add: initial_view_def gguf_clear_def)
  have fresh: "g_metadata (?v\<lparr>g_header := h\<rparr>) = []" "metadata_index (?v\<lparr>g_header := h\<rparr>) = []" for h
    by (simp_all add: initial_view_def)
  show ?thesis
    unfolding parse_gguf_def Let_def
  proof (rule sound_bind [OF sound_failing_with [where clear_faults = gguf_clear, OF sound_parse_header [OF reads] clear]],
      rule sound_bind [OF sound_parse_metadata [OF reads fresh]], goal_cases)
    case (1 h b1 d b2)
    then have d: "described d" "d = ?v\<lparr>g_header := h, metadata_index := metadata_index d, g_metadata := g_metadata d\<rparr>"
      by auto
    have dc: "\<not> gguf_clear d" by (rule described_clear [OF d(1)])
    show ?case
    proof (rule sound_bind [OF sound_failing_with [where clear_faults = gguf_clear, OF sound_derive_alignment dc]], goal_cases)
      case (1 a b3)
      then have a: "a = d\<lparr>alignment := alignment a\<rparr>" "alignment_ok a" by auto
      have same: "g_metadata a = g_metadata d" "g_tensors a = []" "tensor_index a = []"
        by (subst a(1), subst d(2), simp add: initial_view_def)+
      have ac: "\<not> gguf_clear a" using dc same(1) by (simp add: gguf_clear_def)
      show ?case unfolding parse_tensors_parts
      proof (rule sound_failing_with [where clear_faults = gguf_clear, OF _ ac],
          rule sound_bind [OF sound_tensors_read [OF reads same(2,3)]], goal_cases)
        case (1 r b4)
        then have "r = a\<lparr>tensor_index := tensor_index r, g_tensors := g_tensors r\<rparr>" by auto
        then have "alignment r = alignment a" by (metis yvex_gguf.ext_inject yvex_gguf.surjective yvex_gguf.update_convs(3,5))
        then have "alignment r \<noteq> 0" using a(2) by (simp add: alignment_ok_def)
        from sound_finish [OF this] show ?case by (rule sound_weaken) simp
      qed
    qed
  qed
qed

lemma open_refused:
  assumes reads: "reads_file a file"
    and run: "yvex_gguf_open_ex True platform (Some a) options = (Inl failure, fault)"
  shows "failure_ok file failure" "fault \<Longrightarrow> memory_code (pr_code (gf_result failure))"
proof -
  let ?env = "open_environment platform a options"
  have early: "failure_ok file (gguf_reader_fail code sec 0 n loc reason)" if "code \<noteq> YVEX_GGUF_PARSE_OK" for code sec n loc reason
    using that by (auto simp: failure_ok_def gguf_reader_fail_def)
  consider (early) code sec n loc reason where "failure = gguf_reader_fail code sec 0 n loc reason" "code \<noteq> YVEX_GGUF_PARSE_OK" "\<not> fault"
    | (parsing) view cur where "parse_gguf ?env (initial_cursor ?env) = (Inl (failure, view), cur)"
      "sizeof_view ?env \<le> max_owned_bytes (env_options ?env)" "fault \<longleftrightarrow> cur_fault cur \<or> gguf_clear view"
    using run unfolding yvex_gguf_open_ex_def effective_limits_def [symmetric] option.case Let_def
      open_environment_def [symmetric] yvex_gguf_close_def
    by (auto simp: not_less split: if_splits prod.splits sum.splits)
  then have "failure_ok file failure \<and> (fault \<longrightarrow> memory_code (pr_code (gf_result failure)))"
  proof cases
    case early
    then show ?thesis using \<open>code \<noteq> YVEX_GGUF_PARSE_OK \<Longrightarrow> failure_ok file (gguf_reader_fail code sec 0 n loc reason)\<close> by auto
  next
    case parsing
    have "reads_file (env_artifact ?env) file" using reads by simp
    from soundD [OF sound_parse_gguf [OF this] initial_within [OF this parsing(2)] parsing(1)] show ?thesis
      using parsing(3) by (auto simp: filled_failure_def)
  qed
  then show "failure_ok file failure" "fault \<Longrightarrow> memory_code (pr_code (gf_result failure))" by auto
qed

end
