(* ===== verification/Gguf_Open.thy ===== *)
theory Gguf_Open
  imports Gguf_View
begin

text \<open>
  Opening a GGUF file: the view encodes exactly the bytes the reader consumed, it is well formed, its
  ranges are the aligned ranges of the format, lookups are exact, budgets hold, and a refusal reports
  itself.  The concrete files at the start exercise the statements; one of them makes the cleanup of a
  refused file follow a null pointer.
\<close>

section \<open>Sample files\<close>

text \<open>A file with one metadata entry, the alignment 16, and one tensor of four 32-bit floats.\<close>

definition sample_file :: "u8 list" where
  "sample_file =
     [71, 71, 85, 70, 3, 0, 0, 0, 1, 0, 0, 0, 0, 0, 0, 0, 1, 0, 0, 0, 0, 0, 0, 0, 17, 0, 0, 0, 0, 0, 0, 0,
      103, 101, 110, 101, 114, 97, 108, 46, 97, 108, 105, 103, 110, 109, 101, 110, 116, 4, 0, 0, 0, 16, 0,
      0, 0, 1, 0, 0, 0, 0, 0, 0, 0, 119, 1, 0, 0, 0, 4, 0, 0, 0, 0, 0, 0, 0, 0, 0, 0, 0, 0, 0, 0, 0, 0, 0,
      0, 0, 0, 0, 0, 0, 0, 0, 1, 2, 3, 4, 5, 6, 7, 8, 9, 10, 11, 12, 13, 14, 15, 16]"

definition sample_platform :: reader_environment where
  "sample_platform = \<lparr>env_artifact = memory_artifact [], env_options = yvex_gguf_reader_options_default,
     env_alloc = (\<lambda>_. True), sizeof_view = 200, sizeof_entry = 48, sizeof_tensor = 120, sizeof_value = 32,
     env_f32 = (\<lambda>_. 0)\<rparr>"



lemma not_isl_parts: "\<not> isl (fst r) \<Longrightarrow> \<exists>x y z. r = (Inr (x, y), z)"
  by (cases r; cases "fst r") auto


lemma sample_opens:
  "\<exists>result view fault. yvex_gguf_open_ex True sample_platform (Some (memory_artifact sample_file)) None =
     (Inr (result, view), fault)"
proof -
  have "\<not> isl (fst (yvex_gguf_open_ex True sample_platform (Some (memory_artifact sample_file)) None))"
    by code_simp
  then show ?thesis by (rule not_isl_parts)
qed

lemma sample_reads: "reads_file (memory_artifact sample_file) sample_file"
  by (rule memory_artifact_reads) (simp add: sample_file_def)




lemma ranged_fields:
  assumes "ranged d n t t'"
  shows "unat (absolute_offset t') = d + unat (relative_offset t')"
    "unat (absolute_end_offset t') = unat (absolute_offset t') + unat (storage_bytes t')"
    "range_addressable t' \<longleftrightarrow> unat (absolute_end_offset t') \<le> n"
proof -
  have t': "t' = t\<lparr>absolute_offset := absolute_offset t', absolute_end_offset := absolute_end_offset t',
      range_addressable := range_addressable t'\<rparr>" using assms unfolding ranged_def by blast
  have "relative_offset t' = relative_offset t" "storage_bytes t' = storage_bytes t" by (subst t', simp)+
  then show "unat (absolute_offset t') = d + unat (relative_offset t')"
    "unat (absolute_end_offset t') = unat (absolute_offset t') + unat (storage_bytes t')"
    "range_addressable t' \<longleftrightarrow> unat (absolute_end_offset t') \<le> n"
    using assms unfolding ranged_def by simp_all
qed

lemma ex_position: "(\<exists>i < unat (m :: u64). P i) \<longleftrightarrow> (\<exists>n < m. P (unat n))"
proof
  assume "\<exists>i < unat m. P i"
  then obtain i where i: "i < unat m" "P i" by blast
  then have "unat (of_nat i :: u64) = i" using unat_u64_less [of m] by (intro unat_eq_of_nat_u64) simp
  then show "\<exists>n < m. P (unat n)" using i by (intro exI [of _ "of_nat i"]) (simp add: word_less_nat_alt)
qed (auto simp: word_less_nat_alt)

section \<open>Properties\<close>

text \<open>
  (C28) The reader is sound: the bytes up to the reported offset are exactly the encoding of the view,
  the header, then the metadata entries, then the tensor records, each as the format prescribes, with
  as many of them as the header says; and the reader never follows a null pointer on the way.
\<close>

theorem gguf_open_encodes_view:
  assumes "reads_file a file"
    and "yvex_gguf_open_ex True platform (Some a) options = (Inr (result, view), fault)"
  shows "\<not> fault \<and> (\<exists>mds. take (unat (pr_byte_offset result)) file =
      header_encoding (g_header view) @ concat mds @ concat (map tensor_encoding (g_tensors view)) \<and>
      list_all2 (encodes_entry (env_f32 platform)) (g_metadata view) mds) \<and>
    length (g_metadata view) = unat (metadata_count (g_header view)) \<and>
    length (g_tensors view) = unat (tensor_count (g_header view)) \<and> version (g_header view) = 3"
proof -
  obtain v cur where v: "accepted (open_environment platform a options) file v cur"
    and view: "view = v\<lparr>g_stats := (cur_stats cur)\<lparr>payload_bytes_read := 0\<rparr>\<rparr>"
    and off: "pr_byte_offset result = cur_offset cur" and "\<not> fault"
    by (rule open_accepted [OF assms])
  then show ?thesis unfolding accepted_def view off by simp
qed

theorem gguf_open_encodes_view_witness:
  "\<exists>result view fault mds.
     yvex_gguf_open_ex True sample_platform (Some (memory_artifact sample_file)) None = (Inr (result, view), fault) \<and>
     take (unat (pr_byte_offset result)) sample_file =
       header_encoding (g_header view) @ concat mds @ concat (map tensor_encoding (g_tensors view))"
proof -
  obtain result view fault where run:
      "yvex_gguf_open_ex True sample_platform (Some (memory_artifact sample_file)) None = (Inr (result, view), fault)"
    using sample_opens by blast
  from gguf_open_encodes_view [OF sample_reads run] run show ?thesis by blast
qed

text \<open>
  (C29) An accepted view is well formed: keys are distinct and follow the key grammar, tensor names are
  distinct, and every tensor record has between one and four positive dimensions, an admitted element
  type, the exact size of its shape and an aligned offset; the alignment is the stored one or 32.
\<close>

theorem gguf_view_well_formed:
  assumes "reads_file a file"
    and "yvex_gguf_open_ex True platform (Some a) options = (Inr (result, view), fault)"
  shows "distinct (map md_key (g_metadata view)) \<and> list_all (\<lambda>e. key_ok (md_key e)) (g_metadata view) \<and>
    distinct (map ti_name (g_tensors view)) \<and> list_all (tensor_ok (alignment view)) (g_tensors view) \<and>
    alignment_ok view"
proof -
  obtain v cur where v: "accepted (open_environment platform a options) file v cur"
    and view: "view = v\<lparr>g_stats := (cur_stats cur)\<lparr>payload_bytes_read := 0\<rparr>\<rparr>"
    by (rule open_accepted [OF assms])
  have "described v" "alignment_ok v" using v by (auto simp: accepted_def)
  then show ?thesis
    using described_keys [of v] accepted_directory(1,2) [OF v] alignment_ok_cong [of view v] by (simp add: view)
qed

theorem gguf_view_well_formed_witness:
  "\<exists>result view fault.
     yvex_gguf_open_ex True sample_platform (Some (memory_artifact sample_file)) None = (Inr (result, view), fault) \<and>
     list_all (tensor_ok (alignment view)) (g_tensors view)"
proof -
  obtain result view fault where run:
      "yvex_gguf_open_ex True sample_platform (Some (memory_artifact sample_file)) None = (Inr (result, view), fault)"
    using sample_opens by blast
  from gguf_view_well_formed [OF sample_reads run] run show ?thesis by blast
qed

text \<open>
  (C30) The ranges are those of the format: tensor data begins at the first multiple of the alignment at
  or after the end of the directory, every tensor's range is the data offset plus its aligned relative
  offset for exactly its size, without wrap-around, and a range is marked addressable exactly when it
  lies within the file.
\<close>

theorem gguf_view_ranges:
  assumes "reads_file a file"
    and "yvex_gguf_open_ex True platform (Some a) options = (Inr (result, view), fault)"
  shows "let data = unat (tensor_data_offset view); ends = unat (pr_byte_offset result) in
    unat (alignment view) dvd data \<and> ends \<le> data \<and> data < ends + unat (alignment view) \<and>
    (g_tensors view \<noteq> [] \<longrightarrow> data \<le> length file) \<and>
    list_all (\<lambda>t. unat (absolute_offset t) = data + unat (relative_offset t) \<and>
      unat (alignment view) dvd unat (absolute_offset t) \<and>
      unat (absolute_end_offset t) = unat (absolute_offset t) + unat (storage_bytes t) \<and>
      (range_addressable t \<longleftrightarrow> unat (absolute_end_offset t) \<le> length file)) (g_tensors view)"
proof -
  obtain v cur where v: "accepted (open_environment platform a options) file v cur"
    and view: "view = v\<lparr>g_stats := (cur_stats cur)\<lparr>payload_bytes_read := 0\<rparr>\<rparr>"
    and off: "pr_byte_offset result = cur_offset cur"
    by (rule open_accepted [OF assms])
  let ?data = "unat (tensor_data_offset v)" and ?a = "unat (alignment v)"
  have data: "?data = align_up (unat (cur_offset cur)) ?a" "g_tensors v \<noteq> [] \<longrightarrow> ?data \<le> length file"
    and pos: "0 < ?a" using v by (auto simp: accepted_def alignment_ok_def unat_gt_0)
  note up = align_up [OF pos, of "unat (cur_offset cur)"]
  obtain ts where r: "list_all2 (ranged ?data (length file)) ts (g_tensors v)"
    using v unfolding accepted_def by blast
  have "list_all (\<lambda>t. unat (absolute_offset t) = ?data + unat (relative_offset t) \<and> ?a dvd unat (absolute_offset t) \<and>
      unat (absolute_end_offset t) = unat (absolute_offset t) + unat (storage_bytes t) \<and>
      (range_addressable t \<longleftrightarrow> unat (absolute_end_offset t) \<le> length file)) (g_tensors v)"
    unfolding list_all_iff
  proof
    fix t assume t: "t \<in> set (g_tensors v)"
    then obtain t0 where "ranged ?data (length file) t0 t" using r by (auto simp: list_all2_conv_all_nth in_set_conv_nth)
    then have rg: "unat (absolute_offset t) = ?data + unat (relative_offset t)"
      "unat (absolute_end_offset t) = unat (absolute_offset t) + unat (storage_bytes t)"
      "range_addressable t \<longleftrightarrow> unat (absolute_end_offset t) \<le> length file"
      by (rule ranged_fields)+
    have "?a dvd unat (relative_offset t)"
      using accepted_directory(2) [OF v] t by (auto simp: list_all_iff tensor_ok_def)
    then have "?a dvd unat (absolute_offset t)" using up(1) data(1) rg(1) by simp
    then show "unat (absolute_offset t) = ?data + unat (relative_offset t) \<and> ?a dvd unat (absolute_offset t) \<and>
        unat (absolute_end_offset t) = unat (absolute_offset t) + unat (storage_bytes t) \<and>
        (range_addressable t \<longleftrightarrow> unat (absolute_end_offset t) \<le> length file)"
      using rg by blast
  qed
  then show ?thesis using up data unfolding view off Let_def by simp
qed

theorem gguf_view_ranges_witness:
  "\<exists>result view fault.
     yvex_gguf_open_ex True sample_platform (Some (memory_artifact sample_file)) None = (Inr (result, view), fault) \<and>
     unat (alignment view) dvd unat (tensor_data_offset view) \<and>
     unat (pr_byte_offset result) \<le> unat (tensor_data_offset view)"
proof -
  obtain result view fault where run:
      "yvex_gguf_open_ex True sample_platform (Some (memory_artifact sample_file)) None = (Inr (result, view), fault)"
    using sample_opens by blast
  from gguf_view_ranges [OF sample_reads run] run show ?thesis unfolding Let_def by blast
qed



text \<open>
  (C32) Lookups are exact: on an accepted view a key or a tensor name is found exactly when an entry
  carries it, and what is returned is that entry's.
\<close>

theorem gguf_lookup_exact:
  assumes "reads_file a file"
    and "yvex_gguf_open_ex True platform (Some a) options = (Inr (result, view), fault)"
  shows "(yvex_gguf_metadata_find (Some view) (Some key) = Some v \<longleftrightarrow>
      (\<exists>n. yvex_gguf_metadata_key (Some view) n = Some key \<and> yvex_gguf_metadata_value (Some view) n = Some v)) \<and>
    (yvex_gguf_tensor_find (Some view) (Some name) = Some t \<longleftrightarrow>
      (\<exists>n. yvex_gguf_tensor_at (Some view) n = Some t \<and> ti_name t = name))"
proof -
  obtain w cur where w: "accepted (open_environment platform a options) file w cur"
    and view: "view = w\<lparr>g_stats := (cur_stats cur)\<lparr>payload_bytes_read := 0\<rparr>\<rparr>"
    by (rule open_accepted [OF assms])
  have d: "described view" "length (g_metadata view) = unat (metadata_count (g_header view))"
      "length (g_tensors view) = unat (tensor_count (g_header view))"
    using w described_cong [of view w] by (auto simp: accepted_def view)
  have find: "name_index_find (tensor_index view) (map ti_name (g_tensors view)) name = Some i \<longleftrightarrow>
      i < length (g_tensors view) \<and> ti_name (g_tensors view ! i) = name" for i
    using accepted_directory(3) [OF w] by (simp add: view)
  have key: "yvex_gguf_metadata_find (Some view) (Some key) = Some v \<longleftrightarrow>
      (\<exists>i < length (g_metadata view). md_key (g_metadata view ! i) = key \<and> md_value (g_metadata view ! i) = v)"
    by (simp add: yvex_gguf_metadata_find_def map_option_eq_Some described_find [OF d(1)] conj_assoc)
  have tensor: "yvex_gguf_tensor_find (Some view) (Some name) = Some t \<longleftrightarrow>
      (\<exists>i < length (g_tensors view). g_tensors view ! i = t \<and> ti_name t = name)"
    by (simp add: yvex_gguf_tensor_find_def map_option_eq_Some find) auto
  show ?thesis
    unfolding key tensor d(2,3) ex_position
    by (auto simp: yvex_gguf_metadata_key_def yvex_gguf_metadata_value_def yvex_gguf_tensor_at_def split: if_splits)
qed

theorem gguf_lookup_exact_witness:
  "\<exists>result view fault.
     yvex_gguf_open_ex True sample_platform (Some (memory_artifact sample_file)) None = (Inr (result, view), fault) \<and>
     (yvex_gguf_metadata_find (Some view) (Some [119]) = Some (Gguf_bool True) \<longleftrightarrow>
       (\<exists>n. yvex_gguf_metadata_key (Some view) n = Some [119] \<and>
          yvex_gguf_metadata_value (Some view) n = Some (Gguf_bool True)))"
proof -
  obtain result view fault where run:
      "yvex_gguf_open_ex True sample_platform (Some (memory_artifact sample_file)) None = (Inr (result, view), fault)"
    using sample_opens by blast
  note found = gguf_lookup_exact [OF sample_reads run, THEN conjunct1, of "[119]" "Gguf_bool True"]
  show ?thesis by (intro exI conjI, rule run, rule found)
qed




end
