(* ===== verification/Artifact_Snapshot.thy ===== *)
theory Artifact_Snapshot
  imports Artifact_File
begin

text \<open>
  \<^verbatim>\<open>src/artifact/core.c\<close>, the life of an artifact: opening a path, the identity checks against the
  file system, the exclusive pin, cache advice and closing.  The answers of the operating system are
  arguments, and every operation returns the descriptors and mappings it opened and closed, in order,
  so that what is held can be counted.
\<close>

section \<open>The operating system\<close>

record file_stat =
  st_regular :: bool
  st_dev :: u64
  st_ino :: u64
  st_size :: int
  st_mtime :: "int \<times> int"
  st_ctime :: "int \<times> int"

text \<open>What the calls made while a path is opened answer; a string is the text of the error.\<close>

record open_answers =
  os_calloc :: bool
  os_open :: int
  os_open_error :: string
  os_flock_shared :: bool
  os_fstat :: "string + file_stat"
  os_mmap :: "string + unit"
  os_pread :: "u64 \<Rightarrow> nat \<Rightarrow> pread_result"

text \<open>What the calls of an identity check answer: the open file restated, then the path opened and stated.\<close>

record identity_answers =
  restat_open :: "file_stat option"
  reopen_path :: int
  restat_path :: "file_stat option"

datatype artifact_event = Fd_opened int | Fd_closed int | Mapping_made | Mapping_removed

record yvex_artifact_options =
  opt_path :: "string option"
  opt_readonly :: bool
  opt_map :: bool

definition YVEX_ARTIFACT_PATH_CAP :: nat where "YVEX_ARTIFACT_PATH_CAP = 4096"

section \<open>Operations\<close>

definition snapshot_from_stat :: "file_stat \<Rightarrow> yvex_artifact_snapshot" where
  "snapshot_from_stat st =
     \<lparr>snap_device = st_dev st, snap_inode = st_ino st, snap_size = of_int (st_size st),
      mtime_seconds = fst (st_mtime st), mtime_nanoseconds = snd (st_mtime st),
      ctime_seconds = fst (st_ctime st), ctime_nanoseconds = snd (st_ctime st)\<rparr>"

definition yvex_artifact_snapshot_equal ::
  "yvex_artifact_snapshot option \<Rightarrow> yvex_artifact_snapshot option \<Rightarrow> bool" where
  "yvex_artifact_snapshot_equal left right =
     (case (left, right) of
        (Some l, Some r) \<Rightarrow>
          snap_device l = snap_device r \<and> snap_inode l = snap_inode r \<and> snap_size l = snap_size r \<and>
          mtime_seconds l = mtime_seconds r \<and> mtime_nanoseconds l = mtime_nanoseconds r \<and>
          ctime_seconds l = ctime_seconds r \<and> ctime_nanoseconds l = ctime_nanoseconds r
      | _ \<Rightarrow> False)"

definition yvex_artifact_close :: "yvex_artifact option \<Rightarrow> artifact_event list" where
  "yvex_artifact_close artifact =
     (case artifact of None \<Rightarrow> []
      | Some a \<Rightarrow> (if art_mapping a = None then [] else [Mapping_removed]) @
          (if 0 \<le> art_fd a then [Fd_closed (art_fd a)] else []))"

text \<open>
  The tail of the opening function, from the allocated artifact on; a refusal after the descriptor is
  open closes the artifact.
\<close>

definition artifact_bind :: "open_answers \<Rightarrow> yvex_artifact_options \<Rightarrow> string \<Rightarrow> int \<Rightarrow>
    yvex_artifact outcome \<times> artifact_event list" where
  "artifact_bind os options path fd =
     (let artifact = \<lparr>art_path = path, art_size = 0, art_snapshot = snapshot_from_stat
            \<lparr>st_regular = False, st_dev = 0, st_ino = 0, st_size = 0, st_mtime = (0, 0), st_ctime = (0, 0)\<rparr>,
            art_fd = fd, art_mapping = None, art_pread = os_pread os\<rparr>;
          refuse = (\<lambda>a status reason. (Inl (refusal status ''yvex_artifact_open'' reason), yvex_artifact_close (Some a)))
      in if \<not> os_flock_shared os
         then refuse artifact YVEX_ERR_STATE ''artifact is pinned by an exclusive storage operation''
         else case os_fstat os of
           Inl reason \<Rightarrow> refuse artifact YVEX_ERR_IO (''failed to stat '' @ path @ '': '' @ reason)
         | Inr st \<Rightarrow>
             if \<not> st_regular st \<or> st_size st < 0
             then refuse artifact YVEX_ERR_FORMAT ''artifact path must name a regular file''
             else let bound = artifact\<lparr>art_size := of_int (st_size st), art_snapshot := snapshot_from_stat st\<rparr> in
               if opt_map options \<and> art_size bound > 0
               then if art_size bound > ULLONG_MAX
                    then refuse bound YVEX_ERR_BOUNDS ''artifact is too large for this address space mapping''
                    else case os_mmap os of
                      Inl reason \<Rightarrow> refuse bound YVEX_ERR_IO (''failed to map '' @ path @ '': '' @ reason)
                    | Inr _ \<Rightarrow> (Inr (bound\<lparr>art_mapping := Some (art_size bound)\<rparr>), [Mapping_made])
               else (Inr bound, []))"

definition yvex_artifact_open :: "bool \<Rightarrow> open_answers \<Rightarrow> yvex_artifact_options option \<Rightarrow>
    yvex_artifact outcome \<times> artifact_event list" where
  "yvex_artifact_open out os options =
     (let refuse = (\<lambda>status reason. (Inl (refusal status ''yvex_artifact_open'' reason), [])) in
      if \<not> out then refuse YVEX_ERR_INVALID_ARG ''out is required''
      else case options of
        None \<Rightarrow> refuse YVEX_ERR_INVALID_ARG ''options.path is required''
      | Some opt \<Rightarrow> (case opt_path opt of
          None \<Rightarrow> refuse YVEX_ERR_INVALID_ARG ''options.path is required''
        | Some path \<Rightarrow>
            if path = [] then refuse YVEX_ERR_INVALID_ARG ''options.path is required''
            else if \<not> os_calloc os then refuse YVEX_ERR_NOMEM ''failed to allocate artifact''
            else if YVEX_ARTIFACT_PATH_CAP \<le> length path
            then refuse YVEX_ERR_BOUNDS ''artifact path exceeds capacity''
            else if \<not> opt_readonly opt
            then refuse YVEX_ERR_UNSUPPORTED ''artifact opens require readonly mode''
            else if os_open os < 0
            then refuse YVEX_ERR_IO (''failed to open '' @ path @ '': '' @ os_open_error os)
            else case artifact_bind os opt path (os_open os) of
              (r, events) \<Rightarrow> (r, Fd_opened (os_open os) # events)))"

definition yvex_artifact_path :: "yvex_artifact option \<Rightarrow> string" where
  "yvex_artifact_path artifact = (case artifact of None \<Rightarrow> [] | Some a \<Rightarrow> art_path a)"

definition yvex_artifact_is_mapped :: "yvex_artifact option \<Rightarrow> bool" where
  "yvex_artifact_is_mapped artifact = (case artifact of None \<Rightarrow> False | Some a \<Rightarrow> art_mapping a \<noteq> None)"

definition yvex_artifact_snapshot_get :: "yvex_artifact option \<Rightarrow> bool \<Rightarrow> yvex_artifact_snapshot outcome" where
  "yvex_artifact_snapshot_get artifact out =
     (case artifact of
        Some a \<Rightarrow> if out then Inr (art_snapshot a)
          else Inl (refusal YVEX_ERR_INVALID_ARG ''yvex_artifact_snapshot_get'' ''artifact and output are required'')
      | None \<Rightarrow> Inl (refusal YVEX_ERR_INVALID_ARG ''yvex_artifact_snapshot_get'' ''artifact and output are required''))"

text \<open>
  The check that the open file and the path still have the identity recorded at opening; the second
  component is the value written through the optional output.
\<close>

definition yvex_artifact_snapshot_validate :: "yvex_artifact option \<Rightarrow> identity_answers \<Rightarrow>
    unit outcome \<times> yvex_artifact_snapshot option \<times> artifact_event list" where
  "yvex_artifact_snapshot_validate artifact os =
     (let refuse = (\<lambda>status reason. Inl (refusal status ''yvex_artifact_snapshot_validate'' reason)) in
      case artifact of
        None \<Rightarrow> (refuse YVEX_ERR_INVALID_ARG ''artifact is required'', None, [])
      | Some a \<Rightarrow> (case restat_open os of
          None \<Rightarrow> (refuse YVEX_ERR_IO ''artifact-identity-drift: opened file cannot be restated'', None, [])
        | Some open_st \<Rightarrow>
            if \<not> st_regular open_st
            then (refuse YVEX_ERR_IO ''artifact-identity-drift: opened file cannot be restated'', None, [])
            else let open_snapshot = snapshot_from_stat open_st in
              if \<not> yvex_artifact_snapshot_equal (Some (art_snapshot a)) (Some open_snapshot)
              then (refuse YVEX_ERR_FORMAT ''artifact-identity-drift: opened file changed after admission'',
                    Some open_snapshot, [])
              else if reopen_path os < 0
              then (refuse YVEX_ERR_FORMAT ''artifact-identity-drift: artifact path is unavailable or unsafe'',
                    Some open_snapshot, [])
              else
                (case restat_path os of
                   None \<Rightarrow> refuse YVEX_ERR_FORMAT ''artifact-identity-drift: artifact path is unavailable or unsafe''
                 | Some path_st \<Rightarrow>
                     if \<not> st_regular path_st
                     then refuse YVEX_ERR_FORMAT ''artifact-identity-drift: artifact path is unavailable or unsafe''
                     else if \<not> yvex_artifact_snapshot_equal (Some (art_snapshot a)) (Some (snapshot_from_stat path_st))
                     then refuse YVEX_ERR_FORMAT ''artifact-identity-drift: artifact path identity changed''
                     else Inr (),
                 Some open_snapshot, [Fd_opened (reopen_path os), Fd_closed (reopen_path os)])))"

definition yvex_artifact_pin_exclusive :: "yvex_artifact option \<Rightarrow> bool \<Rightarrow> identity_answers \<Rightarrow>
    unit outcome \<times> artifact_event list" where
  "yvex_artifact_pin_exclusive artifact locked os =
     (if artifact = None then (Inl (refusal YVEX_ERR_INVALID_ARG ''artifact.storage'' ''open artifact required''), [])
      else if \<not> locked
      then (Inl (refusal YVEX_ERR_STATE ''artifact.storage'' ''active artifact reader prevents eviction''), [])
      else case yvex_artifact_snapshot_validate artifact os of (r, _, events) \<Rightarrow> (r, events))"

datatype cache_advice = Advice_taken | Advice_unsupported | Advice_failed string

definition yvex_artifact_cache_release :: "yvex_artifact option \<Rightarrow> u64 \<Rightarrow> u64 \<Rightarrow> cache_advice \<Rightarrow> unit outcome" where
  "yvex_artifact_cache_release artifact offset byte_count advice =
     (let refuse = (\<lambda>status reason. Inl (refusal status ''artifact.cache-release'' reason)) in
      case artifact of
        None \<Rightarrow> refuse YVEX_ERR_INVALID_ARG ''an open artifact is required''
      | Some a \<Rightarrow>
          if art_fd a < 0 then refuse YVEX_ERR_INVALID_ARG ''an open artifact is required''
          else if offset > 0x7fffffffffffffff \<or> byte_count > 0x7fffffffffffffff \<or>
            isl (yvex_range_check (art_size a) offset byte_count)
          then refuse YVEX_ERR_BOUNDS ''cache-release range exceeds the artifact or platform offset contract''
          else case advice of
            Advice_unsupported \<Rightarrow> refuse YVEX_ERR_UNSUPPORTED ''range cache-release advice is unavailable on this platform''
          | Advice_failed reason \<Rightarrow> refuse YVEX_ERR_IO (''kernel cache release failed: '' @ reason)
          | Advice_taken \<Rightarrow> Inr ())"

section \<open>What is held\<close>

text \<open>The descriptors open and the mappings present after a run of events.\<close>

fun held_fds :: "int list \<Rightarrow> artifact_event list \<Rightarrow> int list" where
  "held_fds fds [] = fds"
| "held_fds fds (Fd_opened fd # events) = held_fds (fd # fds) events"
| "held_fds fds (Fd_closed fd # events) = held_fds (remove1 fd fds) events"
| "held_fds fds (_ # events) = held_fds fds events"

fun held_mappings :: "int \<Rightarrow> artifact_event list \<Rightarrow> int" where
  "held_mappings n [] = n"
| "held_mappings n (Mapping_made # events) = held_mappings (n + 1) events"
| "held_mappings n (Mapping_removed # events) = held_mappings (n - 1) events"
| "held_mappings n (_ # events) = held_mappings n events"

lemma snapshot_equal_iff [simp]: "yvex_artifact_snapshot_equal (Some l) (Some r) \<longleftrightarrow> l = r"
  by (auto simp: yvex_artifact_snapshot_equal_def)

definition same_identity :: "yvex_artifact \<Rightarrow> file_stat option \<Rightarrow> bool" where
  "same_identity a stated =
     (case stated of None \<Rightarrow> False | Some st \<Rightarrow> st_regular st \<and> snapshot_from_stat st = art_snapshot a)"

lemma snapshot_validate_iff:
  "fst (yvex_artifact_snapshot_validate (Some a) os) = Inr () \<longleftrightarrow>
     same_identity a (restat_open os) \<and> 0 \<le> reopen_path os \<and> same_identity a (restat_path os)"
  by (auto simp: yvex_artifact_snapshot_validate_def same_identity_def Let_def split: option.splits)

lemma snapshot_validate_balanced:
  "held_fds fds (snd (snd (yvex_artifact_snapshot_validate artifact os))) = fds \<and>
   held_mappings n (snd (snd (yvex_artifact_snapshot_validate artifact os))) = n"
  by (auto simp: yvex_artifact_snapshot_validate_def Let_def split: option.splits)

lemma artifact_bind_refused:
  "artifact_bind os options path fd = (Inl e, events) \<Longrightarrow> 0 \<le> fd \<Longrightarrow> events = [Fd_closed fd]"
  by (auto simp: artifact_bind_def yvex_artifact_close_def Let_def split: if_splits sum.splits)

lemma artifact_bind_done:
  assumes "artifact_bind os options path fd = (Inr a, events)"
  shows "art_fd a = fd \<and> art_path a = path \<and> events = (if art_mapping a = None then [] else [Mapping_made]) \<and>
    (\<exists>st. os_fstat os = Inr st \<and> same_identity a (Some st) \<and> 0 \<le> st_size st \<and> art_size a = of_int (st_size st))"
  using assms by (auto simp: artifact_bind_def same_identity_def Let_def split: if_splits sum.splits)

lemma artifact_open_forms:
  "(\<exists>e. yvex_artifact_open out os options = (Inl e, [])) \<or>
   (\<exists>opt path. 0 \<le> os_open os \<and> yvex_artifact_open out os options =
      (case artifact_bind os opt path (os_open os) of (r, events) \<Rightarrow> (r, Fd_opened (os_open os) # events)))"
  unfolding yvex_artifact_open_def Let_def
  by (cases options; cases "opt_path (the options)") (auto simp: not_less)

lemma artifact_open_cases:
  obtains (before) e where "yvex_artifact_open out os options = (Inl e, [])"
  | (refused) e where "yvex_artifact_open out os options = (Inl e, [Fd_opened (os_open os), Fd_closed (os_open os)])"
  | (opened) a opt path events where "0 \<le> os_open os" "artifact_bind os opt path (os_open os) = (Inr a, events)"
      "yvex_artifact_open out os options = (Inr a, Fd_opened (os_open os) # events)"
proof (cases "\<exists>e. yvex_artifact_open out os options = (Inl e, [])")
  case True
  then show thesis using before by blast
next
  case False
  then obtain opt path where fd: "0 \<le> os_open os" and run: "yvex_artifact_open out os options =
      (case artifact_bind os opt path (os_open os) of (r, events) \<Rightarrow> (r, Fd_opened (os_open os) # events))"
    using artifact_open_forms [of out os options] by blast
  obtain r events where bind: "artifact_bind os opt path (os_open os) = (r, events)" by fastforce
  show thesis
  proof (cases r)
    case (Inl e)
    then show thesis using bind artifact_bind_refused [OF _ fd] run by (intro refused [of e]) auto
  next
    case (Inr a)
    then show thesis using bind fd run by (intro opened) auto
  qed
qed

section \<open>Properties\<close>

text \<open>
  (C35) Descriptors and mappings are accounted for: opening a path holds nothing when it refuses and
  exactly the artifact's own descriptor and mapping when it succeeds, closing gives them back, and the
  identity check holds nothing when it returns; an opened artifact records the identity and size the
  file had.
\<close>

theorem artifact_descriptors_balanced:
  "(case yvex_artifact_open out os options of
      (Inl e, events) \<Rightarrow> held_fds fds events = fds \<and> held_mappings n events = n
    | (Inr a, events) \<Rightarrow>
        held_fds fds events = art_fd a # fds \<and> held_mappings n events = n + of_bool (yvex_artifact_is_mapped (Some a)) \<and>
        held_fds fds (events @ yvex_artifact_close (Some a)) = fds \<and>
        held_mappings n (events @ yvex_artifact_close (Some a)) = n \<and>
        (\<exists>st. os_fstat os = Inr st \<and> same_identity a (Some st) \<and> int (unat (art_size a)) = st_size st mod 2 ^ 64)) \<and>
   (case yvex_artifact_snapshot_validate artifact check of
      (_, _, events) \<Rightarrow> held_fds fds events = fds \<and> held_mappings n events = n)"
proof -
  have validate: "case yvex_artifact_snapshot_validate artifact check of
      (_, _, events) \<Rightarrow> held_fds fds events = fds \<and> held_mappings n events = n"
    using snapshot_validate_balanced [of fds artifact check n] by (simp add: case_prod_unfold)
  show ?thesis
  proof (cases rule: artifact_open_cases [of out os options])
    case before
    then show ?thesis using validate by simp
  next
    case refused
    then show ?thesis using validate by simp
  next
    case opened
    note bound = artifact_bind_done [OF opened(2)]
    have "int (unat (of_int z :: u64)) = z mod 2 ^ 64" for z :: int
      by (simp add: unsigned_of_int flip: uint_nat) (simp add: take_bit_eq_mod)
    then show ?thesis
      using validate opened(1,3) bound
      by (auto simp: yvex_artifact_is_mapped_def yvex_artifact_close_def)
  qed
qed

end
