(* ===== verification/Gguf_Layout.thy ===== *)
theory Gguf_Layout
  imports Gguf_Open Artifact_Snapshot
begin

unbundle bit_operations_syntax

text \<open>
  \<^verbatim>\<open>src/gguf/layout_integrity.c\<close>: admission of the canonical byte layout of a parsed GGUF file.  The
  directory is followed by zero padding up to the alignment, then every tensor in directory order, each
  followed by zero padding up to the alignment, and nothing else.  The functions follow the code: the
  result record is threaded through and carries the diagnostics of a refusal.
\<close>

section \<open>Data\<close>

datatype yvex_gguf_layout_code =
    YVEX_GGUF_LAYOUT_OK
  | YVEX_GGUF_LAYOUT_INVALID_ARGUMENT
  | YVEX_GGUF_LAYOUT_INVALID_ALIGNMENT_TYPE
  | YVEX_GGUF_LAYOUT_INVALID_ALIGNMENT_VALUE
  | YVEX_GGUF_LAYOUT_ALIGNMENT_NOT_POWER_OF_TWO
  | YVEX_GGUF_LAYOUT_ALIGNMENT_OVERFLOW
  | YVEX_GGUF_LAYOUT_STORAGE_REFUSED
  | YVEX_GGUF_LAYOUT_FIRST_OFFSET_NOT_ZERO
  | YVEX_GGUF_LAYOUT_OFFSET_REVERSED
  | YVEX_GGUF_LAYOUT_UNEXPECTED_GAP
  | YVEX_GGUF_LAYOUT_DUPLICATE_START
  | YVEX_GGUF_LAYOUT_COMPLETE_OVERLAP
  | YVEX_GGUF_LAYOUT_PARTIAL_OVERLAP
  | YVEX_GGUF_LAYOUT_PADDED_OVERLAP
  | YVEX_GGUF_LAYOUT_RAW_END_OVERFLOW
  | YVEX_GGUF_LAYOUT_PADDED_END_OVERFLOW
  | YVEX_GGUF_LAYOUT_AGGREGATE_OVERFLOW
  | YVEX_GGUF_LAYOUT_TENSOR_PAYLOAD_TRUNCATED
  | YVEX_GGUF_LAYOUT_PADDING_TRUNCATED
  | YVEX_GGUF_LAYOUT_DIRECTORY_PADDING_NONZERO
  | YVEX_GGUF_LAYOUT_TENSOR_PADDING_NONZERO
  | YVEX_GGUF_LAYOUT_NONCANONICAL_TAIL
  | YVEX_GGUF_LAYOUT_FILE_IDENTITY_DRIFT
  | YVEX_GGUF_LAYOUT_IO_FAILURE
  | YVEX_GGUF_LAYOUT_VIEW_FILE_MISMATCH
  | YVEX_GGUF_LAYOUT_TENSOR_INFO_MISSING
  | YVEX_GGUF_LAYOUT_TENSOR_RANGE_MISMATCH

fun yvex_gguf_layout_code_name :: "yvex_gguf_layout_code \<Rightarrow> string" where
  "yvex_gguf_layout_code_name YVEX_GGUF_LAYOUT_OK = ''ok''"
| "yvex_gguf_layout_code_name YVEX_GGUF_LAYOUT_INVALID_ARGUMENT = ''invalid-argument''"
| "yvex_gguf_layout_code_name YVEX_GGUF_LAYOUT_INVALID_ALIGNMENT_TYPE = ''invalid-alignment-type''"
| "yvex_gguf_layout_code_name YVEX_GGUF_LAYOUT_INVALID_ALIGNMENT_VALUE = ''invalid-alignment-value''"
| "yvex_gguf_layout_code_name YVEX_GGUF_LAYOUT_ALIGNMENT_NOT_POWER_OF_TWO = ''alignment-not-power-of-two''"
| "yvex_gguf_layout_code_name YVEX_GGUF_LAYOUT_ALIGNMENT_OVERFLOW = ''alignment-overflow''"
| "yvex_gguf_layout_code_name YVEX_GGUF_LAYOUT_STORAGE_REFUSED = ''tensor-storage-refused''"
| "yvex_gguf_layout_code_name YVEX_GGUF_LAYOUT_FIRST_OFFSET_NOT_ZERO = ''first-offset-not-zero''"
| "yvex_gguf_layout_code_name YVEX_GGUF_LAYOUT_OFFSET_REVERSED = ''tensor-offset-reversed''"
| "yvex_gguf_layout_code_name YVEX_GGUF_LAYOUT_UNEXPECTED_GAP = ''unexpected-layout-gap''"
| "yvex_gguf_layout_code_name YVEX_GGUF_LAYOUT_DUPLICATE_START = ''duplicate-tensor-start''"
| "yvex_gguf_layout_code_name YVEX_GGUF_LAYOUT_COMPLETE_OVERLAP = ''complete-tensor-overlap''"
| "yvex_gguf_layout_code_name YVEX_GGUF_LAYOUT_PARTIAL_OVERLAP = ''partial-tensor-overlap''"
| "yvex_gguf_layout_code_name YVEX_GGUF_LAYOUT_PADDED_OVERLAP = ''padded-tensor-overlap''"
| "yvex_gguf_layout_code_name YVEX_GGUF_LAYOUT_RAW_END_OVERFLOW = ''tensor-raw-end-overflow''"
| "yvex_gguf_layout_code_name YVEX_GGUF_LAYOUT_PADDED_END_OVERFLOW = ''tensor-padded-end-overflow''"
| "yvex_gguf_layout_code_name YVEX_GGUF_LAYOUT_AGGREGATE_OVERFLOW = ''layout-aggregate-overflow''"
| "yvex_gguf_layout_code_name YVEX_GGUF_LAYOUT_TENSOR_PAYLOAD_TRUNCATED = ''tensor-payload-truncated''"
| "yvex_gguf_layout_code_name YVEX_GGUF_LAYOUT_PADDING_TRUNCATED = ''layout-padding-truncated''"
| "yvex_gguf_layout_code_name YVEX_GGUF_LAYOUT_DIRECTORY_PADDING_NONZERO = ''directory-padding-nonzero''"
| "yvex_gguf_layout_code_name YVEX_GGUF_LAYOUT_TENSOR_PADDING_NONZERO = ''tensor-padding-nonzero''"
| "yvex_gguf_layout_code_name YVEX_GGUF_LAYOUT_NONCANONICAL_TAIL = ''noncanonical-trailing-bytes''"
| "yvex_gguf_layout_code_name YVEX_GGUF_LAYOUT_FILE_IDENTITY_DRIFT = ''file-identity-drift''"
| "yvex_gguf_layout_code_name YVEX_GGUF_LAYOUT_IO_FAILURE = ''layout-io-failure''"
| "yvex_gguf_layout_code_name YVEX_GGUF_LAYOUT_VIEW_FILE_MISMATCH = ''parsed-view-file-mismatch''"
| "yvex_gguf_layout_code_name YVEX_GGUF_LAYOUT_TENSOR_INFO_MISSING = ''tensor-info-missing''"
| "yvex_gguf_layout_code_name YVEX_GGUF_LAYOUT_TENSOR_RANGE_MISMATCH = ''tensor-range-mismatch''"

record yvex_gguf_layout_result =
  lr_code :: yvex_gguf_layout_code
  lr_accepted :: bool
  lr_reason :: string
  lr_alignment :: u32
  lr_tensor_count :: u64
  lr_tensors_validated :: u64
  lr_tensor_index :: u64
  lr_tensor_name :: "u8 list"
  lr_expected_relative_offset :: u64
  lr_declared_relative_offset :: u64
  lr_tensor_raw_size :: u64
  lr_tensor_padded_size :: u64
  lr_tensor_raw_end :: u64
  lr_tensor_padded_end :: u64
  lr_failure_absolute_offset :: u64
  lr_directory_end :: u64
  lr_directory_padding_bytes :: u64
  lr_tensor_data_offset :: u64
  lr_raw_tensor_bytes :: u64
  lr_inter_tensor_padding_bytes :: u64
  lr_final_tensor_padding_bytes :: u64
  lr_total_padding_bytes :: u64
  lr_data_section_span :: u64
  lr_required_file_end :: u64
  lr_actual_file_size :: u64
  lr_trailing_bytes :: u64
  lr_structural_bytes_read :: u64
  lr_padding_bytes_read :: u64
  lr_tensor_payload_bytes_read :: u64
  lr_padding_read_calls :: u64

record layout_cursor =
  lc_expected :: u64
  lc_previous_start :: u64
  lc_previous_raw_end :: u64

text \<open>A refused layout: the result as the code leaves it, and the error.\<close>

type_synonym 'a layout_outcome = "(yvex_gguf_layout_result \<times> yvex_error) + 'a"

definition YVEX_GGUF_LAYOUT_PADDING_CHUNK :: u64 where "YVEX_GGUF_LAYOUT_PADDING_CHUNK = 4096"

definition layout_result_init :: yvex_gguf_layout_result where
  "layout_result_init =
     \<lparr>lr_code = YVEX_GGUF_LAYOUT_INVALID_ARGUMENT, lr_accepted = False, lr_reason = ''layout not evaluated'',
      lr_alignment = 0, lr_tensor_count = 0, lr_tensors_validated = 0, lr_tensor_index = ULLONG_MAX,
      lr_tensor_name = [], lr_expected_relative_offset = 0, lr_declared_relative_offset = 0,
      lr_tensor_raw_size = 0, lr_tensor_padded_size = 0, lr_tensor_raw_end = 0, lr_tensor_padded_end = 0,
      lr_failure_absolute_offset = 0, lr_directory_end = 0, lr_directory_padding_bytes = 0,
      lr_tensor_data_offset = 0, lr_raw_tensor_bytes = 0, lr_inter_tensor_padding_bytes = 0,
      lr_final_tensor_padding_bytes = 0, lr_total_padding_bytes = 0, lr_data_section_span = 0,
      lr_required_file_end = 0, lr_actual_file_size = 0, lr_trailing_bytes = 0,
      lr_structural_bytes_read = 0, lr_padding_bytes_read = 0, lr_tensor_payload_bytes_read = 0,
      lr_padding_read_calls = 0\<rparr>"

section \<open>Arithmetic\<close>

text \<open>An output pointer is \<open>None\<close> when null and \<open>Some\<close> of its content otherwise.\<close>

definition yvex_gguf_layout_sum_checked :: "u64 \<Rightarrow> u64 \<Rightarrow> u64 option \<Rightarrow> yvex_gguf_layout_code \<times> u64 option" where
  "yvex_gguf_layout_sum_checked current addition out =
     (if out = None then (YVEX_GGUF_LAYOUT_INVALID_ARGUMENT, out)
      else if addition > ULLONG_MAX - current then (YVEX_GGUF_LAYOUT_AGGREGATE_OVERFLOW, out)
      else (YVEX_GGUF_LAYOUT_OK, Some (current + addition)))"

text \<open>The sum where the code only asks whether the call succeeded.\<close>

definition layout_sum :: "u64 \<Rightarrow> u64 \<Rightarrow> u64 option" where
  "layout_sum current addition =
     (case yvex_gguf_layout_sum_checked current addition (Some 0) of
        (YVEX_GGUF_LAYOUT_OK, r) \<Rightarrow> r | _ \<Rightarrow> None)"

definition align_up_power_of_two :: "u64 \<Rightarrow> u32 \<Rightarrow> u64 option" where
  "align_up_power_of_two v align =
     (if align = 0 \<or> align AND (align - 1) \<noteq> 0 then None
      else let m = ucast align - 1 in
        case layout_sum v m of None \<Rightarrow> None | Some s \<Rightarrow> Some (s AND NOT m))"

definition yvex_gguf_layout_interval_measure :: "u64 \<Rightarrow> u64 \<Rightarrow> u32 \<Rightarrow> u64 option \<Rightarrow> u64 option \<Rightarrow>
    yvex_gguf_layout_code \<times> u64 option \<times> u64 option" where
  "yvex_gguf_layout_interval_measure relative raw_size align raw_end padded_end =
     (if raw_end = None \<or> padded_end = None then (YVEX_GGUF_LAYOUT_INVALID_ARGUMENT, raw_end, padded_end)
      else if align = 0 then (YVEX_GGUF_LAYOUT_INVALID_ALIGNMENT_VALUE, raw_end, padded_end)
      else if align AND (align - 1) \<noteq> 0 then (YVEX_GGUF_LAYOUT_ALIGNMENT_NOT_POWER_OF_TWO, raw_end, padded_end)
      else if raw_size > ULLONG_MAX - relative then (YVEX_GGUF_LAYOUT_RAW_END_OVERFLOW, raw_end, padded_end)
      else case align_up_power_of_two (relative + raw_size) align of
        None \<Rightarrow> (YVEX_GGUF_LAYOUT_PADDED_END_OVERFLOW, Some (relative + raw_size), padded_end)
      | Some padded \<Rightarrow> (YVEX_GGUF_LAYOUT_OK, Some (relative + raw_size), Some padded))"

section \<open>Validation\<close>

definition layout_fail :: "yvex_gguf_layout_result \<Rightarrow> yvex_gguf_layout_code \<Rightarrow> string \<Rightarrow> 'a layout_outcome" where
  "layout_fail result code reason =
     Inl (result\<lparr>lr_accepted := False, lr_code := code, lr_reason := take 255 reason\<rparr>,
          refusal YVEX_ERR_FORMAT ''yvex_gguf_layout_validate'' (yvex_gguf_layout_code_name code @ '': '' @ reason))"

lemma padding_chunk:
  fixes dn len :: u64
  assumes "dn < len" and remaining: "remaining = len - dn"
    and wanted: "wanted = (if remaining > YVEX_GGUF_LAYOUT_PADDING_CHUNK then YVEX_GGUF_LAYOUT_PADDING_CHUNK else remaining)"
  shows "0 < unat wanted" "unat dn + unat wanted \<le> unat len" "unat (dn + wanted) = unat dn + unat wanted"
proof -
  have less: "unat dn < unat len" using assms(1) by (simp add: word_less_nat_alt)
  have rem: "unat remaining = unat len - unat dn" unfolding remaining by (rule unat_sub [OF less_imp_le [OF assms(1)]])
  have chunk: "unat YVEX_GGUF_LAYOUT_PADDING_CHUNK = 4096" by (simp add: YVEX_GGUF_LAYOUT_PADDING_CHUNK_def)
  show pos: "0 < unat wanted"
    unfolding wanted using rem less chunk by auto
  show le: "unat dn + unat wanted \<le> unat len"
    unfolding wanted using rem less chunk by (auto simp: word_less_nat_alt)
  show "unat (dn + wanted) = unat dn + unat wanted"
    by (rule unat_add_no_wrap) (rule le_less_trans [OF le unat_u64_less])
qed

text \<open>The loop of bounded reads over a padding interval; \<open>dn\<close> bytes have been checked.\<close>

function zero_padding_loop :: "yvex_artifact \<Rightarrow> u64 \<Rightarrow> u64 \<Rightarrow> yvex_gguf_layout_code \<Rightarrow> u64 \<Rightarrow>
    yvex_gguf_layout_result \<Rightarrow> yvex_gguf_layout_result layout_outcome" where
  "zero_padding_loop artifact offset len nonzero_code dn result =
     (if dn < len
      then let remaining = len - dn;
          wanted = (if remaining > YVEX_GGUF_LAYOUT_PADDING_CHUNK then YVEX_GGUF_LAYOUT_PADDING_CHUNK else remaining)
        in case yvex_artifact_read_at artifact (offset + dn) wanted of
          Inl _ \<Rightarrow> layout_fail (result\<lparr>lr_failure_absolute_offset := offset + dn\<rparr>) YVEX_GGUF_LAYOUT_IO_FAILURE
            ''required GGUF padding could not be read''
        | Inr bytes \<Rightarrow>
            let counted = result\<lparr>lr_padding_bytes_read := lr_padding_bytes_read result + wanted,
                  lr_padding_read_calls := lr_padding_read_calls result + 1\<rparr>;
                i = first_index (\<lambda>i. bytes ! i \<noteq> 0) (length bytes)
            in if i < length bytes
               then layout_fail (counted\<lparr>lr_failure_absolute_offset := offset + dn + of_nat i\<rparr>) nonzero_code
                 (if nonzero_code = YVEX_GGUF_LAYOUT_DIRECTORY_PADDING_NONZERO
                  then ''GGUF directory-to-data padding contains a nonzero byte''
                  else ''GGUF tensor padding contains a nonzero byte'')
               else zero_padding_loop artifact offset len nonzero_code (dn + wanted) counted
      else Inr result)"
  by pat_completeness auto
termination
proof (relation "measure (\<lambda>(_, _, len, _, dn, _). unat len - unat dn)")
  fix len dn wanted remaining :: u64
  assume "dn < len" "remaining = len - dn"
    "wanted = (if remaining > YVEX_GGUF_LAYOUT_PADDING_CHUNK then YVEX_GGUF_LAYOUT_PADDING_CHUNK else remaining)"
  then have "0 < unat wanted" "unat dn + unat wanted \<le> unat len" "unat (dn + wanted) = unat dn + unat wanted"
    by (rule padding_chunk)+
  then have "unat len - unat (dn + wanted) < unat len - unat dn" by simp
  then show "((a, b, len, c, dn + wanted, d), (a, b, len, c, dn, e)) \<in> measure (\<lambda>(_, _, len, _, dn, _). unat len - unat dn)"
    for a :: yvex_artifact and b :: u64 and c :: yvex_gguf_layout_code and d e :: yvex_gguf_layout_result
    by simp
qed simp

declare zero_padding_loop.simps [simp del]

definition read_zero_padding :: "yvex_artifact \<Rightarrow> u64 \<Rightarrow> u64 \<Rightarrow> yvex_gguf_layout_code \<Rightarrow>
    yvex_gguf_layout_result \<Rightarrow> yvex_gguf_layout_result layout_outcome" where
  "read_zero_padding artifact offset len nonzero_code result =
     zero_padding_loop artifact offset len nonzero_code 0 result"

text \<open>
  One tensor: its storage and interval, its place after the previous tensor, its absolute range, and
  its padding.
\<close>

definition layout_measure_tensor :: "yvex_gguf_tensor_info \<Rightarrow> yvex_gguf_layout_result \<Rightarrow>
    (u64 \<times> u64 \<times> yvex_gguf_layout_result) layout_outcome" where
  "layout_measure_tensor tensor out =
     (case yvex_gguf_qtype_tensor_storage (ggml_type tensor) (Some (ti_dims tensor)) (ti_rank tensor) of (status, storage) \<Rightarrow>
        if status \<noteq> YVEX_GGUF_QTYPE_STORAGE_OK
        then layout_fail out YVEX_GGUF_LAYOUT_STORAGE_REFUSED (sr_reason storage)
        else let sized = out\<lparr>lr_tensor_raw_size := sr_total_bytes storage\<rparr> in
          if storage_bytes tensor \<noteq> sr_total_bytes storage
          then layout_fail sized YVEX_GGUF_LAYOUT_STORAGE_REFUSED
            ''parsed tensor storage differs from canonical qtype geometry''
          else case yvex_gguf_layout_interval_measure (relative_offset tensor) (sr_total_bytes storage)
              (lr_alignment out) (Some 0) (Some 0) of
            (YVEX_GGUF_LAYOUT_OK, Some raw_end, Some padded_end) \<Rightarrow>
              Inr (raw_end, padded_end, sized\<lparr>lr_tensor_raw_end := raw_end, lr_tensor_padded_end := padded_end,
                lr_tensor_padded_size := padded_end - relative_offset tensor\<rparr>)
          | (code, _, _) \<Rightarrow> layout_fail sized code
              (if code = YVEX_GGUF_LAYOUT_RAW_END_OVERFLOW then ''tensor relative raw end overflows''
               else ''tensor padded end overflows''))"

definition layout_place_tensor :: "u64 \<Rightarrow> layout_cursor \<Rightarrow> u64 \<Rightarrow> u64 \<Rightarrow> yvex_gguf_layout_result \<Rightarrow> unit layout_outcome" where
  "layout_place_tensor index cursor relative raw_end out =
     (if index = 0 \<and> relative \<noteq> 0
      then layout_fail out YVEX_GGUF_LAYOUT_FIRST_OFFSET_NOT_ZERO ''the first tensor must begin at relative offset zero''
      else if index > 0 \<and> relative \<noteq> lc_expected cursor
      then if relative > lc_expected cursor
           then layout_fail out YVEX_GGUF_LAYOUT_UNEXPECTED_GAP
             ''tensor offset leaves a gap after the previous padded interval''
           else if relative = lc_previous_start cursor
           then layout_fail out YVEX_GGUF_LAYOUT_DUPLICATE_START ''two directory entries declare the same tensor start''
           else if relative < lc_previous_start cursor
           then layout_fail out YVEX_GGUF_LAYOUT_OFFSET_REVERSED ''tensor offset reverses directory order''
           else if relative < lc_previous_raw_end cursor
           then layout_fail out
             (if raw_end \<le> lc_previous_raw_end cursor then YVEX_GGUF_LAYOUT_COMPLETE_OVERLAP
              else YVEX_GGUF_LAYOUT_PARTIAL_OVERLAP)
             (if raw_end \<le> lc_previous_raw_end cursor
              then ''tensor interval is contained in the previous tensor payload''
              else ''tensor interval partially overlaps the previous tensor payload'')
           else layout_fail out YVEX_GGUF_LAYOUT_PADDED_OVERLAP ''tensor starts inside required padding''
      else Inr ())"

definition layout_bound_tensor :: "u64 \<Rightarrow> yvex_gguf_tensor_info \<Rightarrow> u64 \<Rightarrow> u64 \<Rightarrow> yvex_gguf_layout_result \<Rightarrow>
    yvex_gguf_layout_result layout_outcome" where
  "layout_bound_tensor index tensor raw_end padded_end out =
     (let overflow = layout_fail out YVEX_GGUF_LAYOUT_AGGREGATE_OVERFLOW ''absolute tensor layout arithmetic overflows'' in
      case layout_sum (lr_tensor_data_offset out) (relative_offset tensor) of None \<Rightarrow> overflow
      | Some raw_absolute \<Rightarrow>
      (case layout_sum raw_absolute (lr_tensor_raw_size out) of None \<Rightarrow> overflow
      | Some raw_absolute_end \<Rightarrow>
      (case layout_sum (lr_tensor_data_offset out) padded_end of None \<Rightarrow> overflow
      | Some padded_absolute \<Rightarrow>
        if absolute_offset tensor \<noteq> raw_absolute \<or> absolute_end_offset tensor \<noteq> raw_absolute_end
        then layout_fail out YVEX_GGUF_LAYOUT_TENSOR_RANGE_MISMATCH
          ''parsed tensor absolute range differs from canonical layout''
        else if absolute_end_offset tensor > lr_actual_file_size out
        then layout_fail (out\<lparr>lr_failure_absolute_offset := absolute_end_offset tensor\<rparr>)
          YVEX_GGUF_LAYOUT_TENSOR_PAYLOAD_TRUNCATED ''tensor payload interval exceeds the opened file''
        else if padded_absolute > lr_actual_file_size out
        then layout_fail (out\<lparr>lr_failure_absolute_offset := absolute_end_offset tensor\<rparr>)
          YVEX_GGUF_LAYOUT_PADDING_TRUNCATED ''required tensor padding exceeds the opened file''
        else case layout_sum (lr_raw_tensor_bytes out) (lr_tensor_raw_size out) of
          None \<Rightarrow> layout_fail out YVEX_GGUF_LAYOUT_AGGREGATE_OVERFLOW ''aggregate raw tensor bytes overflow''
        | Some raw \<Rightarrow>
            let summed = out\<lparr>lr_raw_tensor_bytes := raw\<rparr>; padding = padded_end - raw_end in
            if index + 1 < lr_tensor_count out
            then case layout_sum (lr_inter_tensor_padding_bytes out) padding of
                None \<Rightarrow> layout_fail summed YVEX_GGUF_LAYOUT_AGGREGATE_OVERFLOW ''aggregate inter-tensor padding overflows''
              | Some gaps \<Rightarrow> Inr (summed\<lparr>lr_inter_tensor_padding_bytes := gaps\<rparr>)
            else Inr (summed\<lparr>lr_final_tensor_padding_bytes := padding\<rparr>))))"

definition layout_validate_tensor :: "yvex_artifact \<Rightarrow> yvex_gguf \<Rightarrow> u64 \<Rightarrow> layout_cursor \<Rightarrow> yvex_gguf_layout_result \<Rightarrow>
    (layout_cursor \<times> yvex_gguf_layout_result) layout_outcome" where
  "layout_validate_tensor artifact gguf index cursor out0 =
     (let out = out0\<lparr>lr_tensor_index := index\<rparr> in
      case yvex_gguf_tensor_at (Some gguf) index of
        None \<Rightarrow> layout_fail out YVEX_GGUF_LAYOUT_TENSOR_INFO_MISSING ''parsed tensor directory row is unavailable''
      | Some tensor \<Rightarrow>
          let named = out\<lparr>lr_tensor_name := take 127 (takeWhile (\<lambda>b. b \<noteq> 0) (ti_name tensor)),
                lr_expected_relative_offset := lc_expected cursor, lr_declared_relative_offset := relative_offset tensor\<rparr> in
          proceed (layout_measure_tensor tensor named) (\<lambda>(raw_end, padded_end, measured).
          proceed (layout_place_tensor index cursor (relative_offset tensor) raw_end measured) (\<lambda>_.
          proceed (layout_bound_tensor index tensor raw_end padded_end measured) (\<lambda>bounded.
          proceed (read_zero_padding artifact (absolute_end_offset tensor) (padded_end - raw_end)
            YVEX_GGUF_LAYOUT_TENSOR_PADDING_NONZERO bounded) (\<lambda>padded.
          Inr (\<lparr>lc_expected = padded_end, lc_previous_start = relative_offset tensor, lc_previous_raw_end = raw_end\<rparr>,
               padded\<lparr>lr_tensors_validated := lr_tensors_validated padded + 1\<rparr>))))))"

primrec layout_tensor_loop :: "nat \<Rightarrow> yvex_artifact \<Rightarrow> yvex_gguf \<Rightarrow> u64 \<Rightarrow> layout_cursor \<Rightarrow> yvex_gguf_layout_result \<Rightarrow>
    (layout_cursor \<times> yvex_gguf_layout_result) layout_outcome" where
  "layout_tensor_loop 0 artifact gguf index cursor out = Inr (cursor, out)"
| "layout_tensor_loop (Suc n) artifact gguf index cursor out =
     proceed (layout_validate_tensor artifact gguf index cursor out)
       (\<lambda>(cursor', out'). layout_tensor_loop n artifact gguf (index + 1) cursor' out')"

text \<open>The checks before the tensors: the view describes this file, the alignment, the directory padding.\<close>

definition layout_admit_alignment :: "yvex_gguf \<Rightarrow> yvex_gguf_layout_result \<Rightarrow> unit layout_outcome" where
  "layout_admit_alignment gguf out =
     (let stored = yvex_gguf_metadata_find (Some gguf) (Some general_alignment) in
      if stored \<noteq> None \<and> (yvex_gguf_value_type_of stored \<noteq> YVEX_GGUF_VALUE_UINT32 \<or> yvex_gguf_value_as_u64 stored = None)
      then layout_fail out YVEX_GGUF_LAYOUT_INVALID_ALIGNMENT_TYPE ''general.alignment must have GGUF uint32 type''
      else if stored \<noteq> None \<and> yvex_gguf_value_as_u64 stored \<noteq> Some (ucast (lr_alignment out))
      then layout_fail out YVEX_GGUF_LAYOUT_VIEW_FILE_MISMATCH ''parsed alignment differs from metadata''
      else if lr_alignment out = 0
      then layout_fail out YVEX_GGUF_LAYOUT_INVALID_ALIGNMENT_VALUE ''general.alignment must be nonzero''
      else if lr_alignment out AND (lr_alignment out - 1) \<noteq> 0
      then layout_fail out YVEX_GGUF_LAYOUT_ALIGNMENT_NOT_POWER_OF_TWO ''general.alignment must be a power of two''
      else Inr ())"

definition layout_admit_directory :: "yvex_artifact \<Rightarrow> yvex_gguf \<Rightarrow> yvex_gguf_layout_result \<Rightarrow>
    yvex_gguf_layout_result layout_outcome" where
  "layout_admit_directory artifact gguf out =
     (case align_up_power_of_two (lr_directory_end out) (lr_alignment out) of
        None \<Rightarrow> layout_fail out YVEX_GGUF_LAYOUT_ALIGNMENT_OVERFLOW ''directory-to-data alignment overflows''
      | Some data \<Rightarrow>
          let aligned = out\<lparr>lr_tensor_data_offset := data\<rparr> in
          if data \<noteq> yvex_gguf_tensor_data_offset (Some gguf)
          then layout_fail aligned YVEX_GGUF_LAYOUT_VIEW_FILE_MISMATCH
            ''parsed tensor-data offset is not the canonical aligned directory end''
          else
            let padded = aligned\<lparr>lr_directory_padding_bytes := data - lr_directory_end out\<rparr> in
            if data > lr_actual_file_size out
            then layout_fail (padded\<lparr>lr_failure_absolute_offset := lr_directory_end out\<rparr>)
              YVEX_GGUF_LAYOUT_PADDING_TRUNCATED ''directory-to-data padding is truncated''
            else read_zero_padding artifact (lr_directory_end out) (lr_directory_padding_bytes padded)
              YVEX_GGUF_LAYOUT_DIRECTORY_PADDING_NONZERO padded)"

text \<open>The checks after the tensors: the totals, and that the file ends with the last padded tensor.\<close>

definition layout_close_span :: "layout_cursor \<Rightarrow> yvex_gguf_layout_result \<Rightarrow> yvex_gguf_layout_result layout_outcome" where
  "layout_close_span cursor out0 =
     (let out = out0\<lparr>lr_data_section_span := lc_expected cursor\<rparr>;
          overflow = (\<lambda>o'. layout_fail o' YVEX_GGUF_LAYOUT_AGGREGATE_OVERFLOW ''aggregate GGUF layout span overflows'') in
      case layout_sum (lr_directory_padding_bytes out) (lr_inter_tensor_padding_bytes out) of None \<Rightarrow> overflow out
      | Some part \<Rightarrow>
      (case layout_sum part (lr_final_tensor_padding_bytes out) of
         None \<Rightarrow> overflow (out\<lparr>lr_total_padding_bytes := part\<rparr>)
      | Some padding \<Rightarrow>
      let totalled = out\<lparr>lr_total_padding_bytes := padding\<rparr> in
      (case layout_sum (lr_tensor_data_offset out) (lr_data_section_span out) of None \<Rightarrow> overflow totalled
      | Some ends \<Rightarrow>
        let spanned = totalled\<lparr>lr_required_file_end := ends\<rparr> in
        if ends > lr_actual_file_size out
        then layout_fail spanned YVEX_GGUF_LAYOUT_PADDING_TRUNCATED ''GGUF file ends before the required padded data span''
        else let tailed = spanned\<lparr>lr_trailing_bytes := lr_actual_file_size out - ends\<rparr> in
          if lr_trailing_bytes tailed \<noteq> 0
          then layout_fail (tailed\<lparr>lr_failure_absolute_offset := ends\<rparr>) YVEX_GGUF_LAYOUT_NONCANONICAL_TAIL
            ''bytes after the canonical padded data span are not admitted''
          else Inr tailed)))"

definition layout_snapshot_check :: "yvex_artifact \<Rightarrow> identity_answers \<Rightarrow> string \<Rightarrow> yvex_gguf_layout_result \<Rightarrow>
    unit layout_outcome" where
  "layout_snapshot_check artifact os reason out =
     (case fst (yvex_artifact_snapshot_validate (Some artifact) os) of
        Inl _ \<Rightarrow> layout_fail out YVEX_GGUF_LAYOUT_FILE_IDENTITY_DRIFT reason
      | Inr _ \<Rightarrow> Inr ())"

text \<open>
  The whole validation, with the answers to the two identity checks; when the caller gives no output
  record none is written, and the one paired with that error is only a placeholder.
\<close>

definition yvex_gguf_layout_validate :: "bool \<Rightarrow> yvex_artifact option \<Rightarrow> yvex_gguf option \<Rightarrow> identity_answers \<Rightarrow> identity_answers \<Rightarrow>
    yvex_gguf_layout_result layout_outcome" where
  "yvex_gguf_layout_validate present artifact gguf before after =
     (if \<not> present
      then Inl (layout_result_init, refusal YVEX_ERR_INVALID_ARG ''yvex_gguf_layout_validate'' ''layout output is required'')
      else case (artifact, gguf) of
        (Some a, Some g) \<Rightarrow>
          (let out = layout_result_init\<lparr>lr_alignment := yvex_gguf_alignment (Some g),
                 lr_tensor_count := yvex_gguf_tensor_count (Some g),
                 lr_tensor_data_offset := yvex_gguf_tensor_data_offset (Some g),
                 lr_actual_file_size := yvex_artifact_size (Some a)\<rparr>;
               stats = g_stats g in
           if file_size stats \<noteq> lr_actual_file_size out
           then layout_fail out YVEX_GGUF_LAYOUT_VIEW_FILE_MISMATCH
             ''parsed GGUF view does not describe the opened artifact size''
           else
             let begun = out\<lparr>lr_structural_bytes_read := structural_bytes_read stats,
                   lr_directory_end := directory_end_offset stats, lr_tensor_payload_bytes_read := 0\<rparr> in
             proceed (layout_snapshot_check a before ''artifact identity changed before layout validation'' begun) (\<lambda>_.
             proceed (layout_admit_alignment g begun) (\<lambda>_.
             proceed (layout_admit_directory a g begun) (\<lambda>admitted.
             proceed (layout_tensor_loop (unat (lr_tensor_count admitted)) a g 0
               \<lparr>lc_expected = 0, lc_previous_start = 0, lc_previous_raw_end = 0\<rparr> admitted) (\<lambda>(cursor, validated).
             proceed (layout_close_span cursor validated) (\<lambda>spanned.
             proceed (layout_snapshot_check a after ''artifact identity changed during layout validation'' spanned) (\<lambda>_.
             Inr (spanned\<lparr>lr_tensor_index := ULLONG_MAX, lr_tensor_name := [], lr_code := YVEX_GGUF_LAYOUT_OK,
               lr_accepted := True,
               lr_reason := ''canonical GGUF directory order, padded spans, and zero padding accepted''\<rparr>))))))))
      | _ \<Rightarrow> layout_fail layout_result_init YVEX_GGUF_LAYOUT_INVALID_ARGUMENT
          ''artifact and parsed GGUF view are required'')"

end
