(* ===== verification/Gguf_Tiling.thy ===== *)
theory Gguf_Tiling
  imports Gguf_Layout
begin

unbundle bit_operations_syntax

text \<open>
  What the layout validation of \<open>Gguf_Layout\<close> decides: an accepted file is tiled exactly by its
  directory, the zero padding after it, and its tensors with their zero padding; and such a file is
  accepted.
\<close>

section \<open>Alignment to a power of two\<close>

lemma layout_sum_eq: "layout_sum a b = checked_add a b"
  by (simp add: layout_sum_def yvex_gguf_layout_sum_checked_def checked_add_eq word_nat_simps add.commute)

lemma and_pred_power: "0 < n \<Longrightarrow> n AND (n - 1) = 0 \<Longrightarrow> \<exists>k. n = 2 ^ k" for n :: nat
proof (induction n rule: less_induct)
  case (less n)
  show ?case
  proof (cases "even n")
    case True
    then obtain m where n: "n = 2 * m" by blast
    then have m: "0 < m" "m < n" using less.prems(1) by simp_all
    have "n - 1 = Suc (2 * (m - 1))" using n m by simp
    then have "n AND (n - 1) = 2 * (m AND (m - 1))"
      unfolding n by (subst and_rec) (simp add: n)
    then have "m AND (m - 1) = 0" using less.prems(2) by simp
    then obtain k where "m = 2 ^ k" using less.IH m by blast
    then show ?thesis using n by (intro exI [of _ "Suc k"]) simp
  next
    case False
    then obtain m where n: "n = 2 * m + 1" by (rule oddE)
    then have "n AND (n - 1) = 2 * m" by (subst and_rec) simp
    then show ?thesis using n less.prems(2) by (intro exI [of _ 0]) simp
  qed
qed

lemma align_power:
  assumes "(align :: u32) \<noteq> 0" "align AND (align - 1) = 0"
  obtains k where "k < 32" "unat align = 2 ^ k"
proof -
  have "unat (align AND (align - 1)) = unat align AND (unat align - 1)"
    using assms(1) by (simp add: unsigned_and_eq unat_minus_one)
  then obtain k where k: "unat align = 2 ^ k" using and_pred_power [of "unat align"] assms by (auto simp: unat_gt_0)
  have "(2 :: nat) ^ k < 2 ^ 32" using unsigned_less [of align, where ?'a = nat] k by simp
  then have "k < 32" by (rule power_less_imp_less_exp [rotated]) simp
  then show thesis using that k by blast
qed

lemma power_align: "unat (align :: u32) = 2 ^ k \<Longrightarrow> align \<noteq> 0 \<and> align AND (align - 1) = 0"
proof -
  assume k: "unat align = 2 ^ k"
  then have ne: "align \<noteq> 0" by (auto simp: word_unat_eq_iff)
  have "(2 ^ k :: nat) AND mask k = 0" by (simp flip: take_bit_eq_mask)
  then have "(2 ^ k :: nat) AND (2 ^ k - 1) = 0" by (simp only: mask_eq_exp_minus_1)
  then have "unat (align AND (align - 1)) = 0" using ne k by (simp add: unsigned_and_eq unat_minus_one)
  then show ?thesis using ne by (simp add: unat_eq_0)
qed

lemma word_of_unat: "unat (w :: u64) = n \<Longrightarrow> w = of_nat n"
  by auto

lemma and_not_low: "k < 64 \<Longrightarrow> unat (m :: u64) = 2 ^ k - 1 \<Longrightarrow> unat (s AND NOT m) = unat s div 2 ^ k * 2 ^ k"
proof -
  assume k: "k < 64" and m: "unat m = 2 ^ k - 1"
  have "m = of_nat (2 ^ k - 1)" by (rule word_of_unat [OF m])
  then have "m = mask k" by (simp add: mask_eq_exp_minus_1)
  then have s: "s AND NOT m = push_bit k (drop_bit k s)" by (intro bit_word_eqI) (auto simp: bit_simps)
  have "unat s div 2 ^ k * 2 ^ k < 2 ^ 64"
    using div_times_less_eq_dividend [of "unat s" "2 ^ k"] unat_u64_less [of s] by (rule le_less_trans)
  moreover have "unat (push_bit k (drop_bit k s)) = take_bit 64 (push_bit k (drop_bit k (unat s)))"
    using unat_u64_less [of s] by (simp add: unsigned_push_bit_eq unsigned_drop_bit_eq take_bit_nat_eq_self)
  ultimately show ?thesis
    unfolding s by (simp add: push_bit_eq_mult drop_bit_eq_div take_bit_nat_eq_self)
qed

lemma align_up_div: "0 < a \<Longrightarrow> align_up n a = (n + (a - 1)) div a * a"
proof -
  assume a: "0 < a"
  obtain c where c: "align_up n a = a * c" using align_up(1) [OF a] by blast
  have "(n + (a - 1)) div a = c"
    using align_up(2,3) [OF a, of n] a unfolding c by (intro div_nat_eqI) simp_all
  then show ?thesis using c by simp
qed

lemma align_up_power_of_two_eq:
  assumes k: "k < 32" "unat align = 2 ^ k"
  shows "align_up_power_of_two v align =
    (if unat v + (unat align - 1) < 2 ^ 64 then Some (of_nat (align_up (unat v) (unat align))) else None)"
proof -
  have ok: "align \<noteq> 0" "align AND (align - 1) = 0" using power_align [OF k(2)] by simp_all
  let ?m = "ucast align - 1 :: u64"
  have m: "unat ?m = 2 ^ k - 1" using ok(1) k(2) unat_ucast_u32 [of align] by (subst unat_minus_one) (auto simp: word_unat_eq_iff)
  have run: "align_up_power_of_two v align = (case checked_add v ?m of None \<Rightarrow> None | Some s \<Rightarrow> Some (s AND NOT ?m))"
    using ok by (simp add: align_up_power_of_two_def layout_sum_eq Let_def)
  show ?thesis
  proof (cases "unat v + unat ?m < 2 ^ 64")
    case True
    have "unat ((v + ?m) AND NOT ?m) = (unat v + (2 ^ k - 1)) div 2 ^ k * 2 ^ k"
      using and_not_low [OF _ m, of "v + ?m"] k(1) unat_add_no_wrap [OF True] m by simp
    then have "unat ((v + ?m) AND NOT ?m) = align_up (unat v) (unat align)" using align_up_div [of "2 ^ k"] k(2) by simp
    then have "(v + ?m) AND NOT ?m = of_nat (align_up (unat v) (unat align))" by (rule word_of_unat)
    then show ?thesis using True m k(2) by (simp add: run checked_add_eq)
  next
    case False
    then show ?thesis using m k(2) by (simp add: run checked_add_eq)
  qed
qed

lemma align_up_power_of_two_Some:
  assumes "align_up_power_of_two v align = Some r" "align \<noteq> 0" "align AND (align - 1) = 0"
  shows "unat r = align_up (unat v) (unat align)"
proof -
  obtain k where k: "k < 32" "unat align = 2 ^ k" using align_power assms(2,3) by blast
  then have r: "unat v + (unat align - 1) < 2 ^ 64" "r = of_nat (align_up (unat v) (unat align))"
    using assms(1) by (auto simp: align_up_power_of_two_eq split: if_splits)
  have "align_up (unat v) (unat align) < 2 ^ 64" using align_up(3) [of "unat align" "unat v"] r(1) k(2) by simp
  then show ?thesis using r(2) by (simp add: unat_eq_of_nat_u64)
qed

section \<open>Zero padding\<close>

definition zeros :: "u8 list \<Rightarrow> nat \<Rightarrow> nat \<Rightarrow> bool" where
  "zeros file offset len \<longleftrightarrow> offset + len \<le> length file \<and> take len (drop offset file) = replicate len 0"

lemma zeros_none: "zeros file offset 0 \<longleftrightarrow> offset \<le> length file"
  by (simp add: zeros_def)

lemma zeros_nth: "zeros file offset len \<longleftrightarrow> offset + len \<le> length file \<and> (\<forall>i < len. file ! (offset + i) = 0)"
  by (auto simp: zeros_def list_eq_iff_nth_eq)

lemma zeros_append: "zeros file offset (m + n) \<longleftrightarrow> zeros file offset m \<and> zeros file (offset + m) n"
proof -
  have "(\<forall>i < m + n. P i) \<longleftrightarrow> (\<forall>i < m. P i) \<and> (\<forall>i < n. P (m + i))" for P :: "nat \<Rightarrow> bool"
    by (metis add_diff_inverse_nat nat_add_left_cancel_less trans_less_add1)
  then show ?thesis by (auto simp: zeros_nth add.assoc)
qed

lemma first_nonzero_iff:
  "first_index (\<lambda>i. bytes ! i \<noteq> 0) (length bytes) < length bytes \<longleftrightarrow> bytes \<noteq> replicate (length bytes) (0 :: u8)"
proof -
  let ?i = "first_index (\<lambda>i. bytes ! i \<noteq> 0) (length bytes)"
  have "?i = length bytes \<longleftrightarrow> bytes = replicate (length bytes) 0"
    unfolding first_index_none_iff by (auto simp: list_eq_iff_nth_eq)
  then show ?thesis using first_index_le [of "\<lambda>i. bytes ! i \<noteq> 0" "length bytes"] by linarith
qed

text \<open>The counters a padding pass advances; nothing else of the result changes.\<close>

definition counted :: "u64 \<Rightarrow> yvex_gguf_layout_result \<Rightarrow> yvex_gguf_layout_result \<Rightarrow> bool" where
  "counted n r r' \<longleftrightarrow> (\<exists>calls. r' = r\<lparr>lr_padding_bytes_read := lr_padding_bytes_read r + n, lr_padding_read_calls := calls\<rparr>)"

lemma counted_step:
  "counted n (r\<lparr>lr_padding_bytes_read := lr_padding_bytes_read r + w, lr_padding_read_calls := c\<rparr>) r' \<Longrightarrow> counted (w + n) r r'"
  by (auto simp: counted_def add.assoc)

lemma counted_refl: "counted 0 r r"
  by (auto simp: counted_def intro: exI [of _ "lr_padding_read_calls r"])

text \<open>One round of the loop.\<close>

lemma zero_padding_step:
  assumes "dn < len"
    and w: "w = (if len - dn > YVEX_GGUF_LAYOUT_PADDING_CHUNK then YVEX_GGUF_LAYOUT_PADDING_CHUNK else len - dn)"
  shows "zero_padding_loop a offset len code dn r = Inr r' \<longleftrightarrow>
    (\<exists>bytes. yvex_artifact_read_at a (offset + dn) w = Inr bytes \<and> bytes = replicate (length bytes) 0 \<and>
       zero_padding_loop a offset len code (dn + w)
         (r\<lparr>lr_padding_bytes_read := lr_padding_bytes_read r + w, lr_padding_read_calls := lr_padding_read_calls r + 1\<rparr>) = Inr r')"
proof (cases "yvex_artifact_read_at a (offset + dn) w")
  case (Inl e)
  then show ?thesis
    using assms(1) by (subst zero_padding_loop.simps) (simp add: Let_def layout_fail_def flip: w)
next
  case (Inr bytes)
  then show ?thesis
    using assms(1) first_nonzero_iff [of bytes]
    by (subst zero_padding_loop.simps) (auto simp: Let_def layout_fail_def simp flip: w)
qed

lemma zero_padding_sound:
  "zero_padding_loop a offset len code dn r = Inr r' \<Longrightarrow> reads_file a file \<Longrightarrow> dn \<le> len \<Longrightarrow>
     unat offset + unat len \<le> length file \<Longrightarrow>
     zeros file (unat offset + unat dn) (unat len - unat dn) \<and> counted (len - dn) r r'"
proof (induction "unat len - unat dn" arbitrary: dn r rule: less_induct)
  case less
  show ?case
  proof (cases "dn < len")
    case False
    then have "dn = len" using less.prems(3) by simp
    then show ?thesis using less.prems by (simp add: zero_padding_loop.simps [of a] zeros_none counted_refl)
  next
    case True
    define w where "w = (if len - dn > YVEX_GGUF_LAYOUT_PADDING_CHUNK then YVEX_GGUF_LAYOUT_PADDING_CHUNK else len - dn)"
    note chunk = padding_chunk [OF True refl w_def]
    obtain bytes where read: "yvex_artifact_read_at a (offset + dn) w = Inr bytes" "bytes = replicate (length bytes) 0"
      and run: "zero_padding_loop a offset len code (dn + w) (r\<lparr>lr_padding_bytes_read := lr_padding_bytes_read r + w,
        lr_padding_read_calls := lr_padding_read_calls r + 1\<rparr>) = Inr r'"
      using less.prems(1) unfolding zero_padding_step [OF True w_def] by blast
    have "length file < 2 ^ 64" using less.prems(2) unat_u64_less [of "art_size a"] by (simp add: reads_file_def)
    then have off: "unat (offset + dn) = unat offset + unat dn"
      using less.prems(4) chunk by (intro unat_add_no_wrap) simp
    have z: "zeros file (unat offset + unat dn) (unat w)"
      using read_at_bytes [OF less.prems(2) read(1)] read(2) off by (simp add: zeros_def)
    have rest: "zeros file (unat offset + unat (dn + w)) (unat len - unat (dn + w)) \<and> counted (len - (dn + w)) (r\<lparr>lr_padding_bytes_read :=
        lr_padding_bytes_read r + w, lr_padding_read_calls := lr_padding_read_calls r + 1\<rparr>) r'"
      using less.hyps [OF _ run less.prems(2) _ less.prems(4)] chunk by (simp add: word_le_nat_alt)
    then have "zeros file (unat offset + unat dn) (unat w + (unat len - unat (dn + w)))"
      using z chunk(3) unfolding zeros_append by (simp add: add.assoc)
    moreover have "counted (len - dn) r r'" using counted_step [OF conjunct2 [OF rest]] by (simp add: algebra_simps)
    ultimately show ?thesis using chunk by simp
  qed
qed

lemma zero_padding_complete:
  assumes "\<And>offset len. unat offset + unat len \<le> length file \<Longrightarrow> \<exists>bytes. yvex_artifact_read_at a offset len = Inr bytes"
    and reads: "reads_file a file"
  shows "zeros file (unat offset + unat dn) (unat len - unat dn) \<Longrightarrow> dn \<le> len \<Longrightarrow> unat offset + unat len \<le> length file \<Longrightarrow>
    \<exists>r'. zero_padding_loop a offset len code dn r = Inr r'"
proof (induction "unat len - unat dn" arbitrary: dn r rule: less_induct)
  case less
  show ?case
  proof (cases "dn < len")
    case False
    then show ?thesis by (simp add: zero_padding_loop.simps [of a])
  next
    case True
    define w where "w = (if len - dn > YVEX_GGUF_LAYOUT_PADDING_CHUNK then YVEX_GGUF_LAYOUT_PADDING_CHUNK else len - dn)"
    note chunk = padding_chunk [OF True refl w_def]
    have "length file < 2 ^ 64" using reads unat_u64_less [of "art_size a"] by (simp add: reads_file_def)
    then have off: "unat (offset + dn) = unat offset + unat dn"
      using less.prems(3) chunk by (intro unat_add_no_wrap) simp
    obtain bytes where read: "yvex_artifact_read_at a (offset + dn) w = Inr bytes"
      using assms(1) [of "offset + dn" w] off chunk less.prems(3) by auto
    have split: "unat len - unat dn = unat w + (unat len - unat (dn + w))" using chunk by simp
    have z: "zeros file (unat offset + unat dn) (unat w)"
      "zeros file (unat offset + unat (dn + w)) (unat len - unat (dn + w))"
      using less.prems(1) chunk(3) unfolding split zeros_append by (simp_all add: add.assoc)
    have "bytes = replicate (length bytes) 0"
      using read_at_bytes [OF reads read] z(1) off by (simp add: zeros_def)
    moreover have "\<exists>r'. zero_padding_loop a offset len code (dn + w) r0 = Inr r'" for r0
      using less.hyps [OF _ z(2) _ less.prems(3)] chunk by (simp add: word_le_nat_alt)
    ultimately show ?thesis unfolding zero_padding_step [OF True w_def] using read by blast
  qed
qed

section \<open>One tensor\<close>

abbreviation power_aligned :: "u32 \<Rightarrow> bool" where
  "power_aligned align \<equiv> align \<noteq> 0 \<and> align AND (align - 1) = 0"

lemma interval_measure_eq:
  assumes "power_aligned align"
  shows "yvex_gguf_layout_interval_measure relative raw align (Some x) (Some y) =
    (if unat relative + unat raw < 2 ^ 64
     then case align_up_power_of_two (relative + raw) align of
        None \<Rightarrow> (YVEX_GGUF_LAYOUT_PADDED_END_OVERFLOW, Some (relative + raw), Some y)
      | Some padded \<Rightarrow> (YVEX_GGUF_LAYOUT_OK, Some (relative + raw), Some padded)
     else (YVEX_GGUF_LAYOUT_RAW_END_OVERFLOW, Some x, Some y))"
  using assms by (simp add: yvex_gguf_layout_interval_measure_def word_nat_simps add.commute not_less)

definition stored_exactly :: "yvex_gguf_tensor_info \<Rightarrow> bool" where
  "stored_exactly t \<longleftrightarrow> (\<exists>storage. yvex_gguf_qtype_tensor_storage (ggml_type t) (Some (ti_dims t)) (ti_rank t) =
     (YVEX_GGUF_QTYPE_STORAGE_OK, storage) \<and> sr_total_bytes storage = storage_bytes t)"

lemma measure_tensor_iff:
  assumes "power_aligned (lr_alignment out)"
  shows "layout_measure_tensor t out = Inr (raw_end, padded_end, m) \<longleftrightarrow>
    stored_exactly t \<and> unat (relative_offset t) + unat (storage_bytes t) < 2 ^ 64 \<and>
    raw_end = relative_offset t + storage_bytes t \<and> align_up_power_of_two raw_end (lr_alignment out) = Some padded_end \<and>
    m = out\<lparr>lr_tensor_raw_size := storage_bytes t, lr_tensor_raw_end := raw_end, lr_tensor_padded_end := padded_end,
      lr_tensor_padded_size := padded_end - relative_offset t\<rparr>"
proof -
  obtain status storage where st:
      "yvex_gguf_qtype_tensor_storage (ggml_type t) (Some (ti_dims t)) (ti_rank t) = (status, storage)" by fastforce
  show ?thesis
  proof (cases "status = YVEX_GGUF_QTYPE_STORAGE_OK \<and> storage_bytes t = sr_total_bytes storage")
    case False
    then show ?thesis using st by (auto simp: layout_measure_tensor_def stored_exactly_def layout_fail_def Let_def)
  next
    case True
    then show ?thesis
      using st interval_measure_eq [OF assms, of "relative_offset t" "sr_total_bytes storage" 0 0]
      by (auto simp: layout_measure_tensor_def stored_exactly_def layout_fail_def Let_def split: option.splits)
  qed
qed

lemma place_tensor_iff:
  "layout_place_tensor index cursor relative raw_end out = Inr () \<longleftrightarrow>
     relative = (if index = 0 then 0 else lc_expected cursor)"
  by (auto simp: layout_place_tensor_def layout_fail_def word_gt_0)

lemma bound_tensor_iff:
  "layout_bound_tensor index t raw_end padded_end out = Inr b \<longleftrightarrow>
    (let data = lr_tensor_data_offset out; size = lr_tensor_raw_size out; last = \<not> index + 1 < lr_tensor_count out in
     unat data + unat (relative_offset t) < 2 ^ 64 \<and> unat (data + relative_offset t) + unat size < 2 ^ 64 \<and>
     unat data + unat padded_end < 2 ^ 64 \<and> absolute_offset t = data + relative_offset t \<and>
     absolute_end_offset t = data + relative_offset t + size \<and> absolute_end_offset t \<le> lr_actual_file_size out \<and>
     data + padded_end \<le> lr_actual_file_size out \<and> unat (lr_raw_tensor_bytes out) + unat size < 2 ^ 64 \<and>
     (\<not> last \<longrightarrow> unat (lr_inter_tensor_padding_bytes out) + unat (padded_end - raw_end) < 2 ^ 64) \<and>
     b = (let s = out\<lparr>lr_raw_tensor_bytes := lr_raw_tensor_bytes out + size\<rparr> in
       if last then s\<lparr>lr_final_tensor_padding_bytes := padded_end - raw_end\<rparr>
       else s\<lparr>lr_inter_tensor_padding_bytes := lr_inter_tensor_padding_bytes out + (padded_end - raw_end)\<rparr>))"
  unfolding layout_bound_tensor_def layout_sum_eq checked_add_eq Let_def layout_fail_def
  by (auto simp: not_less split: if_splits)

lemma bound_tensor_ends:
  assumes "layout_bound_tensor index t raw_end padded_end out = Inr b"
  shows "unat (lr_tensor_data_offset out) + unat padded_end \<le> unat (lr_actual_file_size out)"
    "unat (absolute_end_offset t) =
      unat (lr_tensor_data_offset out) + unat (relative_offset t) + unat (lr_tensor_raw_size out)"
proof -
  let ?data = "lr_tensor_data_offset out"
  have s: "unat ?data + unat padded_end < 2 ^ 64" "?data + padded_end \<le> lr_actual_file_size out"
    "unat ?data + unat (relative_offset t) < 2 ^ 64"
    "unat (?data + relative_offset t) + unat (lr_tensor_raw_size out) < 2 ^ 64"
    "absolute_end_offset t = ?data + relative_offset t + lr_tensor_raw_size out"
    using assms by (auto simp: bound_tensor_iff Let_def)
  show "unat ?data + unat padded_end \<le> unat (lr_actual_file_size out)"
    using s(2) unat_add_no_wrap [OF s(1)] by (simp add: word_le_nat_alt)
  show "unat (absolute_end_offset t) = unat ?data + unat (relative_offset t) + unat (lr_tensor_raw_size out)"
    unfolding s(5) unat_add_no_wrap [OF s(4)] unat_add_no_wrap [OF s(3)] ..
qed

text \<open>What the steps rely on of the result record: it describes this view of this file.\<close>

definition ready :: "yvex_artifact \<Rightarrow> yvex_gguf \<Rightarrow> yvex_gguf_layout_result \<Rightarrow> bool" where
  "ready a g out \<longleftrightarrow> power_aligned (alignment g) \<and> lr_alignment out = alignment g \<and>
     lr_tensor_count out = tensor_count (g_header g) \<and> lr_tensor_data_offset out = tensor_data_offset g \<and>
     lr_actual_file_size out = art_size a"

text \<open>How a step moves the totals, given the size of the tensor and of its padding.\<close>

definition advanced :: "bool \<Rightarrow> nat \<Rightarrow> nat \<Rightarrow> yvex_gguf_layout_result \<Rightarrow> yvex_gguf_layout_result \<Rightarrow> bool" where
  "advanced final raw pad r r' \<longleftrightarrow> unat (lr_raw_tensor_bytes r') = unat (lr_raw_tensor_bytes r) + raw \<and>
     (if final
      then lr_inter_tensor_padding_bytes r' = lr_inter_tensor_padding_bytes r \<and> unat (lr_final_tensor_padding_bytes r') = pad
      else unat (lr_inter_tensor_padding_bytes r') = unat (lr_inter_tensor_padding_bytes r) + pad \<and>
        lr_final_tensor_padding_bytes r' = lr_final_tensor_padding_bytes r) \<and>
     lr_padding_bytes_read r' = lr_padding_bytes_read r + of_nat pad \<and>
     lr_directory_end r' = lr_directory_end r \<and> lr_directory_padding_bytes r' = lr_directory_padding_bytes r \<and>
     lr_tensor_payload_bytes_read r' = lr_tensor_payload_bytes_read r"

lemma validate_tensor_run:
  assumes ready: "ready a g out" and i: "i < tensor_count (g_header g)"
    and run: "layout_validate_tensor a g i cur out = Inr (cur', out')"
  obtains named raw_end padded_end m b z where
    "lc_expected cur' = padded_end" "ready a g named"
    "layout_measure_tensor (g_tensors g ! unat i) named = Inr (raw_end, padded_end, m)"
    "layout_place_tensor i cur (relative_offset (g_tensors g ! unat i)) raw_end m = Inr ()"
    "layout_bound_tensor i (g_tensors g ! unat i) raw_end padded_end m = Inr b"
    "zero_padding_loop a (absolute_end_offset (g_tensors g ! unat i)) (padded_end - raw_end)
       YVEX_GGUF_LAYOUT_TENSOR_PADDING_NONZERO 0 b = Inr z"
    "out' = z\<lparr>lr_tensors_validated := lr_tensors_validated z + 1\<rparr>"
    "\<forall>final raw pad r'. advanced final raw pad named r' \<longrightarrow> advanced final raw pad out r'"
proof -
  let ?t = "g_tensors g ! unat i"
  let ?named = "out\<lparr>lr_tensor_index := i, lr_tensor_name := take 127 (takeWhile (\<lambda>b. b \<noteq> 0) (ti_name ?t)),
    lr_expected_relative_offset := lc_expected cur, lr_declared_relative_offset := relative_offset ?t\<rparr>"
  have t: "yvex_gguf_tensor_at (Some g) i = Some ?t" using i by (simp add: yvex_gguf_tensor_at_def)
  have r: "ready a g ?named" using ready by (simp add: ready_def)
  have adv: "\<forall>final raw pad r'. advanced final raw pad ?named r' \<longrightarrow> advanced final raw pad out r'"
    by (simp add: advanced_def)
  show thesis
    using run r adv
    by (auto simp: layout_validate_tensor_def t Let_def proceed_Inr_iff read_zero_padding_def intro: that)
qed

lemma align_up_add: "0 < a \<Longrightarrow> a dvd pos \<Longrightarrow> align_up (pos + n) a = pos + align_up n a"
proof -
  assume a: "0 < a" and "a dvd pos"
  then obtain k where "pos = k * a" by (metis dvd_def mult.commute)
  moreover have "(k * a + (n + (a - 1))) div a = k + (n + (a - 1)) div a" using a by (intro div_mult_self3) simp
  ultimately show ?thesis unfolding align_up_div [OF a] by (simp only: add.assoc add_mult_distrib)
qed

lemma validate_tensor_sound:
  assumes reads: "reads_file a file" and ready: "ready a g out" and i: "i < tensor_count (g_header g)"
    and run: "layout_validate_tensor a g i cur out = Inr (cur', out')"
    and first: "i = 0 \<longrightarrow> lc_expected cur = 0" and pos: "unat (alignment g) dvd unat (lc_expected cur)"
  defines "t \<equiv> g_tensors g ! unat i" and "data \<equiv> unat (tensor_data_offset g)"
  defines "pad \<equiv> align_up (unat (storage_bytes t)) (unat (alignment g)) - unat (storage_bytes t)"
  shows "relative_offset t = lc_expected cur"
    "unat (lc_expected cur') = unat (lc_expected cur) + align_up (unat (storage_bytes t)) (unat (alignment g))"
    "data + unat (lc_expected cur') \<le> length file"
    "zeros file (data + unat (lc_expected cur) + unat (storage_bytes t)) pad"
    "ready a g out'" "advanced (\<not> i + 1 < tensor_count (g_header g)) (unat (storage_bytes t)) pad out out'"
proof -
  obtain named raw_end padded_end m b z where cur': "lc_expected cur' = padded_end" and named: "ready a g named"
    and measure: "layout_measure_tensor t named = Inr (raw_end, padded_end, m)"
    and place: "layout_place_tensor i cur (relative_offset t) raw_end m = Inr ()"
    and bound: "layout_bound_tensor i t raw_end padded_end m = Inr b"
    and zero: "zero_padding_loop a (absolute_end_offset t) (padded_end - raw_end)
       YVEX_GGUF_LAYOUT_TENSOR_PADDING_NONZERO 0 b = Inr z"
    and out': "out' = z\<lparr>lr_tensors_validated := lr_tensors_validated z + 1\<rparr>"
    and adv: "\<forall>final raw pad r'. advanced final raw pad named r' \<longrightarrow> advanced final raw pad out r'"
    unfolding t_def by (rule validate_tensor_run [OF ready i run])
  have al: "power_aligned (lr_alignment named)" "lr_alignment named = alignment g" "0 < unat (alignment g)"
    using named by (auto simp: ready_def unat_gt_0)
  note ms = iffD1 [OF measure_tensor_iff [OF al(1)] measure]
  show rel: "relative_offset t = lc_expected cur" using place first by (auto simp: place_tensor_iff split: if_splits)
  have raw: "unat raw_end = unat (lc_expected cur) + unat (storage_bytes t)"
    using ms rel by (auto intro: unat_add_no_wrap)
  have "unat padded_end = align_up (unat raw_end) (unat (alignment g))"
    by (rule align_up_power_of_two_Some) (use ms al in auto)
  then show pe: "unat (lc_expected cur') = unat (lc_expected cur) + align_up (unat (storage_bytes t)) (unat (alignment g))"
    using align_up_add [OF al(3) pos] raw cur' by simp
  have "unat raw_end \<le> unat padded_end" using align_up(2) [OF al(3), of "unat (storage_bytes t)"] raw pe cur' by simp
  then have pad: "unat (padded_end - raw_end) = pad"
    using unat_sub [of raw_end padded_end] raw pe cur' by (simp add: word_le_nat_alt pad_def)
  have size: "unat (art_size a) = length file" using reads by (simp add: reads_file_def)
  have m: "m = named\<lparr>lr_tensor_raw_size := storage_bytes t, lr_tensor_raw_end := raw_end, lr_tensor_padded_end := padded_end,
      lr_tensor_padded_size := padded_end - relative_offset t\<rparr>" using ms by blast
  note bd = bound [unfolded bound_tensor_iff Let_def m]
  have D: "lr_tensor_data_offset named = tensor_data_offset g" "lr_actual_file_size named = art_size a"
    "lr_tensor_count named = tensor_count (g_header g)" using named by (simp_all add: ready_def)
  note ends = bound_tensor_ends [OF bound]
  show end1: "data + unat (lc_expected cur') \<le> length file" using ends(1) D size unfolding cur' data_def m by simp
  have abs_end: "unat (absolute_end_offset t) = data + unat (lc_expected cur) + unat (storage_bytes t)"
    using ends(2) D rel unfolding data_def m by simp
  have fits: "unat (absolute_end_offset t) + unat (padded_end - raw_end) \<le> length file"
    using end1 abs_end pad pe align_up(2) [OF al(3), of "unat (storage_bytes t)"] by (simp add: pad_def)
  note zs = zero_padding_sound [OF zero reads _ fits]
  show "zeros file (data + unat (lc_expected cur) + unat (storage_bytes t)) pad" using zs abs_end pad by simp
  obtain calls where z: "z = b\<lparr>lr_padding_bytes_read := lr_padding_bytes_read b + (padded_end - raw_end), lr_padding_read_calls := calls\<rparr>"
    using zs by (auto simp: counted_def)
  show "ready a g out'" using named bd unfolding out' z ready_def by (auto split: if_splits)
  have "padded_end - raw_end = of_nat pad" using pad by (rule word_of_unat)
  then show "advanced (\<not> i + 1 < tensor_count (g_header g)) (unat (storage_bytes t)) pad out out'"
    using bd D pad unfolding out' z by (intro adv [rule_format]) (auto simp: advanced_def unat_add_no_wrap split: if_splits)
qed

text \<open>Conversely, the measuring and the bounding succeed when the padded tensor fits.\<close>

lemma measure_tensor_complete:
  assumes al: "power_aligned (lr_alignment out)" and t: "stored_exactly t" "unat (lr_alignment out) dvd unat (relative_offset t)"
    and fits: "unat (relative_offset t) + align_up (unat (storage_bytes t)) (unat (lr_alignment out)) < 2 ^ 63"
  obtains padded_end where "unat padded_end = unat (relative_offset t) + align_up (unat (storage_bytes t)) (unat (lr_alignment out))"
    "unat (relative_offset t + storage_bytes t) = unat (relative_offset t) + unat (storage_bytes t)"
    "layout_measure_tensor t out = Inr (relative_offset t + storage_bytes t, padded_end,
       out\<lparr>lr_tensor_raw_size := storage_bytes t, lr_tensor_raw_end := relative_offset t + storage_bytes t,
         lr_tensor_padded_end := padded_end, lr_tensor_padded_size := padded_end - relative_offset t\<rparr>)"
proof -
  let ?size = "unat (storage_bytes t)" and ?al = "unat (lr_alignment out)" and ?pos = "unat (relative_offset t)"
  let ?up = "align_up ?size ?al" and ?raw = "relative_offset t + storage_bytes t"
  have pos: "0 < ?al" using al by (simp add: unat_gt_0)
  obtain k where k: "k < 32" "?al = 2 ^ k" using align_power al by blast
  have small: "?al < 2 ^ 32" using unsigned_less [of "lr_alignment out", where ?'a = nat] by simp
  have up: "?size \<le> ?up" using align_up(2) [OF pos] .
  have raw: "unat ?raw = ?pos + ?size" using fits up by (intro unat_add_no_wrap) simp
  have "?pos + ?size + (?al - 1) < 2 ^ 64" using fits up small by simp
  then have pe: "align_up_power_of_two ?raw (lr_alignment out) = Some (of_nat (?pos + ?up))"
    using align_up_power_of_two_eq [OF k, of ?raw] raw align_up_add [OF pos t(2)] by simp
  have "unat (of_nat (?pos + ?up) :: u64) = ?pos + ?up" using fits by (intro unat_eq_of_nat_u64) simp
  moreover have "?pos + ?size < 2 ^ 64" using fits up by simp
  ultimately show thesis
    using that [of "of_nat (?pos + ?up)"] raw measure_tensor_iff [OF al, of t ?raw "of_nat (?pos + ?up)"] t(1) pe by blast
qed

lemma bound_tensor_complete:
  assumes rel: "unat (absolute_offset t) = unat (lr_tensor_data_offset out) + unat (relative_offset t)"
      "unat (absolute_end_offset t) = unat (absolute_offset t) + unat (lr_tensor_raw_size out)"
    and ends: "unat raw_end = unat (relative_offset t) + unat (lr_tensor_raw_size out)" "unat raw_end \<le> unat padded_end"
      "unat (lr_tensor_data_offset out) + unat padded_end \<le> unat (lr_actual_file_size out)"
    and totals: "unat (lr_raw_tensor_bytes out) \<le> unat (relative_offset t)"
      "unat (lr_inter_tensor_padding_bytes out) \<le> unat (relative_offset t)"
  shows "\<exists>b. layout_bound_tensor index t raw_end padded_end out = Inr b"
proof -
  let ?data = "lr_tensor_data_offset out" and ?size = "lr_tensor_raw_size out"
  have size: "unat (lr_actual_file_size out) < 2 ^ 64" by (rule unat_u64_less)
  have abs: "unat (?data + relative_offset t) = unat ?data + unat (relative_offset t)"
    "unat (?data + relative_offset t + ?size) = unat ?data + unat (relative_offset t) + unat ?size"
    "unat (?data + padded_end) = unat ?data + unat padded_end"
    using ends size by (subst unat_add_no_wrap; simp)+
  have eqs: "absolute_offset t = ?data + relative_offset t" "absolute_end_offset t = ?data + relative_offset t + ?size"
    using rel abs by (simp_all add: word_unat_eq_iff)
  have pad: "unat (padded_end - raw_end) = unat padded_end - unat raw_end"
    using ends(2) by (intro unat_sub) (simp add: word_le_nat_alt)
  have sums: "unat ?data + unat (relative_offset t) < 2 ^ 64" "unat (?data + relative_offset t) + unat ?size < 2 ^ 64"
    "unat ?data + unat padded_end < 2 ^ 64" "unat (lr_raw_tensor_bytes out) + unat ?size < 2 ^ 64"
    "unat (lr_inter_tensor_padding_bytes out) + unat (padded_end - raw_end) < 2 ^ 64"
    using ends abs size totals pad by simp_all
  have les: "absolute_end_offset t \<le> lr_actual_file_size out" "?data + padded_end \<le> lr_actual_file_size out"
    using ends abs eqs by (simp_all add: word_le_nat_alt)
  show ?thesis unfolding bound_tensor_iff Let_def using sums eqs les by blast
qed

lemma validate_tensor_complete:
  assumes served: "\<And>offset len. unat offset + unat len \<le> length file \<Longrightarrow> \<exists>bytes. yvex_artifact_read_at a offset len = Inr bytes"
    and reads: "reads_file a file" and ready: "ready a g out" and i: "i < tensor_count (g_header g)"
    and t: "t = g_tensors g ! unat i" "stored_exactly t" "relative_offset t = lc_expected cur" "i = 0 \<longrightarrow> lc_expected cur = 0"
      "unat (alignment g) dvd unat (lc_expected cur)"
    and range: "unat (absolute_offset t) = unat (tensor_data_offset g) + unat (relative_offset t)"
      "unat (absolute_end_offset t) = unat (absolute_offset t) + unat (storage_bytes t)"
    and up: "up = align_up (unat (storage_bytes t)) (unat (alignment g))"
    and fits: "unat (tensor_data_offset g) + unat (lc_expected cur) + up \<le> length file" "length file < 2 ^ 63"
      "zeros file (unat (tensor_data_offset g) + unat (lc_expected cur) + unat (storage_bytes t)) (up - unat (storage_bytes t))"
    and totals: "unat (lr_raw_tensor_bytes out) \<le> unat (lc_expected cur)"
      "unat (lr_inter_tensor_padding_bytes out) \<le> unat (lc_expected cur)"
  shows "\<exists>cur' out'. layout_validate_tensor a g i cur out = Inr (cur', out')"
proof -
  let ?raw = "relative_offset t + storage_bytes t"
  let ?named = "out\<lparr>lr_tensor_index := i, lr_tensor_name := take 127 (takeWhile (\<lambda>b. b \<noteq> 0) (ti_name t)),
    lr_expected_relative_offset := lc_expected cur, lr_declared_relative_offset := relative_offset t\<rparr>"
  have named: "lr_alignment ?named = alignment g" "lr_tensor_data_offset ?named = tensor_data_offset g"
    "lr_actual_file_size ?named = art_size a" "power_aligned (lr_alignment ?named)" using ready by (simp_all add: ready_def)
  have fit: "unat (relative_offset t) + align_up (unat (storage_bytes t)) (unat (lr_alignment ?named)) < 2 ^ 63"
    using fits up t(3) named(1) by simp
  obtain padded_end where pe: "unat padded_end = unat (relative_offset t) + up"
      "unat ?raw = unat (relative_offset t) + unat (storage_bytes t)"
    and measure: "layout_measure_tensor t ?named = Inr (?raw, padded_end, ?named\<lparr>lr_tensor_raw_size := storage_bytes t,
      lr_tensor_raw_end := ?raw, lr_tensor_padded_end := padded_end, lr_tensor_padded_size := padded_end - relative_offset t\<rparr>)"
    using measure_tensor_complete [OF named(4) t(2) _ fit] t(3,5) up named(1) by auto
  let ?m = "?named\<lparr>lr_tensor_raw_size := storage_bytes t,
      lr_tensor_raw_end := ?raw, lr_tensor_padded_end := padded_end, lr_tensor_padded_size := padded_end - relative_offset t\<rparr>"
  have le: "unat (storage_bytes t) \<le> up" using align_up(2) named(1,4) up by (simp add: unat_gt_0)
  have size: "unat (art_size a) = length file" using reads by (simp add: reads_file_def)
  obtain b where bound: "layout_bound_tensor i t ?raw padded_end ?m = Inr b"
    using bound_tensor_complete [of t ?m ?raw padded_end i] range pe le fits totals size t(3) named by auto
  have place: "layout_place_tensor i cur (relative_offset t) ?raw ?m = Inr ()" using t(3,4) by (simp add: place_tensor_iff)
  have pad: "unat (padded_end - ?raw) = up - unat (storage_bytes t)"
    using unat_sub [of ?raw padded_end] pe le by (simp add: word_le_nat_alt)
  have tensor: "yvex_gguf_tensor_at (Some g) i = Some t" using i by (simp add: yvex_gguf_tensor_at_def t(1))
  obtain z where "zero_padding_loop a (absolute_end_offset t) (padded_end - ?raw)
      YVEX_GGUF_LAYOUT_TENSOR_PADDING_NONZERO 0 b = Inr z"
    using zero_padding_complete [OF served reads, of "absolute_end_offset t" 0 "padded_end - ?raw"] range t(3) fits pad le by auto
  then show ?thesis
    using measure bound place by (simp add: layout_validate_tensor_def tensor Let_def read_zero_padding_def)
qed

section \<open>The data section\<close>

text \<open>
  A payload followed by zeros up to the alignment, and a data section that consists of the padded
  payloads of the tensors, each at the offset its record declares.
\<close>

definition padded_to :: "nat \<Rightarrow> u8 list \<Rightarrow> u8 list" where
  "padded_to a payload = payload @ replicate (align_up (length payload) a - length payload) 0"

primrec tiled :: "nat \<Rightarrow> nat \<Rightarrow> yvex_gguf_tensor_info list \<Rightarrow> u8 list \<Rightarrow> bool" where
  "tiled a pos [] body \<longleftrightarrow> body = []"
| "tiled a pos (t # ts) body \<longleftrightarrow> unat (relative_offset t) = pos \<and>
     (\<exists>payload rest. body = padded_to a payload @ rest \<and> length payload = unat (storage_bytes t) \<and>
        tiled a (pos + length (padded_to a payload)) ts rest)"

definition tile_raw :: "yvex_gguf_tensor_info list \<Rightarrow> nat" where
  "tile_raw ts = sum_list (map (\<lambda>t. unat (storage_bytes t)) ts)"

definition tile_pads :: "nat \<Rightarrow> yvex_gguf_tensor_info list \<Rightarrow> nat" where
  "tile_pads a ts = sum_list (map (\<lambda>t. align_up (unat (storage_bytes t)) a - unat (storage_bytes t)) ts)"

lemma tile_totals [simp]:
  "tile_raw [] = 0" "tile_raw (t # ts) = unat (storage_bytes t) + tile_raw ts"
  "tile_pads a [] = 0" "tile_pads a (t # ts) = align_up (unat (storage_bytes t)) a - unat (storage_bytes t) + tile_pads a ts"
  by (simp_all add: tile_raw_def tile_pads_def)

lemma length_padded_to: "0 < a \<Longrightarrow> length (padded_to a payload) = align_up (length payload) a"
  using align_up(2) [of a "length payload"] by (simp add: padded_to_def)

lemma tiled_length: "0 < a \<Longrightarrow> tiled a pos ts body \<Longrightarrow> length body = tile_raw ts + tile_pads a ts"
proof (induction ts arbitrary: pos body)
  case (Cons t ts)
  then show ?case using align_up(2) [of a "unat (storage_bytes t)"] by (fastforce simp: length_padded_to)
qed simp

lemma tile_split:
  assumes a: "0 < a" and z: "zeros file (base + n) (align_up n a - n)"
  shows "drop base file = padded_to a (take n (drop base file)) @ drop (base + align_up n a) file"
    "length (take n (drop base file)) = n"
proof -
  have le: "n \<le> align_up n a" using align_up(2) [OF a] .
  show n: "length (take n (drop base file)) = n" using z by (auto simp: zeros_def min_def)
  have e: "align_up n a - n + (base + n) = base + align_up n a" using le by simp
  have "drop base file = take n (drop base file) @ drop (base + n) file"
    using append_take_drop_id [of n "drop base file", symmetric] by (simp add: add.commute)
  also have "drop (base + n) file = take (align_up n a - n) (drop (base + n) file) @ drop (base + align_up n a) file"
    using append_take_drop_id [of "align_up n a - n" "drop (base + n) file", symmetric] unfolding drop_drop e .
  also have "take (align_up n a - n) (drop (base + n) file) = replicate (align_up n a - n) 0" using z by (simp add: zeros_def)
  finally show "drop base file = padded_to a (take n (drop base file)) @ drop (base + align_up n a) file"
    unfolding padded_to_def n by simp
qed

lemma take_prefix: "xs = p @ r \<Longrightarrow> length p \<le> k \<Longrightarrow> take k xs = p @ take (k - length p) r"
  by simp

definition accumulated :: "nat \<Rightarrow> nat \<Rightarrow> yvex_gguf_layout_result \<Rightarrow> yvex_gguf_layout_result \<Rightarrow> bool" where
  "accumulated raw pads r r' \<longleftrightarrow> unat (lr_raw_tensor_bytes r') = unat (lr_raw_tensor_bytes r) + raw \<and>
     (lr_final_tensor_padding_bytes r = 0 \<longrightarrow>
        unat (lr_inter_tensor_padding_bytes r') + unat (lr_final_tensor_padding_bytes r') =
        unat (lr_inter_tensor_padding_bytes r) + pads) \<and>
     lr_padding_bytes_read r' = lr_padding_bytes_read r + of_nat pads \<and>
     lr_directory_end r' = lr_directory_end r \<and> lr_directory_padding_bytes r' = lr_directory_padding_bytes r \<and>
     lr_tensor_payload_bytes_read r' = lr_tensor_payload_bytes_read r"

lemma accumulated_refl: "accumulated 0 0 r r"
  by (simp add: accumulated_def)

lemma accumulated_last: "advanced True raw pad r r' \<Longrightarrow> accumulated raw pad r r'"
  by (simp add: accumulated_def advanced_def)

lemma accumulated_step: "advanced False raw pad r r1 \<Longrightarrow> accumulated raws pads r1 r' \<Longrightarrow> accumulated (raw + raws) (pad + pads) r r'"
  by (simp add: accumulated_def advanced_def)

text \<open>The loop, started after the first \<open>i\<close> tensors.\<close>

definition loop_at :: "yvex_artifact \<Rightarrow> yvex_gguf \<Rightarrow> u8 list \<Rightarrow> u64 \<Rightarrow> nat \<Rightarrow> layout_cursor \<Rightarrow> yvex_gguf_layout_result \<Rightarrow> bool" where
  "loop_at a g file i n cur out \<longleftrightarrow> ready a g out \<and> unat i + n = unat (tensor_count (g_header g)) \<and>
     length (g_tensors g) = unat (tensor_count (g_header g)) \<and> (i = 0 \<longrightarrow> lc_expected cur = 0) \<and>
     unat (alignment g) dvd unat (lc_expected cur) \<and>
     unat (tensor_data_offset g) + unat (lc_expected cur) \<le> length file"

lemma loop_at_Suc:
  assumes "loop_at a g file i (Suc n) cur out"
  shows "i < tensor_count (g_header g)" "unat (i + 1) = Suc (unat i)" "i + 1 \<noteq> 0"
    "drop (unat i) (g_tensors g) = g_tensors g ! unat i # drop (unat (i + 1)) (g_tensors g)"
    "i + 1 < tensor_count (g_header g) \<longleftrightarrow> n \<noteq> 0"
proof -
  have n: "unat i + Suc n = unat (tensor_count (g_header g))" using assms by (simp add: loop_at_def)
  then show less: "i < tensor_count (g_header g)" by (simp add: word_less_nat_alt)
  show suc: "unat (i + 1) = Suc (unat i)" by (rule unat_inc_less [OF less])
  then show "i + 1 \<noteq> 0" by auto
  show "drop (unat i) (g_tensors g) = g_tensors g ! unat i # drop (unat (i + 1)) (g_tensors g)"
    using assms n unfolding suc by (simp add: loop_at_def Cons_nth_drop_Suc)
  show "i + 1 < tensor_count (g_header g) \<longleftrightarrow> n \<noteq> 0" using n suc by (auto simp: word_less_nat_alt)
qed

lemma tensor_loop_sound:
  assumes reads: "reads_file a file"
  shows "layout_tensor_loop n a g i cur out = Inr (cur', out') \<Longrightarrow> loop_at a g file i n cur out \<Longrightarrow>
    loop_at a g file (tensor_count (g_header g)) 0 cur' out' \<and> unat (lc_expected cur) \<le> unat (lc_expected cur') \<and>
    tiled (unat (alignment g)) (unat (lc_expected cur)) (drop (unat i) (g_tensors g))
      (take (unat (lc_expected cur') - unat (lc_expected cur)) (drop (unat (tensor_data_offset g) + unat (lc_expected cur)) file)) \<and>
    accumulated (tile_raw (drop (unat i) (g_tensors g))) (tile_pads (unat (alignment g)) (drop (unat i) (g_tensors g))) out out'"
proof (induction n arbitrary: i cur out)
  case 0
  then have "i = tensor_count (g_header g)" by (simp add: loop_at_def word_unat_eq_iff)
  then show ?case using 0 by (simp add: loop_at_def accumulated_refl)
next
  case (Suc n)
  let ?data = "unat (tensor_data_offset g)" and ?al = "unat (alignment g)" and ?t = "g_tensors g ! unat i"
  obtain cur1 out1 where step: "layout_validate_tensor a g i cur out = Inr (cur1, out1)"
    and rest: "layout_tensor_loop n a g (i + 1) cur1 out1 = Inr (cur', out')"
    using Suc.prems(1) by (auto simp: proceed_Inr_iff)
  note at = loop_at_Suc [OF Suc.prems(2)]
  have inv: "ready a g out" "i = 0 \<longrightarrow> lc_expected cur = 0" "?al dvd unat (lc_expected cur)" "0 < ?al"
    using Suc.prems(2) by (auto simp: loop_at_def ready_def unat_gt_0)
  note st = validate_tensor_sound [OF reads inv(1) at(1) step inv(2,3)]
  have "loop_at a g file (i + 1) n cur1 out1"
    using Suc.prems(2) at(2,3) st(2,3,5) inv(3) align_up(1) [OF inv(4)] by (simp add: loop_at_def)
  note ih = Suc.IH [OF rest this]
  let ?pos = "unat (lc_expected cur)" and ?next = "unat (lc_expected cur1)" and ?e = "unat (lc_expected cur')"
  note split = tile_split [OF inv(4) st(4)]
  let ?payload = "take (unat (storage_bytes ?t)) (drop (?data + ?pos) file)"
  have len: "length (padded_to ?al ?payload) = align_up (unat (storage_bytes ?t)) ?al"
    unfolding length_padded_to [OF inv(4)] split(2) ..
  have body: "drop (?data + ?pos) file = padded_to ?al ?payload @ drop (?data + ?next) file"
    using split(1) unfolding st(2) add.assoc .
  have k: "length (padded_to ?al ?payload) \<le> ?e - ?pos" "?e - ?pos - length (padded_to ?al ?payload) = ?e - ?next"
    using conjunct1 [OF conjunct2 [OF ih]] st(2) unfolding len by simp_all
  have cut: "take (?e - ?pos) (drop (?data + ?pos) file) = padded_to ?al ?payload @ take (?e - ?next) (drop (?data + ?next) file)"
    using take_prefix [OF body k(1)] unfolding k(2) .
  have "tiled ?al ?pos (?t # drop (unat (i + 1)) (g_tensors g)) (take (?e - ?pos) (drop (?data + ?pos) file))"
    unfolding tiled.simps
  proof (intro conjI exI)
    show "tiled ?al (?pos + length (padded_to ?al ?payload)) (drop (unat (i + 1)) (g_tensors g))
      (take (?e - ?next) (drop (?data + ?next) file))" using ih unfolding len st(2) by blast
  qed (use st(1) in simp, rule cut, rule split(2))
  moreover have "accumulated (tile_raw (drop (unat i) (g_tensors g))) (tile_pads ?al (drop (unat i) (g_tensors g))) out out'"
  proof (cases "n = 0")
    case True
    then have "out' = out1" "drop (unat (i + 1)) (g_tensors g) = []" using rest at(2) Suc.prems(2) by (auto simp: loop_at_def)
    then show ?thesis using st(6) True at(4,5) by (auto intro: accumulated_last)
  next
    case False
    then show ?thesis using st(6) ih at(5) unfolding at(4) tile_totals by (intro accumulated_step) auto
  qed
  ultimately show ?case using ih st(2) unfolding at(4) by simp
qed

text \<open>A tensor whose record agrees with its type, shape and place.\<close>

definition recorded :: "yvex_gguf \<Rightarrow> yvex_gguf_tensor_info \<Rightarrow> bool" where
  "recorded g t \<longleftrightarrow> stored_exactly t \<and>
     unat (absolute_offset t) = unat (tensor_data_offset g) + unat (relative_offset t) \<and>
     unat (absolute_end_offset t) = unat (absolute_offset t) + unat (storage_bytes t)"

lemma tiled_zeros:
  assumes a: "0 < a" and body: "drop base file = padded_to a payload @ rest" and "base \<le> length file"
  shows "zeros file (base + length payload) (align_up (length payload) a - length payload)"
    "base + align_up (length payload) a \<le> length file" "rest = drop (base + align_up (length payload) a) file"
proof -
  let ?n = "length payload" and ?up = "align_up (length payload) a"
  have le: "?n \<le> ?up" using align_up(2) [OF a] .
  have all: "length file = base + ?up + length rest"
    using arg_cong [OF body, of length] length_padded_to [OF a, of payload] assms(3) by simp
  then show "base + ?up \<le> length file" by simp
  have "drop (base + ?n) file = replicate (?up - ?n) 0 @ rest"
    using arg_cong [OF body, of "drop ?n"] by (simp add: padded_to_def add.commute)
  then show "zeros file (base + ?n) (?up - ?n)" using all le by (simp add: zeros_def)
  show "rest = drop (base + ?up) file"
    using arg_cong [OF body, of "drop ?up"] length_padded_to [OF a, of payload] by (simp add: add.commute)
qed

lemma tensor_loop_complete:
  assumes served: "\<And>offset len. unat offset + unat len \<le> length file \<Longrightarrow> \<exists>bytes. yvex_artifact_read_at a offset len = Inr bytes"
    and reads: "reads_file a file" and small: "length file < 2 ^ 63" and rec: "list_all (recorded g) (g_tensors g)"
  shows "loop_at a g file i n cur out \<Longrightarrow>
    tiled (unat (alignment g)) (unat (lc_expected cur)) (drop (unat i) (g_tensors g))
      (drop (unat (tensor_data_offset g) + unat (lc_expected cur)) file) \<Longrightarrow>
    unat (lr_raw_tensor_bytes out) \<le> unat (lc_expected cur) \<Longrightarrow>
    unat (lr_inter_tensor_padding_bytes out) \<le> unat (lc_expected cur) \<Longrightarrow>
    \<exists>cur' out'. layout_tensor_loop n a g i cur out = Inr (cur', out')"
proof (induction n arbitrary: i cur out)
  case (Suc n)
  let ?data = "unat (tensor_data_offset g)" and ?al = "unat (alignment g)" and ?t = "g_tensors g ! unat i"
  let ?up = "align_up (unat (storage_bytes ?t)) ?al" and ?pos = "unat (lc_expected cur)"
  note at = loop_at_Suc [OF Suc.prems(1)]
  have inv: "ready a g out" "i = 0 \<longrightarrow> lc_expected cur = 0" "?al dvd ?pos" "0 < ?al" "?data + ?pos \<le> length file"
    "unat i < length (g_tensors g)"
    using Suc.prems(1) by (auto simp: loop_at_def ready_def unat_gt_0)
  have "recorded g ?t" using rec inv(6) by (simp add: list_all_length)
  then have t: "stored_exactly ?t" "unat (absolute_offset ?t) = ?data + unat (relative_offset ?t)"
    "unat (absolute_end_offset ?t) = unat (absolute_offset ?t) + unat (storage_bytes ?t)" by (auto simp: recorded_def)
  obtain payload rest where tile: "unat (relative_offset ?t) = ?pos" "drop (?data + ?pos) file = padded_to ?al payload @ rest"
      "length payload = unat (storage_bytes ?t)" "tiled ?al (?pos + ?up) (drop (unat (i + 1)) (g_tensors g)) rest"
    using Suc.prems(2) length_padded_to [OF inv(4)] unfolding at(4) by auto
  note z = tiled_zeros [OF inv(4) tile(2) inv(5), unfolded tile(3)]
  have rel: "relative_offset ?t = lc_expected cur" using tile(1) by (simp add: word_unat_eq_iff)
  obtain cur1 out1 where step: "layout_validate_tensor a g i cur out = Inr (cur1, out1)"
    using validate_tensor_complete [OF served reads inv(1) at(1) refl t(1) rel inv(2,3) t(2,3) refl z(2) small z(1)] Suc.prems(3,4)
    by blast
  note st = validate_tensor_sound [OF reads inv(1) at(1) step inv(2,3)]
  have next_at: "loop_at a g file (i + 1) n cur1 out1"
    using Suc.prems(1) at(2,3) st(2,3,5) inv(3) align_up(1) [OF inv(4)] by (simp add: loop_at_def)
  have "tiled ?al (unat (lc_expected cur1)) (drop (unat (i + 1)) (g_tensors g)) (drop (?data + unat (lc_expected cur1)) file)"
    using tile(4) z(3) unfolding st(2) add.assoc by simp
  moreover have "unat (lr_raw_tensor_bytes out1) \<le> unat (lc_expected cur1)"
    "unat (lr_inter_tensor_padding_bytes out1) \<le> unat (lc_expected cur1)"
    using Suc.prems(3,4) st(2,6) align_up(2) [OF inv(4), of "unat (storage_bytes ?t)"] by (auto simp: advanced_def split: if_splits)
  ultimately obtain cur' out' where "layout_tensor_loop n a g (i + 1) cur1 out1 = Inr (cur', out')"
    using Suc.IH [OF next_at] by blast
  then show ?case using step by simp
qed simp

section \<open>The whole validation\<close>

lemma close_span_iff:
  "layout_close_span cur out = Inr s \<longleftrightarrow>
    unat (lr_directory_padding_bytes out) + unat (lr_inter_tensor_padding_bytes out) +
      unat (lr_final_tensor_padding_bytes out) < 2 ^ 64 \<and>
    unat (lr_tensor_data_offset out) + unat (lc_expected cur) = unat (lr_actual_file_size out) \<and>
    s = out\<lparr>lr_data_section_span := lc_expected cur, lr_total_padding_bytes :=
        lr_directory_padding_bytes out + lr_inter_tensor_padding_bytes out + lr_final_tensor_padding_bytes out,
      lr_required_file_end := lr_actual_file_size out, lr_trailing_bytes := 0\<rparr>"
proof -
  let ?a = "lr_directory_padding_bytes out" and ?b = "lr_inter_tensor_padding_bytes out" and ?c = "lr_final_tensor_padding_bytes out"
  let ?d = "lr_tensor_data_offset out" and ?e = "lc_expected cur" and ?f = "lr_actual_file_size out"
  have ends: "unat ?d + unat ?e < 2 ^ 64 \<and> \<not> ?d + ?e > ?f \<and> ?f - (?d + ?e) = 0 \<longleftrightarrow> unat ?d + unat ?e = unat ?f"
  proof
    assume "unat ?d + unat ?e < 2 ^ 64 \<and> \<not> ?d + ?e > ?f \<and> ?f - (?d + ?e) = 0"
    then show "unat ?d + unat ?e = unat ?f" using unat_add_no_wrap [of ?d ?e] by simp
  next
    assume e: "unat ?d + unat ?e = unat ?f"
    then have "?d + ?e = ?f" using unat_add_no_wrap [of ?d ?e] unat_u64_less [of ?f] by (simp add: word_unat_eq_iff)
    then show "unat ?d + unat ?e < 2 ^ 64 \<and> \<not> ?d + ?e > ?f \<and> ?f - (?d + ?e) = 0"
      using e unat_u64_less [of ?f] by simp
  qed
  have sums: "unat ?a + unat ?b < 2 ^ 64 \<and> unat (?a + ?b) + unat ?c < 2 ^ 64 \<longleftrightarrow> unat ?a + unat ?b + unat ?c < 2 ^ 64"
    using unat_add_no_wrap [of ?a ?b] by auto
  have "layout_close_span cur out = Inr s \<longleftrightarrow> (unat ?a + unat ?b < 2 ^ 64 \<and> unat (?a + ?b) + unat ?c < 2 ^ 64) \<and>
      (unat ?d + unat ?e < 2 ^ 64 \<and> \<not> ?d + ?e > ?f \<and> ?f - (?d + ?e) = 0) \<and>
      s = out\<lparr>lr_data_section_span := ?e, lr_total_padding_bytes := ?a + ?b + ?c,
        lr_required_file_end := ?d + ?e, lr_trailing_bytes := ?f - (?d + ?e)\<rparr>"
    unfolding layout_close_span_def layout_sum_eq checked_add_eq Let_def layout_fail_def by auto
  moreover have "?f - (?d + ?e) = 0 \<Longrightarrow> ?d + ?e = ?f" by simp
  ultimately show ?thesis unfolding ends sums using ends by auto
qed

lemma admit_alignment_iff:
  assumes "alignment_ok g" "lr_alignment out = alignment g"
  shows "layout_admit_alignment g out = Inr () \<longleftrightarrow> power_aligned (alignment g)"
  using assms
  by (cases "yvex_gguf_metadata_find (Some g) (Some general_alignment)")
    (auto simp: layout_admit_alignment_def alignment_ok_def layout_fail_def yvex_gguf_value_as_u64_def
      yvex_gguf_value_type_of_def Let_def)

text \<open>The directory and its padding, given what the record holds when it is checked.\<close>

lemma admit_directory_sound:
  assumes reads: "reads_file a file" and al: "power_aligned (alignment g)"
    and out: "lr_alignment out = alignment g" "lr_tensor_count out = tensor_count (g_header g)" "lr_actual_file_size out = art_size a"
    and run: "layout_admit_directory a g out = Inr r"
  defines "gap \<equiv> tensor_data_offset g - lr_directory_end out"
  shows "ready a g r" "unat (tensor_data_offset g) = align_up (unat (lr_directory_end out)) (unat (alignment g))"
    "unat (tensor_data_offset g) \<le> length file" "unat gap = unat (tensor_data_offset g) - unat (lr_directory_end out)"
    "zeros file (unat (lr_directory_end out)) (unat gap)"
    "\<exists>calls. r = out\<lparr>lr_tensor_data_offset := tensor_data_offset g, lr_directory_padding_bytes := gap,
       lr_padding_bytes_read := lr_padding_bytes_read out + gap, lr_padding_read_calls := calls\<rparr>"
proof -
  let ?b = "out\<lparr>lr_tensor_data_offset := tensor_data_offset g, lr_directory_padding_bytes := gap\<rparr>"
  have d: "align_up_power_of_two (lr_directory_end out) (alignment g) = Some (tensor_data_offset g)"
    and le: "tensor_data_offset g \<le> art_size a"
    and zero: "zero_padding_loop a (lr_directory_end out) gap YVEX_GGUF_LAYOUT_DIRECTORY_PADDING_NONZERO 0 ?b = Inr r"
    using run out by (auto simp: layout_admit_directory_def layout_fail_def Let_def read_zero_padding_def gap_def
      yvex_gguf_tensor_data_offset_def not_less split: option.splits if_splits)
  have pos: "0 < unat (alignment g)" using al by (simp add: unat_gt_0)
  show data: "unat (tensor_data_offset g) = align_up (unat (lr_directory_end out)) (unat (alignment g))"
    using align_up_power_of_two_Some [OF d] al by simp
  have size: "unat (art_size a) = length file" using reads by (simp add: reads_file_def)
  then show within: "unat (tensor_data_offset g) \<le> length file" using le by (simp add: word_le_nat_alt)
  have ge: "unat (lr_directory_end out) \<le> unat (tensor_data_offset g)" using align_up(2) [OF pos] data by simp
  then show gap: "unat gap = unat (tensor_data_offset g) - unat (lr_directory_end out)"
    unfolding gap_def by (intro unat_sub) (simp add: word_le_nat_alt)
  have "unat (lr_directory_end out) + unat gap \<le> length file" using gap ge within by simp
  note zs = zero_padding_sound [OF zero reads _ this]
  show "zeros file (unat (lr_directory_end out)) (unat gap)" using zs by simp
  show r: "\<exists>calls. r = out\<lparr>lr_tensor_data_offset := tensor_data_offset g, lr_directory_padding_bytes := gap,
       lr_padding_bytes_read := lr_padding_bytes_read out + gap, lr_padding_read_calls := calls\<rparr>"
    using zs by (auto simp: counted_def)
  then show "ready a g r" using al out by (auto simp: ready_def)
qed

lemma admit_directory_complete:
  assumes served: "\<And>offset len. unat offset + unat len \<le> length file \<Longrightarrow> \<exists>bytes. yvex_artifact_read_at a offset len = Inr bytes"
    and reads: "reads_file a file" and small: "length file < 2 ^ 63" and al: "power_aligned (alignment g)"
    and out: "lr_alignment out = alignment g" "lr_actual_file_size out = art_size a"
    and data: "unat (tensor_data_offset g) = align_up (unat (lr_directory_end out)) (unat (alignment g))"
      "unat (tensor_data_offset g) \<le> length file"
    and zero: "zeros file (unat (lr_directory_end out)) (unat (tensor_data_offset g) - unat (lr_directory_end out))"
  shows "\<exists>r. layout_admit_directory a g out = Inr r"
proof -
  have pos: "0 < unat (alignment g)" using al by (simp add: unat_gt_0)
  obtain k where k: "k < 32" "unat (alignment g) = 2 ^ k" using align_power al by blast
  have "unat (alignment g) < 2 ^ 32" using unsigned_less [of "alignment g", where ?'a = nat] by simp
  moreover have ge: "unat (lr_directory_end out) \<le> unat (tensor_data_offset g)" using align_up(2) [OF pos] data(1) by simp
  ultimately have "unat (lr_directory_end out) + (unat (alignment g) - 1) < 2 ^ 64" using data(2) small by simp
  then have up: "align_up_power_of_two (lr_directory_end out) (alignment g) = Some (tensor_data_offset g)"
    using align_up_power_of_two_eq [OF k, of "lr_directory_end out"] data(1) by (metis word_of_unat)
  have gap: "unat (tensor_data_offset g - lr_directory_end out) = unat (tensor_data_offset g) - unat (lr_directory_end out)"
    using ge by (intro unat_sub) (simp add: word_le_nat_alt)
  have le: "\<not> tensor_data_offset g > art_size a" using data(2) reads by (simp add: word_less_nat_alt reads_file_def)
  have "\<exists>r. zero_padding_loop a (lr_directory_end out) (tensor_data_offset g - lr_directory_end out)
      YVEX_GGUF_LAYOUT_DIRECTORY_PADDING_NONZERO 0 r0 = Inr r" for r0
    using zero_padding_complete [OF served reads, of "lr_directory_end out" 0 "tensor_data_offset g - lr_directory_end out"]
      zero gap ge data(2) by simp
  then show ?thesis
    using up out le by (simp add: layout_admit_directory_def Let_def read_zero_padding_def yvex_gguf_tensor_data_offset_def)
qed

definition layout_begun :: "yvex_artifact \<Rightarrow> yvex_gguf \<Rightarrow> yvex_gguf_layout_result" where
  "layout_begun a g = layout_result_init\<lparr>lr_alignment := alignment g, lr_tensor_count := tensor_count (g_header g),
     lr_tensor_data_offset := tensor_data_offset g, lr_actual_file_size := art_size a,
     lr_structural_bytes_read := structural_bytes_read (g_stats g), lr_directory_end := directory_end_offset (g_stats g),
     lr_tensor_payload_bytes_read := 0\<rparr>"

definition identity_kept :: "yvex_artifact \<Rightarrow> identity_answers \<Rightarrow> bool" where
  "identity_kept a os \<longleftrightarrow> same_identity a (restat_open os) \<and> 0 \<le> reopen_path os \<and> same_identity a (restat_path os)"

lemma snapshot_check_iff: "layout_snapshot_check a os reason out = Inr () \<longleftrightarrow> identity_kept a os"
  using snapshot_validate_iff [of a os]
  by (auto simp: layout_snapshot_check_def identity_kept_def layout_fail_def split: sum.splits)

lemma layout_validate_iff:
  "yvex_gguf_layout_validate True (Some a) (Some g) before after = Inr r \<longleftrightarrow>
    file_size (g_stats g) = art_size a \<and> identity_kept a before \<and> layout_admit_alignment g (layout_begun a g) = Inr () \<and>
    (\<exists>admitted cursor validated spanned. layout_admit_directory a g (layout_begun a g) = Inr admitted \<and>
       layout_tensor_loop (unat (lr_tensor_count admitted)) a g 0
         \<lparr>lc_expected = 0, lc_previous_start = 0, lc_previous_raw_end = 0\<rparr> admitted = Inr (cursor, validated) \<and>
       layout_close_span cursor validated = Inr spanned \<and> identity_kept a after \<and>
       r = spanned\<lparr>lr_tensor_index := ULLONG_MAX, lr_tensor_name := [], lr_code := YVEX_GGUF_LAYOUT_OK,
         lr_accepted := True,
         lr_reason := ''canonical GGUF directory order, padded spans, and zero padding accepted''\<rparr>)"
proof (cases "file_size (g_stats g) = art_size a")
  case False
  then show ?thesis by (simp add: yvex_gguf_layout_validate_def Let_def layout_fail_def yvex_artifact_size_def)
next
  case True
  then show ?thesis
    unfolding yvex_gguf_layout_validate_def Let_def
    by (auto simp: layout_begun_def yvex_gguf_alignment_def yvex_gguf_tensor_count_def yvex_gguf_tensor_data_offset_def
      yvex_artifact_size_def proceed_Inr_iff snapshot_check_iff)
qed

section \<open>Opened files\<close>

lemma tensor_ok_stored: "tensor_ok align t \<Longrightarrow> stored_exactly t"
proof -
  assume ok: "tensor_ok align t"
  then obtain g where g: "yvex_gguf_qtype_geometry_find (ggml_type t) = Some g" "unat (block_size g) dvd unat (hd (ti_dims t))"
      "unat (storage_bytes t) = prod_list (map unat (ti_dims t)) div unat (block_size g) * unat (bytes_per_block g)"
    and t: "qtype_admitted (ggml_type t)" "length (ti_dims t) = unat (ti_rank t)"
    by (auto simp: tensor_ok_def)
  have "storable g (ti_dims t)" using ok g unat_u64_less [of "storage_bytes t"] by (auto simp: tensor_ok_def storable_def)
  then have st: "fst (yvex_gguf_qtype_tensor_storage (ggml_type t) (Some (ti_dims t)) (ti_rank t)) = YVEX_GGUF_QTYPE_STORAGE_OK"
    using storage_ok_iff(1) [OF t g(1)] by simp
  have "unat (sr_total_bytes (snd (yvex_gguf_qtype_tensor_storage (ggml_type t) (Some (ti_dims t)) (ti_rank t)))) =
      unat (storage_bytes t)" using storage_ok_iff(2) [OF t g(1) st] g(3) by (simp add: Let_def)
  then show ?thesis using st unfolding stored_exactly_def by (metis prod.collapse word_unat_eq_iff)
qed

lemma opened_layout:
  assumes "reads_file a file"
    and "yvex_gguf_open_ex True platform (Some a) options = (Inr (result, view), fault)"
  shows "alignment_ok view" "length (g_tensors view) = unat (tensor_count (g_header view))"
    "file_size (g_stats view) = art_size a" "list_all (recorded view) (g_tensors view)"
    "unat (tensor_data_offset view) = align_up (unat (directory_end_offset (g_stats view))) (unat (alignment view))"
    "\<exists>mds. take (unat (directory_end_offset (g_stats view))) file =
        header_encoding (g_header view) @ concat mds @ concat (map tensor_encoding (g_tensors view)) \<and>
      list_all2 (encodes_entry (env_f32 platform)) (g_metadata view) mds"
proof -
  obtain v cur where v: "accepted (open_environment platform a options) file v cur"
    and view: "view = v\<lparr>g_stats := (cur_stats cur)\<lparr>payload_bytes_read := 0\<rparr>\<rparr>"
    by (rule open_accepted [OF assms])
  note parts = v [unfolded accepted_def]
  show "alignment_ok view" using parts alignment_ok_cong [of view v] by (simp add: view)
  show "length (g_tensors view) = unat (tensor_count (g_header view))" using parts by (simp add: view)
  show "file_size (g_stats view) = art_size a"
    using parts assms(1) by (simp add: view cursor_within_def reads_file_def word_unat_eq_iff)
  show "unat (tensor_data_offset view) = align_up (unat (directory_end_offset (g_stats view))) (unat (alignment view))"
    "\<exists>mds. take (unat (directory_end_offset (g_stats view))) file =
        header_encoding (g_header view) @ concat mds @ concat (map tensor_encoding (g_tensors view)) \<and>
      list_all2 (encodes_entry (env_f32 platform)) (g_metadata view) mds"
    using parts by (simp_all add: view)
  obtain ts where r: "list_all2 (ranged (unat (tensor_data_offset v)) (length file)) ts (g_tensors v)" using parts by blast
  show "list_all (recorded view) (g_tensors view)"
    unfolding list_all_iff
  proof
    fix t assume "t \<in> set (g_tensors view)"
    then have t: "t \<in> set (g_tensors v)" by (simp add: view)
    then obtain t0 where "ranged (unat (tensor_data_offset v)) (length file) t0 t"
      using r by (auto simp: list_all2_conv_all_nth in_set_conv_nth)
    moreover have "stored_exactly t" using accepted_directory(2) [OF v] t tensor_ok_stored by (auto simp: list_all_iff)
    ultimately show "recorded view t" using ranged_fields by (simp add: recorded_def view)
  qed
qed

text \<open>A successful validation, from its parts: the result before the tensors, and after them.\<close>

lemma layout_run:
  assumes reads: "reads_file a file" and g: "alignment_ok g" "length (g_tensors g) = unat (tensor_count (g_header g))"
    and run: "yvex_gguf_layout_validate True (Some a) (Some g) before after = Inr r"
  obtains admitted cursor validated spanned where
    "layout_admit_directory a g (layout_begun a g) = Inr admitted" "power_aligned (alignment g)"
    "loop_at a g file (tensor_count (g_header g)) 0 cursor validated"
    "tiled (unat (alignment g)) 0 (g_tensors g) (take (unat (lc_expected cursor)) (drop (unat (tensor_data_offset g)) file))"
    "accumulated (tile_raw (g_tensors g)) (tile_pads (unat (alignment g)) (g_tensors g)) admitted validated"
    "layout_close_span cursor validated = Inr spanned"
    "r = spanned\<lparr>lr_tensor_index := ULLONG_MAX, lr_tensor_name := [], lr_code := YVEX_GGUF_LAYOUT_OK,
       lr_accepted := True, lr_reason := ''canonical GGUF directory order, padded spans, and zero padding accepted''\<rparr>"
proof -
  let ?o = "layout_begun a g" and ?cur = "\<lparr>lc_expected = 0, lc_previous_start = 0, lc_previous_raw_end = 0\<rparr> :: layout_cursor"
  have out: "lr_alignment ?o = alignment g" "lr_tensor_count ?o = tensor_count (g_header g)" "lr_actual_file_size ?o = art_size a"
    by (simp_all add: layout_begun_def)
  obtain admitted cursor validated spanned where al: "layout_admit_alignment g ?o = Inr ()"
    and dir: "layout_admit_directory a g ?o = Inr admitted"
    and loop: "layout_tensor_loop (unat (lr_tensor_count admitted)) a g 0 ?cur admitted = Inr (cursor, validated)"
    and rest: "layout_close_span cursor validated = Inr spanned"
      "r = spanned\<lparr>lr_tensor_index := ULLONG_MAX, lr_tensor_name := [], lr_code := YVEX_GGUF_LAYOUT_OK,
       lr_accepted := True, lr_reason := ''canonical GGUF directory order, padded spans, and zero padding accepted''\<rparr>"
    using run unfolding layout_validate_iff by blast
  have pow: "power_aligned (alignment g)" using al admit_alignment_iff [OF g(1) out(1)] by blast
  note d = admit_directory_sound [OF reads pow out dir]
  have "loop_at a g file 0 (unat (lr_tensor_count admitted)) ?cur admitted"
    using d(1,3) g(2) by (simp add: loop_at_def ready_def)
  note ls = tensor_loop_sound [OF reads loop this]
  show thesis by (rule that [OF dir pow _ _ _ rest]) (use ls in simp_all)
qed

text \<open>What an accepted layout gives.\<close>

lemma layout_accepted:
  assumes reads: "reads_file a file" and g: "alignment_ok g" "length (g_tensors g) = unat (tensor_count (g_header g))"
    and run: "yvex_gguf_layout_validate True (Some a) (Some g) before after = Inr r"
  shows "zeros file (unat (directory_end_offset (g_stats g))) (unat (tensor_data_offset g) - unat (directory_end_offset (g_stats g)))"
    "tiled (unat (alignment g)) 0 (g_tensors g) (drop (unat (tensor_data_offset g)) file)"
    "power_aligned (alignment g)" "unat (tensor_data_offset g) \<le> length file" "lr_accepted r"
    "lr_padding_bytes_read r = lr_total_padding_bytes r"
    "unat (lr_directory_end r) + unat (lr_raw_tensor_bytes r) + unat (lr_total_padding_bytes r) = length file"
proof -
  let ?o = "layout_begun a g"
  let ?al = "unat (alignment g)" and ?data = "unat (tensor_data_offset g)" and ?dir = "unat (directory_end_offset (g_stats g))"
  obtain admitted cursor validated spanned where dir: "layout_admit_directory a g ?o = Inr admitted"
    and pow: "power_aligned (alignment g)" and at: "loop_at a g file (tensor_count (g_header g)) 0 cursor validated"
    and til: "tiled ?al 0 (g_tensors g) (take (unat (lc_expected cursor)) (drop ?data file))"
    and acc: "accumulated (tile_raw (g_tensors g)) (tile_pads ?al (g_tensors g)) admitted validated"
    and close: "layout_close_span cursor validated = Inr spanned"
    and r: "r = spanned\<lparr>lr_tensor_index := ULLONG_MAX, lr_tensor_name := [], lr_code := YVEX_GGUF_LAYOUT_OK,
       lr_accepted := True, lr_reason := ''canonical GGUF directory order, padded spans, and zero padding accepted''\<rparr>"
    by (rule layout_run [OF assms])
  show "power_aligned (alignment g)" by (rule pow)
  have out: "lr_alignment ?o = alignment g" "lr_tensor_count ?o = tensor_count (g_header g)" "lr_actual_file_size ?o = art_size a"
    "lr_directory_end ?o = directory_end_offset (g_stats g)" by (simp_all add: layout_begun_def)
  note d = admit_directory_sound [OF reads pow out(1,2,3) dir, unfolded out(4)]
  show "zeros file ?dir (?data - ?dir)" using d(4,5) by simp
  show within: "?data \<le> length file" by (rule d(3))
  have zero: "lr_raw_tensor_bytes admitted = 0" "lr_inter_tensor_padding_bytes admitted = 0" "lr_final_tensor_padding_bytes admitted = 0"
    "lr_padding_bytes_read admitted = lr_directory_padding_bytes admitted"
    "unat (lr_directory_padding_bytes admitted) = ?data - ?dir" "lr_directory_end admitted = directory_end_offset (g_stats g)"
    using d(4,6) by (auto simp: layout_begun_def layout_result_init_def)
  note cl = close [unfolded close_span_iff]
  have "?data + unat (lc_expected cursor) = length file"
    using cl at reads by (simp add: loop_at_def ready_def reads_file_def)
  then show tiles: "tiled ?al 0 (g_tensors g) (drop ?data file)" using til by simp
  have pads: "unat (lr_inter_tensor_padding_bytes validated) + unat (lr_final_tensor_padding_bytes validated) = tile_pads ?al (g_tensors g)"
    using acc zero(2,3) by (simp add: accumulated_def)
  have total: "lr_total_padding_bytes r = lr_directory_padding_bytes validated +
      (lr_inter_tensor_padding_bytes validated + lr_final_tensor_padding_bytes validated)"
    using cl by (simp add: r)
  have "lr_inter_tensor_padding_bytes validated + lr_final_tensor_padding_bytes validated = of_nat (tile_pads ?al (g_tensors g))"
    unfolding pads [symmetric] by simp
  then show "lr_padding_bytes_read r = lr_total_padding_bytes r"
    unfolding total using cl acc zero(4) by (simp add: r accumulated_def)
  show "lr_accepted r" by (simp add: r)
  have "unat (lr_total_padding_bytes r) = unat (lr_directory_padding_bytes validated) + tile_pads ?al (g_tensors g)"
    using cl pads by (simp add: r unat_add_no_wrap)
  moreover have "length (drop ?data file) = tile_raw (g_tensors g) + tile_pads ?al (g_tensors g)"
    using pow by (intro tiled_length [OF _ tiles]) (simp add: unat_gt_0)
  moreover have "?dir \<le> ?data" using align_up(2) d(2) pow by (simp add: unat_gt_0)
  ultimately show "unat (lr_directory_end r) + unat (lr_raw_tensor_bytes r) + unat (lr_total_padding_bytes r) = length file"
    using cl acc zero within by (simp add: r accumulated_def)
qed

lemma layout_complete:
  assumes serves: "serves_file a file" and small: "length file < 2 ^ 63" and kept: "identity_kept a before" "identity_kept a after"
    and g: "alignment_ok g" "length (g_tensors g) = unat (tensor_count (g_header g))" "file_size (g_stats g) = art_size a"
      "list_all (recorded g) (g_tensors g)"
      "unat (tensor_data_offset g) = align_up (unat (directory_end_offset (g_stats g))) (unat (alignment g))"
    and pow: "power_aligned (alignment g)" and within: "unat (tensor_data_offset g) \<le> length file"
    and zero: "zeros file (unat (directory_end_offset (g_stats g))) (unat (tensor_data_offset g) - unat (directory_end_offset (g_stats g)))"
    and tiles: "tiled (unat (alignment g)) 0 (g_tensors g) (drop (unat (tensor_data_offset g)) file)"
  shows "\<exists>r. yvex_gguf_layout_validate True (Some a) (Some g) before after = Inr r"
proof -
  let ?o = "layout_begun a g" and ?cur = "\<lparr>lc_expected = 0, lc_previous_start = 0, lc_previous_raw_end = 0\<rparr> :: layout_cursor"
  have out: "lr_alignment ?o = alignment g" "lr_tensor_count ?o = tensor_count (g_header g)" "lr_actual_file_size ?o = art_size a"
    "lr_directory_end ?o = directory_end_offset (g_stats g)" by (simp_all add: layout_begun_def)
  have reads: "reads_file a file" using serves by (simp add: serves_file_def)
  note served = serves_read_at [OF serves small]
  obtain admitted where dir: "layout_admit_directory a g ?o = Inr admitted"
    using admit_directory_complete [OF served reads small pow out(1,3)] g(5) within zero unfolding out(4) by blast
  note d = admit_directory_sound [OF reads pow out(1,2,3) dir, unfolded out(4)]
  have start: "lr_raw_tensor_bytes admitted = 0" "lr_inter_tensor_padding_bytes admitted = 0" "lr_final_tensor_padding_bytes admitted = 0"
    "unat (lr_directory_padding_bytes admitted) \<le> unat (tensor_data_offset g)"
    using d(4,6) by (auto simp: layout_begun_def layout_result_init_def)
  have at: "loop_at a g file 0 (unat (lr_tensor_count admitted)) ?cur admitted"
    using d(1,3) g(2) by (simp add: loop_at_def ready_def)
  obtain cursor validated where loop:
      "layout_tensor_loop (unat (lr_tensor_count admitted)) a g 0 ?cur admitted = Inr (cursor, validated)"
    using tensor_loop_complete [OF served reads small g(4) at] tiles start(1,2) by auto
  note ls = tensor_loop_sound [OF reads loop at]
  have pos: "0 < unat (alignment g)" using pow by (simp add: unat_gt_0)
  have len: "length (drop (unat (tensor_data_offset g)) file) = tile_raw (g_tensors g) + tile_pads (unat (alignment g)) (g_tensors g)"
    by (rule tiled_length [OF pos tiles])
  have fits: "unat (tensor_data_offset g) + unat (lc_expected cursor) \<le> length file" using ls by (simp add: loop_at_def)
  then have "unat (lc_expected cursor) = tile_raw (g_tensors g) + tile_pads (unat (alignment g)) (g_tensors g)"
    using tiled_length [OF pos] ls by fastforce
  then have ends: "unat (tensor_data_offset g) + unat (lc_expected cursor) = length file" using len within by simp
  have "\<exists>spanned. layout_close_span cursor validated = Inr spanned"
    unfolding close_span_iff using ls ends start len small within reads
    by (auto simp: loop_at_def ready_def accumulated_def reads_file_def)
  then show ?thesis
    unfolding layout_validate_iff using g(1,3) kept pow dir loop admit_alignment_iff [OF g(1) out(1)] by blast
qed

text \<open>The sample file is canonical, and its identity does not change.\<close>

definition sample_stat :: file_stat where
  "sample_stat = \<lparr>st_regular = True, st_dev = 0, st_ino = 0, st_size = 112, st_mtime = (0, 0), st_ctime = (0, 0)\<rparr>"

definition sample_identity :: identity_answers where
  "sample_identity = \<lparr>restat_open = Some sample_stat, reopen_path = 4, restat_path = Some sample_stat\<rparr>"

lemma sample_accepted:
  "case fst (yvex_gguf_open_ex True sample_platform (Some (memory_artifact sample_file)) None) of
     Inl _ \<Rightarrow> False
   | Inr (_, view) \<Rightarrow>
       \<not> isl (yvex_gguf_layout_validate True (Some (memory_artifact sample_file)) (Some view) sample_identity sample_identity)"
  by code_simp

lemma sample_layout:
  obtains result view fault r where
    "yvex_gguf_open_ex True sample_platform (Some (memory_artifact sample_file)) None = (Inr (result, view), fault)"
    "yvex_gguf_layout_validate True (Some (memory_artifact sample_file)) (Some view) sample_identity sample_identity = Inr r"
proof -
  obtain result view fault where run:
      "yvex_gguf_open_ex True sample_platform (Some (memory_artifact sample_file)) None = (Inr (result, view), fault)"
    using sample_opens by blast
  then have "\<not> isl (yvex_gguf_layout_validate True (Some (memory_artifact sample_file)) (Some view) sample_identity sample_identity)"
    using sample_accepted by simp
  then obtain r where
      "yvex_gguf_layout_validate True (Some (memory_artifact sample_file)) (Some view) sample_identity sample_identity = Inr r"
    by (metis isl_def sum.exhaust_sel)
  then show thesis using that run by blast
qed

section \<open>Properties\<close>

text \<open>
  (C36) Every byte of an accepted file is accounted for: the file is the encoding of the header, the
  metadata and the tensor records, then fewer zero bytes than the alignment, then the payloads of the
  tensors in directory order, each at its declared offset and padded with zeros to the alignment, and
  nothing else; the validation reads exactly the padding, and its totals add up to the file.
\<close>

theorem gguf_layout_accounts_for_file:
  assumes "reads_file a file"
    and "yvex_gguf_open_ex True platform (Some a) options = (Inr (result, view), fault)"
    and "yvex_gguf_layout_validate True (Some a) (Some view) before after = Inr r"
  shows "(\<exists>mds gap body. file = header_encoding (g_header view) @ concat mds @ concat (map tensor_encoding (g_tensors view)) @
        replicate gap 0 @ body \<and>
      list_all2 (encodes_entry (env_f32 platform)) (g_metadata view) mds \<and> gap < unat (alignment view) \<and>
      tiled (unat (alignment view)) 0 (g_tensors view) body \<and> length file = unat (tensor_data_offset view) + length body) \<and>
    lr_accepted r \<and> lr_padding_bytes_read r = lr_total_padding_bytes r \<and>
    unat (lr_directory_end r) + unat (lr_raw_tensor_bytes r) + unat (lr_total_padding_bytes r) = length file"
proof -
  note o = opened_layout [OF assms(1,2)] and l = layout_accepted [OF assms(1) opened_layout(1,2) [OF assms(1,2)] assms(3)]
  let ?dir = "unat (directory_end_offset (g_stats view))" and ?data = "unat (tensor_data_offset view)"
  have pos: "0 < unat (alignment view)" using l(3) by (simp add: unat_gt_0)
  obtain mds where enc: "take ?dir file =
      header_encoding (g_header view) @ concat mds @ concat (map tensor_encoding (g_tensors view))"
      "list_all2 (encodes_entry (env_f32 platform)) (g_metadata view) mds" using o(6) by blast
  have ge: "?dir \<le> ?data" "?data - ?dir < unat (alignment view)" using align_up(2,3) [OF pos, of ?dir] o(5) by simp_all
  have "file = take ?dir file @ take (?data - ?dir) (drop ?dir file) @ drop ?data file"
    using ge(1) by (metis append_take_drop_id drop_drop le_add_diff_inverse2)
  also have "take (?data - ?dir) (drop ?dir file) = replicate (?data - ?dir) 0" using l(1) by (simp add: zeros_def)
  finally have "file = header_encoding (g_header view) @ concat mds @ concat (map tensor_encoding (g_tensors view)) @
      replicate (?data - ?dir) 0 @ drop ?data file" unfolding enc(1) by simp
  moreover have "length file = ?data + length (drop ?data file)" using l(4) by simp
  ultimately show ?thesis using enc(2) ge(2) l(2,5,6,7) by blast
qed

theorem gguf_layout_accounts_for_file_witness:
  "\<exists>view body gap bytes r.
     yvex_gguf_layout_validate True (Some (memory_artifact sample_file)) (Some view) sample_identity sample_identity = Inr r \<and>
     sample_file = bytes @ replicate gap 0 @ body \<and> tiled (unat (alignment view)) 0 (g_tensors view) body"
proof -
  obtain result view fault r where run:
    "yvex_gguf_open_ex True sample_platform (Some (memory_artifact sample_file)) None = (Inr (result, view), fault)"
    "yvex_gguf_layout_validate True (Some (memory_artifact sample_file)) (Some view) sample_identity sample_identity = Inr r"
    by (rule sample_layout)
  from gguf_layout_accounts_for_file [OF sample_reads run] obtain mds gap body where
    "sample_file = (header_encoding (g_header view) @ concat mds @ concat (map tensor_encoding (g_tensors view))) @ replicate gap 0 @ body"
    "tiled (unat (alignment view)) 0 (g_tensors view) body" unfolding append_assoc by blast
  then show ?thesis using run(2) by blast
qed

text \<open>
  (C37) Canonical files are accepted: when the file serves its reads and keeps its identity, the
  validation of an opened view succeeds as soon as the alignment is a power of two, the directory is
  followed by zeros up to the data offset and the rest of the file is tiled by the tensors.
\<close>

theorem gguf_layout_accepts_canonical:
  assumes "serves_file a file" and "length file < 2 ^ 63" and "identity_kept a before" and "identity_kept a after"
    and "yvex_gguf_open_ex True platform (Some a) options = (Inr (result, view), fault)"
    and "unat (alignment view) = 2 ^ k" and "unat (tensor_data_offset view) \<le> length file"
    and "zeros file (unat (directory_end_offset (g_stats view)))
      (unat (tensor_data_offset view) - unat (directory_end_offset (g_stats view)))"
    and "tiled (unat (alignment view)) 0 (g_tensors view) (drop (unat (tensor_data_offset view)) file)"
  shows "\<exists>r. yvex_gguf_layout_validate True (Some a) (Some view) before after = Inr r \<and> lr_accepted r"
proof -
  have reads: "reads_file a file" using assms(1) by (simp add: serves_file_def)
  note o = opened_layout [OF reads assms(5)]
  obtain r where r: "yvex_gguf_layout_validate True (Some a) (Some view) before after = Inr r"
    using layout_complete [OF assms(1-4) o(1-5) power_align [OF assms(6)] assms(7-9)] by blast
  then show ?thesis using layout_accepted(5) [OF reads o(1,2)] by blast
qed

theorem gguf_layout_accepts_canonical_witness:
  "\<exists>view r. yvex_gguf_layout_validate True (Some (memory_artifact sample_file)) (Some view) sample_identity sample_identity = Inr r \<and>
     lr_accepted r"
proof -
  let ?a = "memory_artifact sample_file"
  obtain result view fault r where run:
    "yvex_gguf_open_ex True sample_platform (Some ?a) None = (Inr (result, view), fault)"
    "yvex_gguf_layout_validate True (Some ?a) (Some view) sample_identity sample_identity = Inr r"
    by (rule sample_layout)
  have len: "length sample_file = 112" by (simp add: sample_file_def)
  have serves: "serves_file ?a sample_file" by (rule memory_artifact_serves) (simp add: len)
  have kept: "identity_kept ?a sample_identity"
    by (simp add: identity_kept_def sample_identity_def sample_stat_def same_identity_def memory_artifact_def len snapshot_from_stat_def)
  note l = layout_accepted [OF sample_reads opened_layout(1,2) [OF sample_reads run(1)] run(2)]
  obtain k where k: "unat (alignment view) = 2 ^ k" using align_power l(3) by blast
  show ?thesis
    using gguf_layout_accepts_canonical [OF serves _ kept kept run(1) k l(4) l(1) l(2)] len by auto
qed

end
