(* ===== verification/Checked_Arrays.thy ===== *)
theory Checked_Arrays
  imports Yvex_Prelude
begin

text \<open>
  Arrays behind pointers, for code that indexes caller-owned memory.  A pointer to an array is \<open>None\<close>
  when null and otherwise the elements behind it.  An access that follows a null pointer or leaves the
  array is the value \<open>None\<close>, so that memory safety of a routine is the statement that it does not return
  \<open>None\<close>.  The loops over such arrays stop at the first failure or the first bad access.
\<close>

type_synonym 'a pointer = "'a list option"

definition load :: "'a pointer \<Rightarrow> nat \<Rightarrow> 'a option" where
  "load p i = (case p of None \<Rightarrow> None | Some xs \<Rightarrow> if i < length xs then Some (xs ! i) else None)"

definition store :: "'a pointer \<Rightarrow> nat \<Rightarrow> 'a \<Rightarrow> 'a pointer option" where
  "store p i v =
     (case p of None \<Rightarrow> None | Some xs \<Rightarrow> if i < length xs then Some (Some (xs[i := v])) else None)"

text \<open>Division by zero is undefined as well.\<close>

definition quotient :: "u64 \<Rightarrow> u64 \<Rightarrow> u64 option" where
  "quotient a b = (if b = 0 then None else Some (a div b))"

definition remainder :: "u64 \<Rightarrow> u64 \<Rightarrow> u64 option" where
  "remainder a b = (if b = 0 then None else Some (a mod b))"

lemma load_Some [simp]: "load (Some xs) i = (if i < length xs then Some (xs ! i) else None)"
  by (simp add: load_def)

lemma load_eq_Some: "load p i = Some v \<longleftrightarrow> (\<exists>xs. p = Some xs \<and> i < length xs \<and> v = xs ! i)"
  by (auto simp: load_def split: option.splits)

text \<open>\<^verbatim>\<open>for (i : is) if (!p(i)) return 0;\<close> followed by \<^verbatim>\<open>return 1;\<close>\<close>

fun all_checked :: "('i \<Rightarrow> bool option) \<Rightarrow> 'i list \<Rightarrow> bool option" where
  "all_checked p [] = Some True"
| "all_checked p (i # is) =
     (case p i of None \<Rightarrow> None | Some False \<Rightarrow> Some False | Some True \<Rightarrow> all_checked p is)"

lemma all_checked_True_iff: "all_checked p is = Some True \<longleftrightarrow> (\<forall>i \<in> set is. p i = Some True)"
  by (induction "is") (auto split: option.splits bool.splits)

text \<open>\<^verbatim>\<open>for (i : is) body(i)\<close>, where the body may return early from the function with \<open>Inl\<close>.\<close>

fun for_each :: "('i \<Rightarrow> 's \<Rightarrow> ('e + 's) option) \<Rightarrow> 'i list \<Rightarrow> 's \<Rightarrow> ('e + 's) option" where
  "for_each body [] s = Some (Inr s)"
| "for_each body (i # is) s =
     (case body i s of None \<Rightarrow> None | Some (Inl e) \<Rightarrow> Some (Inl e) | Some (Inr s') \<Rightarrow> for_each body is s')"

lemma for_each_append:
  "for_each body (is @ js) s =
     (case for_each body is s of None \<Rightarrow> None | Some (Inl e) \<Rightarrow> Some (Inl e)
      | Some (Inr s') \<Rightarrow> for_each body js s')"
  by (induction "is" arbitrary: s) (simp_all split: option.splits sum.splits)

lemma for_each_Cons_Inr:
  "for_each body (i # is) s = Some (Inr t) \<longleftrightarrow>
     (\<exists>u. body i s = Some (Inr u) \<and> for_each body is u = Some (Inr t))"
  by (auto split: option.splits sum.splits)

lemma for_each_append_Inr:
  "for_each body (is @ js) s = Some (Inr t) \<longleftrightarrow>
     (\<exists>u. for_each body is s = Some (Inr u) \<and> for_each body js u = Some (Inr t))"
  by (auto simp: for_each_append split: option.splits sum.splits)

text \<open>
  An output array of at least \<open>n\<close> cells that is filled from the front: its first cells are the images
  of the items emitted so far.
\<close>

definition filled :: "nat \<Rightarrow> 'b pointer \<Rightarrow> ('a \<Rightarrow> 'b) \<Rightarrow> 'a list \<Rightarrow> bool" where
  "filled n p f out \<longleftrightarrow>
     (\<exists>xs. p = Some xs \<and> n \<le> length xs \<and> length out \<le> n \<and> take (length out) xs = map f out)"

lemma filled_Nil: "p = Some xs \<Longrightarrow> n \<le> length xs \<Longrightarrow> filled n p f []"
  by (simp add: filled_def)

lemma filled_store:
  assumes "filled n p f out" "length out < n"
  shows "\<exists>p'. store p (length out) (f x) = Some p' \<and> filled n p' f (out @ [x])"
proof -
  obtain xs where "p = Some xs" "n \<le> length xs" "take (length out) xs = map f out"
    using assms(1) by (auto simp: filled_def)
  then show ?thesis
    using assms(2) take_list_update_append [of "length out" xs "f x"] by (auto simp: store_def filled_def)
qed

lemma filled_load: "filled n p f out \<Longrightarrow> i < length out \<Longrightarrow> load p i = Some (f (out ! i))"
  by (auto simp: filled_def) (metis nth_map nth_take)

lemma filled_take: "filled n (Some xs) f out \<Longrightarrow> take (length out) xs = map f out"
  by (simp add: filled_def)

end
