(* ===== verification/Execution_Batch.thy ===== *)
theory Execution_Batch
  imports Core_Sha256 Checked_Arrays
begin

text \<open>
  \<^verbatim>\<open>src/graph/worklist.c\<close>, first half: the execution batch and the worklist policy with their seals, the
  compatibility keys and the admission of widths.  Enumerations are kept as 32-bit numbers because the
  code checks their range; the identity fields are the texts of the fixed-size character arrays.  A
  function that takes an error pointer has an argument \<open>err\<close> saying whether the pointer is given: the
  code of a missing error is \<open>YVEX_OK\<close>, and that matters here.
\<close>

unbundle bit_operations_syntax

abbreviation (input) YVEX_EXECUTION_BATCH_SCHEMA_V3 :: u32 where "YVEX_EXECUTION_BATCH_SCHEMA_V3 \<equiv> 3"
abbreviation (input) YVEX_EXECUTION_COMPATIBILITY_SCHEMA_V3 :: u32 where
  "YVEX_EXECUTION_COMPATIBILITY_SCHEMA_V3 \<equiv> 3"
abbreviation (input) YVEX_EXPERT_WORKLIST_POLICY_SCHEMA_V3 :: u32 where
  "YVEX_EXPERT_WORKLIST_POLICY_SCHEMA_V3 \<equiv> 3"
abbreviation (input) YVEX_EXECUTION_PREFILL_MAXIMUM_WIDTH :: u64 where
  "YVEX_EXECUTION_PREFILL_MAXIMUM_WIDTH \<equiv> 2048"

abbreviation (input) YVEX_ENGINE_IMPLEMENTATION_DEVICE_MATRIX_TILE :: u32 where
  "YVEX_ENGINE_IMPLEMENTATION_DEVICE_MATRIX_TILE \<equiv> 3"
abbreviation (input) YVEX_ENGINE_IMPLEMENTATION_COUNT :: u32 where "YVEX_ENGINE_IMPLEMENTATION_COUNT \<equiv> 4"
abbreviation (input) YVEX_EXECUTION_PHASE_PREFILL :: u32 where "YVEX_EXECUTION_PHASE_PREFILL \<equiv> 0"
abbreviation (input) YVEX_EXECUTION_PHASE_VERIFY :: u32 where "YVEX_EXECUTION_PHASE_VERIFY \<equiv> 3"
abbreviation (input) YVEX_EXECUTION_PHASE_COUNT :: u32 where "YVEX_EXECUTION_PHASE_COUNT \<equiv> 7"
abbreviation (input) YVEX_EXECUTION_COMPATIBILITY_OPERATION_COUNT :: u32 where
  "YVEX_EXECUTION_COMPATIBILITY_OPERATION_COUNT \<equiv> 3"
abbreviation (input) YVEX_EXECUTION_BATCH_SINGLE_ROW :: u32 where "YVEX_EXECUTION_BATCH_SINGLE_ROW \<equiv> 0"
abbreviation (input) YVEX_EXECUTION_BATCH_SPECULATIVE_VERIFICATION :: u32 where
  "YVEX_EXECUTION_BATCH_SPECULATIVE_VERIFICATION \<equiv> 1"
abbreviation (input) YVEX_EXECUTION_BATCH_MULTI_SESSION :: u32 where
  "YVEX_EXECUTION_BATCH_MULTI_SESSION \<equiv> 2"
abbreviation (input) YVEX_EXECUTION_BATCH_PREFILL :: u32 where "YVEX_EXECUTION_BATCH_PREFILL \<equiv> 3"
abbreviation (input) YVEX_EXECUTION_BATCH_COMPILED_COMPATIBLE :: u32 where
  "YVEX_EXECUTION_BATCH_COMPILED_COMPATIBLE \<equiv> 4"

record yvex_execution_batch_source =
  src_execution_generation :: u64
  src_state_generation :: u64
  src_identity :: string

record yvex_execution_batch_row =
  row_source_index :: u64
  row_source_row :: u64
  row_sequence_position :: u64
  row_candidate_ordinal :: u64
  row_publication_ordinal :: u64
  row_candidate_present :: u32

record yvex_execution_batch =
  eb_schema_version :: u32
  eb_provenance :: u32
  eb_phase :: u32
  eb_row_count :: u64
  eb_source_count :: u64
  eb_engine_generation :: u64
  eb_sources :: "yvex_execution_batch_source pointer"
  eb_rows :: "yvex_execution_batch_row pointer"
  eb_execution_profile_identity :: string
  eb_operation_identity :: string
  eb_identity :: string

record yvex_execution_compatibility_key =
  ck_schema_version :: u32
  ck_phase :: u32
  ck_operation :: u32
  ck_backend_kind :: u32
  ck_tensor_scope :: u32
  ck_execution_class :: u32
  ck_engine_generation :: u64
  ck_layer_ordinal :: u64
  ck_row_width :: u64
  ck_admitted_width :: u64

record yvex_expert_worklist_policy =
  wp_schema_version :: u32
  supported_width_mask :: u64
  prefill_maximum_width :: u64
  matrix_tile_minimum :: u64
  row_implementation :: u32
  matrix_implementation :: u32
  wp_identity :: string

definition worklist_refuse :: "yvex_status \<Rightarrow> string \<Rightarrow> yvex_error" where
  "worklist_refuse status reason = refusal status ''graph.worklist'' reason"

definition worklist_identity_valid :: "string option \<Rightarrow> bool" where
  "worklist_identity_valid identity \<longleftrightarrow> identity \<noteq> None \<and> yvex_sha256_hex_valid identity"

section \<open>The batch\<close>

definition batch_source_valid :: "yvex_execution_batch \<Rightarrow> nat \<Rightarrow> bool option" where
  "batch_source_valid batch left =
     Option.bind (load (eb_sources batch) left) (\<lambda>source.
       if src_execution_generation source = 0 \<or> \<not> worklist_identity_valid (Some (src_identity source))
       then Some False
       else all_checked (\<lambda>right. Option.bind (load (eb_sources batch) right) (\<lambda>other.
           Some (src_identity source \<noteq> src_identity other)))
         [left + 1..<unat (eb_source_count batch)])"

definition batch_row_valid :: "yvex_execution_batch \<Rightarrow> nat \<Rightarrow> bool option" where
  "batch_row_valid batch left =
     Option.bind (load (eb_rows batch) left) (\<lambda>row.
       if row_source_index row \<ge> eb_source_count batch \<or>
          (row_candidate_present row = 0 \<and> row_candidate_ordinal row \<noteq> 0)
       then Some False
       else all_checked (\<lambda>right. Option.bind (load (eb_rows batch) right) (\<lambda>other.
           Some (\<not> (row_source_index row = row_source_index other \<and>
             row_source_row row = row_source_row other))))
         [left + 1..<unat (eb_row_count batch)])"

definition execution_batch_sources_valid :: "yvex_execution_batch \<Rightarrow> bool option" where
  "execution_batch_sources_valid batch =
     (if eb_source_count batch = 0 \<or> eb_source_count batch > eb_row_count batch \<or>
         eb_sources batch = None \<or> eb_rows batch = None \<or>
         (eb_provenance batch = YVEX_EXECUTION_BATCH_MULTI_SESSION \<and> eb_source_count batch < 2) \<or>
         (eb_provenance batch \<noteq> YVEX_EXECUTION_BATCH_MULTI_SESSION \<and> eb_source_count batch \<noteq> 1)
      then Some False
      else case all_checked (batch_source_valid batch) [0..<unat (eb_source_count batch)] of
        None \<Rightarrow> None
      | Some False \<Rightarrow> Some False
      | Some True \<Rightarrow> all_checked (batch_row_valid batch) [0..<unat (eb_row_count batch)])"

text \<open>The fields the hash absorbs; reading past an array gives no field list.\<close>

definition batch_source_fields :: "yvex_execution_batch_source \<Rightarrow> identity_field list" where
  "batch_source_fields source =
     [U64_field (src_execution_generation source), U64_field (src_state_generation source),
      Text_field (src_identity source)]"

definition batch_row_fields :: "yvex_execution_batch_row \<Rightarrow> identity_field list" where
  "batch_row_fields row =
     [U64_field (row_source_index row), U64_field (row_source_row row),
      U64_field (row_sequence_position row), U64_field (scast (row_candidate_present row)),
      U64_field (row_candidate_ordinal row), U64_field (row_publication_ordinal row)]"

fun load_fields :: "(nat \<Rightarrow> identity_field list option) \<Rightarrow> nat list \<Rightarrow> identity_field list option" where
  "load_fields f [] = Some []"
| "load_fields f (i # is) =
     Option.bind (f i) (\<lambda>fs. map_option ((@) fs) (load_fields f is))"

definition execution_batch_sources_hash :: "yvex_execution_batch \<Rightarrow> identity_field list option" where
  "execution_batch_sources_hash batch =
     Option.bind (load_fields (\<lambda>i. map_option batch_source_fields (load (eb_sources batch) i))
       [0..<unat (eb_source_count batch)]) (\<lambda>sources.
     map_option ((@) sources) (load_fields (\<lambda>i. map_option batch_row_fields (load (eb_rows batch) i))
       [0..<unat (eb_row_count batch)]))"

definition batch_incomplete :: "yvex_execution_batch \<Rightarrow> bool" where
  "batch_incomplete batch \<longleftrightarrow>
     eb_schema_version batch \<noteq> YVEX_EXECUTION_BATCH_SCHEMA_V3 \<or>
     eb_provenance batch > YVEX_EXECUTION_BATCH_COMPILED_COMPATIBLE \<or>
     eb_phase batch \<ge> YVEX_EXECUTION_PHASE_COUNT \<or>
     eb_row_count batch = 0 \<or>
     (eb_row_count batch \<ge> 64 \<and>
       (eb_provenance batch \<noteq> YVEX_EXECUTION_BATCH_PREFILL \<or>
        eb_row_count batch > YVEX_EXECUTION_PREFILL_MAXIMUM_WIDTH)) \<or>
     (eb_provenance batch = YVEX_EXECUTION_BATCH_SINGLE_ROW \<and> eb_row_count batch \<noteq> 1) \<or>
     (eb_provenance batch = YVEX_EXECUTION_BATCH_SPECULATIVE_VERIFICATION \<and>
       eb_phase batch \<noteq> YVEX_EXECUTION_PHASE_VERIFY) \<or>
     (eb_provenance batch = YVEX_EXECUTION_BATCH_MULTI_SESSION \<and> eb_row_count batch < 2) \<or>
     (eb_provenance batch = YVEX_EXECUTION_BATCH_PREFILL \<and>
       eb_phase batch \<noteq> YVEX_EXECUTION_PHASE_PREFILL) \<or>
     eb_engine_generation batch = 0"

definition batch_refused :: yvex_error where
  "batch_refused = worklist_refuse YVEX_ERR_INVALID_ARG
     ''execution batch identity or provenance is incomplete''"

definition yvex_execution_batch_seal ::
  "yvex_execution_batch option \<Rightarrow> yvex_execution_batch outcome option" where
  "yvex_execution_batch_seal batch =
     (case batch of None \<Rightarrow> Some (Inl batch_refused)
      | Some b \<Rightarrow>
        if batch_incomplete b then Some (Inl batch_refused)
        else Option.bind (execution_batch_sources_valid b) (\<lambda>valid.
          if \<not> valid \<or> \<not> worklist_identity_valid (Some (eb_execution_profile_identity b)) \<or>
             \<not> worklist_identity_valid (Some (eb_operation_identity b))
          then Some (Inl batch_refused)
          else Option.bind (execution_batch_sources_hash b) (\<lambda>rows.
            case sha256_identity
              ([Text_field ''yvex.execution-batch.v3'', U64_field (ucast (eb_schema_version b)),
                U64_field (ucast (eb_provenance b)), U64_field (ucast (eb_phase b)),
                U64_field (eb_row_count b), U64_field (eb_source_count b),
                U64_field (eb_engine_generation b)] @ rows @
               [Text_field (eb_execution_profile_identity b), Text_field (eb_operation_identity b)]) of
              None \<Rightarrow> Some (Inl (worklist_refuse YVEX_ERR_STATE ''execution batch identity derivation failed''))
            | Some identity \<Rightarrow> Some (Inr (b\<lparr>eb_identity := identity\<rparr>)))))"

text \<open>After a refused seal the code returns \<open>yvex_error_code(err)\<close>, the status in the error record.\<close>

definition refused_through :: "bool \<Rightarrow> yvex_error \<Rightarrow> unit outcome" where
  "refused_through err e =
     (if yvex_error_code (if err then Some e else None) = YVEX_OK then Inr () else Inl e)"

definition yvex_execution_batch_validate :: "bool \<Rightarrow> yvex_execution_batch option \<Rightarrow> unit outcome option" where
  "yvex_execution_batch_validate err batch =
     (case batch of
        None \<Rightarrow> Some (Inl (worklist_refuse YVEX_ERR_INVALID_ARG ''execution batch identity is unavailable''))
      | Some b \<Rightarrow>
        if \<not> worklist_identity_valid (Some (eb_identity b))
        then Some (Inl (worklist_refuse YVEX_ERR_INVALID_ARG ''execution batch identity is unavailable''))
        else map_option (\<lambda>sealed. case sealed of
            Inl e \<Rightarrow> refused_through err e
          | Inr expected \<Rightarrow>
              if eb_identity b \<noteq> eb_identity expected
              then Inl (worklist_refuse YVEX_ERR_FORMAT ''execution batch identity is stale'')
              else Inr ()) (yvex_execution_batch_seal (Some b)))"

section \<open>Compatibility keys\<close>

definition compatibility_key_incomplete :: "yvex_execution_compatibility_key \<Rightarrow> bool" where
  "compatibility_key_incomplete key \<longleftrightarrow>
     ck_schema_version key \<noteq> YVEX_EXECUTION_COMPATIBILITY_SCHEMA_V3 \<or>
     ck_phase key \<ge> YVEX_EXECUTION_PHASE_COUNT \<or>
     ck_operation key \<ge> YVEX_EXECUTION_COMPATIBILITY_OPERATION_COUNT \<or>
     ck_engine_generation key = 0 \<or> ck_row_width key = 0 \<or> ck_admitted_width key = 0 \<or>
     (ck_admitted_width key \<ge> 64 \<and>
       (ck_phase key \<noteq> YVEX_EXECUTION_PHASE_PREFILL \<or>
        ck_admitted_width key > YVEX_EXECUTION_PREFILL_MAXIMUM_WIDTH))"

definition yvex_execution_compatibility_key_validate ::
  "yvex_execution_compatibility_key option \<Rightarrow> unit outcome" where
  "yvex_execution_compatibility_key_validate key =
     (if (case key of None \<Rightarrow> True | Some k \<Rightarrow> compatibility_key_incomplete k)
      then Inl (worklist_refuse YVEX_ERR_INVALID_ARG
        ''execution compatibility geometry or engine handle is incomplete'')
      else Inr ())"

definition yvex_execution_compatibility_keys_match ::
  "yvex_execution_compatibility_key option \<Rightarrow> yvex_execution_compatibility_key option \<Rightarrow> bool outcome" where
  "yvex_execution_compatibility_keys_match left right =
     proceed (yvex_execution_compatibility_key_validate left) (\<lambda>_.
     proceed (yvex_execution_compatibility_key_validate right) (\<lambda>_.
     case (left, right) of
       (Some l, Some r) \<Rightarrow>
         Inr (ck_phase l = ck_phase r \<and> ck_operation l = ck_operation r \<and>
           ck_backend_kind l = ck_backend_kind r \<and> ck_tensor_scope l = ck_tensor_scope r \<and>
           ck_execution_class l = ck_execution_class r \<and>
           ck_engine_generation l = ck_engine_generation r \<and>
           ck_layer_ordinal l = ck_layer_ordinal r \<and> ck_row_width l = ck_row_width r \<and>
           ck_admitted_width l = ck_admitted_width r)
     | _ \<Rightarrow> Inr False))"

section \<open>The policy\<close>

definition policy_widths_incomplete :: "yvex_expert_worklist_policy \<Rightarrow> bool" where
  "policy_widths_incomplete policy \<longleftrightarrow>
     wp_schema_version policy \<noteq> YVEX_EXPERT_WORKLIST_POLICY_SCHEMA_V3 \<or>
     supported_width_mask policy AND 2 = 0 \<or>
     supported_width_mask policy AND 1 \<noteq> 0 \<or>
     drop_bit 63 (supported_width_mask policy) \<noteq> 0 \<or>
     (prefill_maximum_width policy \<noteq> 0 \<and>
       (prefill_maximum_width policy < 63 \<or>
        prefill_maximum_width policy > YVEX_EXECUTION_PREFILL_MAXIMUM_WIDTH \<or>
        supported_width_mask policy \<noteq> 0x7ffffffffffffffe)) \<or>
     row_implementation policy \<ge> YVEX_ENGINE_IMPLEMENTATION_COUNT"

definition policy_tile_inconsistent :: "yvex_expert_worklist_policy \<Rightarrow> bool" where
  "policy_tile_inconsistent policy \<longleftrightarrow>
     (let matrix_tile = matrix_tile_minimum policy \<noteq> 0 in
      matrix_tile \<noteq> (matrix_implementation policy \<noteq> YVEX_ENGINE_IMPLEMENTATION_COUNT) \<or>
      (matrix_tile \<and>
        (matrix_tile_minimum policy \<ge> 63 \<or>
         supported_width_mask policy AND push_bit (unat (matrix_tile_minimum policy)) 1 = 0 \<or>
         matrix_implementation policy \<noteq> YVEX_ENGINE_IMPLEMENTATION_DEVICE_MATRIX_TILE \<or>
         row_implementation policy = matrix_implementation policy)))"

definition yvex_expert_worklist_policy_seal ::
  "yvex_expert_worklist_policy option \<Rightarrow> yvex_expert_worklist_policy outcome" where
  "yvex_expert_worklist_policy_seal policy =
     (case policy of
        None \<Rightarrow> Inl (worklist_refuse YVEX_ERR_INVALID_ARG ''expert worklist width policy is incomplete'')
      | Some p \<Rightarrow>
        if policy_widths_incomplete p
        then Inl (worklist_refuse YVEX_ERR_INVALID_ARG ''expert worklist width policy is incomplete'')
        else if policy_tile_inconsistent p
        then Inl (worklist_refuse YVEX_ERR_INVALID_ARG ''expert matrix-tile width policy is inconsistent'')
        else case sha256_identity
            [Text_field ''yvex.expert-worklist-policy.v3'', U64_field (ucast (wp_schema_version p)),
             U64_field (supported_width_mask p), U64_field (prefill_maximum_width p),
             U64_field (matrix_tile_minimum p), U64_field (ucast (row_implementation p)),
             U64_field (ucast (matrix_implementation p))] of
          None \<Rightarrow> Inl (worklist_refuse YVEX_ERR_STATE
            ''expert worklist policy identity derivation failed'')
        | Some identity \<Rightarrow> Inr (p\<lparr>wp_identity := identity\<rparr>))"

definition yvex_expert_worklist_policy_validate ::
  "bool \<Rightarrow> yvex_expert_worklist_policy option \<Rightarrow> unit outcome" where
  "yvex_expert_worklist_policy_validate err policy =
     (case policy of
        None \<Rightarrow> Inl (worklist_refuse YVEX_ERR_INVALID_ARG
          ''expert worklist policy identity is unavailable'')
      | Some p \<Rightarrow>
        if wp_schema_version p \<noteq> YVEX_EXPERT_WORKLIST_POLICY_SCHEMA_V3 \<or>
           \<not> worklist_identity_valid (Some (wp_identity p))
        then Inl (worklist_refuse YVEX_ERR_INVALID_ARG ''expert worklist policy identity is unavailable'')
        else case yvex_expert_worklist_policy_seal (Some p) of
          Inl e \<Rightarrow> refused_through err e
        | Inr expected \<Rightarrow>
            if wp_identity p \<noteq> wp_identity expected
            then Inl (worklist_refuse YVEX_ERR_FORMAT ''expert worklist policy identity is stale'')
            else Inr ())"

definition yvex_expert_worklist_width_admitted ::
  "yvex_expert_worklist_policy option \<Rightarrow> u32 \<Rightarrow> u64 \<Rightarrow> bool" where
  "yvex_expert_worklist_width_admitted policy phase width =
     (case policy of None \<Rightarrow> False
      | Some p \<Rightarrow>
        if wp_schema_version p \<noteq> YVEX_EXPERT_WORKLIST_POLICY_SCHEMA_V3 \<or> width = 0 \<or>
           phase \<ge> YVEX_EXECUTION_PHASE_COUNT
        then False
        else if width < 63 then supported_width_mask p AND push_bit (unat width) 1 \<noteq> 0
        else phase = YVEX_EXECUTION_PHASE_PREFILL \<and> width \<le> prefill_maximum_width p \<and>
          prefill_maximum_width p \<le> YVEX_EXECUTION_PREFILL_MAXIMUM_WIDTH \<and>
          supported_width_mask p = 0x7ffffffffffffffe)"

section \<open>Validation\<close>

lemma refused_through_simps:
  "err_code e \<noteq> YVEX_OK \<Longrightarrow> refused_through True e = Inl e" "refused_through False e = Inr ()"
  by (simp_all add: refused_through_def yvex_error_code_def)

lemma worklist_identity_valid_iff:
  "worklist_identity_valid (Some t) \<longleftrightarrow> length t = 64 \<and> (\<forall>c \<in> set t. isxdigit c)"
  by (simp add: worklist_identity_valid_def hex_valid_iff)

lemma width_admitted_bounds:
  assumes "yvex_expert_worklist_width_admitted (Some p) phase width"
  shows "0 < unat width" "unat width \<le> 2048"
  using assms by (auto simp: yvex_expert_worklist_width_admitted_def word_less_nat_alt word_le_nat_alt unat_gt_0
      split: if_splits)

lemma batch_seal_error: "yvex_execution_batch_seal b = Some (Inl e) \<Longrightarrow> err_code e \<noteq> YVEX_OK"
  by (auto simp: yvex_execution_batch_seal_def worklist_refuse_def batch_refused_def bind_eq_Some_conv
      split: option.splits if_splits)

lemma policy_seal_error: "yvex_expert_worklist_policy_seal p = Inl e \<Longrightarrow> err_code e \<noteq> YVEX_OK"
  by (auto simp: yvex_expert_worklist_policy_seal_def worklist_refuse_def split: option.splits if_splits)

text \<open>
  The batch and the policy follow one contract: the validator compares the stored identity with that of a
  fresh seal, and a refused seal is reported through the error record.
\<close>

locale sealed_record =
  fixes seal :: "'a \<Rightarrow> 'a outcome option" and identity :: "'a \<Rightarrow> string" and admissible :: "'a \<Rightarrow> bool"
    and stale :: yvex_error and validate :: "bool \<Rightarrow> 'a \<Rightarrow> unit outcome option"
  assumes seal_error: "seal x = Some (Inl e) \<Longrightarrow> err_code e \<noteq> YVEX_OK"
    and stale_error: "err_code stale \<noteq> YVEX_OK"
    and validate_admissible: "admissible x \<Longrightarrow> validate err x =
      map_option (\<lambda>s. case s of Inl e \<Rightarrow> refused_through err e
        | Inr y \<Rightarrow> if identity x \<noteq> identity y then Inl stale else Inr ()) (seal x)"
    and validate_inadmissible: "\<not> admissible x \<Longrightarrow> \<exists>e. validate err x = Some (Inl e) \<and> err_code e \<noteq> YVEX_OK"
begin

lemma unsealed: "seal x = Some (Inl e) \<Longrightarrow> admissible x \<Longrightarrow> validate err x = Some (refused_through err e)"
  by (simp add: validate_admissible)

lemma accepted_admissible: "validate err x = Some (Inr ()) \<Longrightarrow> admissible x"
  using validate_inadmissible [of x err] by auto

text \<open>With an error record exactly the sealed records are accepted, without one also the unsealable ones.\<close>

lemma accepted_with_error:
  "validate True x = Some (Inr ()) \<longleftrightarrow> admissible x \<and> (\<exists>y. seal x = Some (Inr y) \<and> identity y = identity x)"
proof (cases "admissible x")
  case True
  then show ?thesis
    using seal_error [of x]
    by (cases "seal x"; cases "the (seal x)") (auto simp: validate_admissible refused_through_simps)
qed (use accepted_admissible in blast)

lemma accepted_without_error:
  "validate False x = Some (Inr ()) \<longleftrightarrow> admissible x \<and>
     ((\<exists>e. seal x = Some (Inl e)) \<or> (\<exists>y. seal x = Some (Inr y) \<and> identity y = identity x))"
proof (cases "admissible x")
  case True
  then show ?thesis
    by (cases "seal x"; cases "the (seal x)") (auto simp: validate_admissible refused_through_simps)
qed (use accepted_admissible in blast)

lemma accepted_status:
  assumes "validate err x = Some c" "outcome_status c = YVEX_OK"
  shows "c = Inr ()"
proof (cases c)
  case (Inl e)
  have "err_code e \<noteq> YVEX_OK"
  proof (cases "admissible x")
    case True
    then obtain s where "seal x = Some s" using assms(1) by (auto simp: validate_admissible)
    then show ?thesis using assms(1) True Inl seal_error stale_error
      by (cases s; cases err) (auto simp: validate_admissible refused_through_simps split: if_splits)
  next
    case False
    then show ?thesis using validate_inadmissible [of x err] assms(1) Inl by auto
  qed
  then show ?thesis using assms(2) Inl by simp
qed simp

end

abbreviation (input) batch_admissible :: "yvex_execution_batch \<Rightarrow> bool" where
  "batch_admissible b \<equiv> worklist_identity_valid (Some (eb_identity b))"

abbreviation (input) policy_admissible :: "yvex_expert_worklist_policy \<Rightarrow> bool" where
  "policy_admissible p \<equiv> wp_schema_version p = YVEX_EXPERT_WORKLIST_POLICY_SCHEMA_V3 \<and>
     worklist_identity_valid (Some (wp_identity p))"

interpretation batch: sealed_record "\<lambda>b. yvex_execution_batch_seal (Some b)" eb_identity batch_admissible
  "worklist_refuse YVEX_ERR_FORMAT ''execution batch identity is stale''"
  "\<lambda>err b. yvex_execution_batch_validate err (Some b)"
  by unfold_locales
    (simp_all add: batch_seal_error worklist_refuse_def yvex_execution_batch_validate_def)

interpretation policy: sealed_record "\<lambda>p. Some (yvex_expert_worklist_policy_seal (Some p))" wp_identity
  policy_admissible "worklist_refuse YVEX_ERR_FORMAT ''expert worklist policy identity is stale''"
  "\<lambda>err p. Some (yvex_expert_worklist_policy_validate err (Some p))"
  by unfold_locales
    (auto simp: policy_seal_error worklist_refuse_def yvex_expert_worklist_policy_validate_def)

end
