(* ===== verification/Expert_Worklist.thy ===== *)
theory Expert_Worklist
  imports Execution_Batch
begin

text \<open>
  \<^verbatim>\<open>src/graph/worklist.c\<close>, second half: the worklist groups the routed pairs of a batch by expert.  The
  builder makes one pass over the pairs for each expert and writes the caller's arrays, the validator
  checks a worklist against its request, and observations are added up.  Weights are the bits of 32-bit
  floats.  A result \<open>None\<close> is undefined behaviour: an access outside an array or through a null pointer, or a
  division by zero.
\<close>

unbundle bit_operations_syntax

abbreviation (input) YVEX_EXPERT_WORKLIST_SCHEMA_V1 :: u32 where "YVEX_EXPERT_WORKLIST_SCHEMA_V1 \<equiv> 1"
abbreviation (input) YVEX_EXPERT_WORKLIST_OBSERVATION_SCHEMA_V1 :: u32 where
  "YVEX_EXPERT_WORKLIST_OBSERVATION_SCHEMA_V1 \<equiv> 1"
abbreviation (input) YVEX_EXPERT_WORKLIST_HISTOGRAM_CAP :: nat where "YVEX_EXPERT_WORKLIST_HISTOGRAM_CAP \<equiv> 17"

record yvex_expert_worklist_request =
  rq_schema_version :: u32
  rq_batch :: "yvex_execution_batch option"
  rq_policy :: "yvex_expert_worklist_policy option"
  rq_expert_count :: u64
  rq_experts_per_row :: u64
  rq_pair_count :: u64
  rq_selected_experts :: "u64 pointer"
  rq_route_weights :: "u32 pointer"

record yvex_expert_worklist_storage =
  st_expert_ids :: "u64 pointer"
  st_bucket_offsets :: "u64 pointer"
  st_bucket_populations :: "u64 pointer"
  st_source_pairs :: "u64 pointer"
  st_source_rows :: "u64 pointer"
  st_destination_rows :: "u64 pointer"
  st_route_weights :: "u32 pointer"
  st_bucket_capacity :: u64
  st_pair_capacity :: u64

record yvex_expert_worklist =
  wl_schema_version :: u32
  wl_provenance :: u32
  wl_phase :: u32
  wl_actual_width :: u64
  wl_expert_count :: u64
  wl_pair_count :: u64
  wl_bucket_count :: u64
  wl_maximum_bucket_population :: u64
  wl_admitted_tile_width :: u64
  wl_matrix_tile_eligible_pairs :: u64
  wl_narrow_pairs :: u64
  wl_tail_rows :: u64
  wl_expert_ids :: "u64 pointer"
  wl_bucket_offsets :: "u64 pointer"
  wl_bucket_populations :: "u64 pointer"
  wl_source_pairs :: "u64 pointer"
  wl_source_rows :: "u64 pointer"
  wl_destination_rows :: "u64 pointer"
  wl_route_weights :: "u32 pointer"
  wl_population_histogram :: "u64 list"
  wl_batch_identity :: string
  wl_policy_identity :: string
  wl_identity :: string

definition worklist_zero :: yvex_expert_worklist where
  "worklist_zero =
     \<lparr>wl_schema_version = 0, wl_provenance = 0, wl_phase = 0, wl_actual_width = 0, wl_expert_count = 0,
      wl_pair_count = 0, wl_bucket_count = 0, wl_maximum_bucket_population = 0, wl_admitted_tile_width = 0,
      wl_matrix_tile_eligible_pairs = 0, wl_narrow_pairs = 0, wl_tail_rows = 0, wl_expert_ids = None,
      wl_bucket_offsets = None, wl_bucket_populations = None, wl_source_pairs = None, wl_source_rows = None,
      wl_destination_rows = None, wl_route_weights = None,
      wl_population_histogram = replicate YVEX_EXPERT_WORKLIST_HISTOGRAM_CAP 0,
      wl_batch_identity = [], wl_policy_identity = [], wl_identity = []\<rparr>"

section \<open>The builder\<close>

text \<open>
  The conjuncts of the request check after the two validations: geometry, pointers and capacities.  The
  validations themselves get no error record.
\<close>

definition worklist_geometry_valid ::
  "yvex_expert_worklist_request \<Rightarrow> yvex_execution_batch \<Rightarrow> yvex_expert_worklist_storage \<Rightarrow> bool" where
  "worklist_geometry_valid request batch storage \<longleftrightarrow>
     rq_expert_count request \<noteq> 0 \<and> rq_expert_count request \<le> 256 \<and>
     rq_experts_per_row request \<noteq> 0 \<and> rq_experts_per_row request \<le> rq_expert_count request \<and>
     yvex_expert_worklist_width_admitted (rq_policy request) (eb_phase batch) (eb_row_count batch) \<and>
     checked_mul (eb_row_count batch) (rq_experts_per_row request) = Some (rq_pair_count request) \<and>
     rq_selected_experts request \<noteq> None \<and> rq_route_weights request \<noteq> None \<and>
     st_expert_ids storage \<noteq> None \<and> st_bucket_offsets storage \<noteq> None \<and>
     st_bucket_populations storage \<noteq> None \<and> st_source_pairs storage \<noteq> None \<and>
     st_source_rows storage \<noteq> None \<and> st_destination_rows storage \<noteq> None \<and>
     st_route_weights storage \<noteq> None \<and>
     st_bucket_capacity storage \<ge> rq_expert_count request \<and>
     st_pair_capacity storage \<ge> rq_pair_count request"

definition worklist_request_valid ::
  "yvex_expert_worklist_request option \<Rightarrow> yvex_expert_worklist_storage option \<Rightarrow> bool option" where
  "worklist_request_valid request storage =
     (case (request, storage) of
        (Some r, Some s) \<Rightarrow>
          (if rq_schema_version r \<noteq> YVEX_EXPERT_WORKLIST_SCHEMA_V1 \<or> rq_policy r = None then Some False
           else case rq_batch r of None \<Rightarrow> Some False
             | Some batch \<Rightarrow>
               map_option (\<lambda>checked. outcome_status checked = YVEX_OK \<and>
                   outcome_status (yvex_expert_worklist_policy_validate False (rq_policy r)) = YVEX_OK \<and>
                   worklist_geometry_valid r batch s)
                 (yvex_execution_batch_validate False (Some batch)))
      | _ \<Rightarrow> Some False)"

lemma unat_half_less: "(x :: u64) div 2 \<noteq> 0 \<Longrightarrow> unat (x div 2) < unat x"
  by (cases "x = 0") (simp_all add: unat_div unat_gt_0)

text \<open>\<^verbatim>\<open>while (mask >>= 1u) width++;\<close>\<close>

function maximum_width_loop :: "u64 \<Rightarrow> u64 \<Rightarrow> u64" where
  "maximum_width_loop bits width =
     (let bits = drop_bit 1 bits in if bits \<noteq> 0 then maximum_width_loop bits (width + 1) else width)"
  by pat_completeness auto
termination
  by (relation "measure (unat \<circ> fst)") (simp_all add: drop_bit_Suc unat_half_less)

declare maximum_width_loop.simps [simp del]

definition worklist_maximum_width :: "u64 \<Rightarrow> u64" where
  "worklist_maximum_width width_mask = maximum_width_loop width_mask 0"

definition isfinite :: "u32 \<Rightarrow> bool" where
  "isfinite bits \<longleftrightarrow> bits AND 0x7f800000 \<noteq> 0x7f800000"

text \<open>The four stores of one routed pair.\<close>

definition emit_pair ::
  "yvex_expert_worklist_request \<Rightarrow> nat \<Rightarrow> u32 \<Rightarrow> nat \<Rightarrow> yvex_expert_worklist_storage \<Rightarrow>
     yvex_expert_worklist_storage option" where
  "emit_pair request pair weight cursor storage =
     Option.bind (store (st_source_pairs storage) cursor (of_nat pair)) (\<lambda>pairs.
     Option.bind (quotient (of_nat pair) (rq_experts_per_row request)) (\<lambda>row.
     Option.bind (store (st_source_rows storage) cursor row) (\<lambda>rows.
     Option.bind (store (st_destination_rows storage) cursor (of_nat pair)) (\<lambda>destinations.
     Option.bind (store (st_route_weights storage) cursor weight) (\<lambda>weights.
     Some (storage\<lparr>st_source_pairs := pairs, st_source_rows := rows, st_destination_rows := destinations,
       st_route_weights := weights\<rparr>))))))"

text \<open>One iteration of the loop over the pairs; its state is the cursor, the population and the storage.\<close>

definition route_pair ::
  "yvex_expert_worklist_request \<Rightarrow> nat \<Rightarrow> nat \<Rightarrow> nat \<times> nat \<times> yvex_expert_worklist_storage \<Rightarrow>
     (yvex_error \<times> yvex_expert_worklist_storage + nat \<times> nat \<times> yvex_expert_worklist_storage) option" where
  "route_pair request expert pair = (\<lambda>(cursor, population, storage).
     Option.bind (load (rq_route_weights request) pair) (\<lambda>weight.
     Option.bind (load (rq_selected_experts request) pair) (\<lambda>chosen.
     if chosen \<ge> rq_expert_count request \<or> \<not> isfinite weight
     then Some (Inl (worklist_refuse YVEX_ERR_FORMAT ''routed pair has an invalid expert or weight'', storage))
     else if chosen \<noteq> of_nat expert then Some (Inr (cursor, population, storage))
     else map_option (\<lambda>storage. Inr (cursor + 1, population + 1, storage))
       (emit_pair request pair weight cursor storage))))"

text \<open>The statistics of a populated bucket.\<close>

definition account_bucket ::
  "yvex_expert_worklist_policy \<Rightarrow> u64 \<Rightarrow> u64 \<Rightarrow> yvex_expert_worklist \<Rightarrow> yvex_expert_worklist option" where
  "account_bucket policy maximum_width population worklist =
     (let worklist = (if population > wl_maximum_bucket_population worklist
            then worklist\<lparr>wl_maximum_bucket_population := population\<rparr> else worklist);
          slot = (if population < of_nat YVEX_EXPERT_WORKLIST_HISTOGRAM_CAP then unat population
            else YVEX_EXPERT_WORKLIST_HISTOGRAM_CAP - 1);
          histogram = wl_population_histogram worklist;
          worklist = worklist\<lparr>wl_population_histogram := histogram[slot := histogram ! slot + 1]\<rparr>
      in if matrix_tile_minimum policy \<noteq> 0 \<and> population \<ge> matrix_tile_minimum policy
         then map_option (\<lambda>rest. worklist\<lparr>wl_matrix_tile_eligible_pairs :=
               wl_matrix_tile_eligible_pairs worklist + population,
             wl_tail_rows := wl_tail_rows worklist + (if rest \<noteq> 0 then maximum_width - rest else 0)\<rparr>)
           (remainder population maximum_width)
         else Some worklist)"

record worklist_run =
  run_cursor :: nat
  run_bucket :: nat
  run_storage :: yvex_expert_worklist_storage
  run_worklist :: yvex_expert_worklist

text \<open>One iteration of the loop over the experts.\<close>

definition route_expert ::
  "yvex_expert_worklist_request \<Rightarrow> yvex_expert_worklist_policy \<Rightarrow> u64 \<Rightarrow> nat \<Rightarrow> worklist_run \<Rightarrow>
     (yvex_error \<times> worklist_run + worklist_run) option" where
  "route_expert request policy maximum_width expert run =
     (case for_each (route_pair request expert) [0..<unat (rq_pair_count request)]
         (run_cursor run, 0, run_storage run) of
        None \<Rightarrow> None
      | Some (Inl (e, storage)) \<Rightarrow> Some (Inl (e, run\<lparr>run_storage := storage\<rparr>))
      | Some (Inr (cursor, population, storage)) \<Rightarrow>
          if population = 0 then Some (Inr (run\<lparr>run_cursor := cursor, run_storage := storage\<rparr>))
          else
            Option.bind (store (st_expert_ids storage) (run_bucket run) (of_nat expert)) (\<lambda>ids.
            Option.bind (store (st_bucket_offsets storage) (run_bucket run) (of_nat (run_cursor run))) (\<lambda>offsets.
            Option.bind (store (st_bucket_populations storage) (run_bucket run) (of_nat population)) (\<lambda>populations.
            Option.bind (account_bucket policy maximum_width (of_nat population) (run_worklist run)) (\<lambda>worklist.
            Some (Inr (run\<lparr>run_cursor := cursor, run_bucket := run_bucket run + 1,
              run_storage := storage\<lparr>st_expert_ids := ids, st_bucket_offsets := offsets,
                st_bucket_populations := populations\<rparr>,
              run_worklist := worklist\<rparr>)))))))"

text \<open>Sealing reads everything the worklist points to.\<close>

definition worklist_bucket_fields :: "yvex_expert_worklist \<Rightarrow> nat \<Rightarrow> identity_field list option" where
  "worklist_bucket_fields worklist bucket =
     Option.bind (load (wl_expert_ids worklist) bucket) (\<lambda>expert.
     Option.bind (load (wl_bucket_offsets worklist) bucket) (\<lambda>offset.
     Option.bind (load (wl_bucket_populations worklist) bucket) (\<lambda>population.
     Some [U64_field expert, U64_field offset, U64_field population])))"

definition worklist_pair_fields :: "yvex_expert_worklist \<Rightarrow> nat \<Rightarrow> identity_field list option" where
  "worklist_pair_fields worklist pair =
     Option.bind (load (wl_route_weights worklist) pair) (\<lambda>weight_bits.
     Option.bind (load (wl_source_pairs worklist) pair) (\<lambda>source_pair.
     Option.bind (load (wl_source_rows worklist) pair) (\<lambda>source_row.
     Option.bind (load (wl_destination_rows worklist) pair) (\<lambda>destination.
     Some [U64_field source_pair, U64_field source_row, U64_field destination,
       U64_field (ucast weight_bits)]))))"

definition worklist_seal ::
  "yvex_expert_worklist_request \<Rightarrow> yvex_expert_worklist \<Rightarrow> yvex_expert_worklist option option" where
  "worklist_seal request worklist =
     Option.bind (load_fields (worklist_bucket_fields worklist) [0..<unat (wl_bucket_count worklist)]) (\<lambda>buckets.
     Option.bind (load (wl_bucket_offsets worklist) (unat (wl_bucket_count worklist))) (\<lambda>last_offset.
     Option.bind (load_fields (worklist_pair_fields worklist) [0..<unat (rq_pair_count request)]) (\<lambda>pairs.
     Some (map_option (\<lambda>identity. worklist\<lparr>wl_identity := identity\<rparr>) (sha256_identity
       ([Text_field ''yvex.expert-worklist.v1'', Text_field (wl_batch_identity worklist),
         Text_field (wl_policy_identity worklist), U64_field (wl_actual_width worklist),
         U64_field (wl_expert_count worklist), U64_field (wl_pair_count worklist),
         U64_field (wl_bucket_count worklist), U64_field (wl_maximum_bucket_population worklist)] @
        buckets @ [U64_field last_offset] @ pairs))))))"

section \<open>The validator\<close>

text \<open>\<^verbatim>\<open>seen\<close> is the array that \<open>yvex_core_calloc\<close> returned.\<close>

definition check_pair ::
  "yvex_expert_worklist_request \<Rightarrow> yvex_expert_worklist \<Rightarrow> u64 \<Rightarrow> nat \<Rightarrow> bool list \<Rightarrow> bool list outcome option" where
  "check_pair request worklist expert position seen =
     (let bad = Some (Inl (worklist_refuse YVEX_ERR_FORMAT ''expert worklist pair mapping is not exact''))
      in Option.bind (load (wl_source_pairs worklist) position) (\<lambda>pair.
         if pair \<ge> rq_pair_count request then bad
         else Option.bind (load (Some seen) (unat pair)) (\<lambda>again.
         if again then bad
         else Option.bind (load (rq_selected_experts request) (unat pair)) (\<lambda>chosen.
         if chosen \<noteq> expert then bad
         else Option.bind (load (wl_source_rows worklist) position) (\<lambda>row.
         Option.bind (quotient pair (rq_experts_per_row request)) (\<lambda>expected_row.
         if row \<noteq> expected_row then bad
         else Option.bind (load (wl_destination_rows worklist) position) (\<lambda>destination.
         if destination \<noteq> pair then bad
         else Option.bind (load (wl_route_weights worklist) position) (\<lambda>weight.
         Option.bind (load (rq_route_weights request) (unat pair)) (\<lambda>expected_weight.
         if weight \<noteq> expected_weight then bad
         else Some (Inr (seen[unat pair := True])))))))))))"

definition check_bucket ::
  "yvex_expert_worklist_request \<Rightarrow> yvex_expert_worklist \<Rightarrow> nat \<Rightarrow> u64 \<times> bool list \<Rightarrow>
     (u64 \<times> bool list) outcome option" where
  "check_bucket request worklist bucket = (\<lambda>(populations, seen).
     Option.bind (load (wl_expert_ids worklist) bucket) (\<lambda>expert.
     Option.bind (load (wl_bucket_offsets worklist) bucket) (\<lambda>start.
     Option.bind (load (wl_bucket_offsets worklist) (bucket + 1)) (\<lambda>stop.
     Option.bind (load (wl_bucket_populations worklist) bucket) (\<lambda>population.
     Option.bind (if bucket \<noteq> 0 \<and> expert < rq_expert_count request
         then map_option (\<lambda>previous. expert \<le> previous) (load (wl_expert_ids worklist) (bucket - 1))
         else Some False) (\<lambda>unordered.
     if expert \<ge> rq_expert_count request \<or> unordered \<or> stop < start \<or> stop - start \<noteq> population \<or>
        population = 0
     then Some (Inl (worklist_refuse YVEX_ERR_FORMAT ''expert worklist bucket is malformed''))
     else map_option (map_sum id (Pair (populations + population)))
       (for_each (check_pair request worklist expert) [unat start..<unat stop] seen)))))))"

definition worklist_structure_invalid ::
  "yvex_expert_worklist_request \<Rightarrow> yvex_execution_batch \<Rightarrow> yvex_expert_worklist_policy \<Rightarrow> yvex_expert_worklist \<Rightarrow> bool" where
  "worklist_structure_invalid request batch policy worklist \<longleftrightarrow>
     wl_policy_identity worklist \<noteq> wp_identity policy \<or>
     wl_actual_width worklist \<noteq> eb_row_count batch \<or>
     wl_bucket_count worklist = 0 \<or> wl_bucket_count worklist > rq_expert_count request \<or>
     wl_pair_count worklist \<noteq> rq_pair_count request \<or> wl_expert_ids worklist = None \<or>
     wl_bucket_offsets worklist = None \<or> wl_bucket_populations worklist = None \<or>
     wl_source_pairs worklist = None \<or> wl_source_rows worklist = None \<or>
     wl_destination_rows worklist = None \<or> wl_route_weights worklist = None"

text \<open>
  \<open>alloc_ok\<close> is the answer of the allocation.  The batch and policy of the request are dereferenced
  without a test once the schema and identity of the worklist have been accepted.
\<close>

definition yvex_expert_worklist_validate ::
  "bool \<Rightarrow> yvex_expert_worklist_request option \<Rightarrow> yvex_expert_worklist option \<Rightarrow> unit outcome option" where
  "yvex_expert_worklist_validate alloc_ok request worklist =
     (let invalid = Some (Inl (worklist_refuse YVEX_ERR_INVALID_ARG
        ''expert worklist structure or identity is invalid''))
      in case (request, worklist) of
        (Some r, Some w) \<Rightarrow>
          (if wl_schema_version w \<noteq> YVEX_EXPERT_WORKLIST_SCHEMA_V1 \<or>
              \<not> worklist_identity_valid (Some (wl_identity w))
           then invalid
           else Option.bind (rq_batch r) (\<lambda>batch.
             if wl_batch_identity w \<noteq> eb_identity batch then invalid
             else Option.bind (rq_policy r) (\<lambda>policy.
             if worklist_structure_invalid r batch policy w then invalid
             else Option.bind (load (wl_bucket_offsets w) 0) (\<lambda>first_offset.
             if first_offset \<noteq> 0 then invalid
             else Option.bind (load (wl_bucket_offsets w) (unat (wl_bucket_count w))) (\<lambda>last_offset.
             if last_offset \<noteq> rq_pair_count r then invalid
             else if \<not> alloc_ok
             then Some (Inl (worklist_refuse YVEX_ERR_NOMEM ''expert worklist validation allocation failed''))
             else map_option (\<lambda>checked. proceed checked (\<lambda>(populations, seen).
                 if populations \<noteq> rq_pair_count r
                 then Inl (worklist_refuse YVEX_ERR_FORMAT ''expert worklist population sum is incomplete'')
                 else Inr ()))
               (for_each (check_bucket r w) [0..<unat (wl_bucket_count w)]
                 (0, replicate (unat (rq_pair_count r)) False)))))))
      | _ \<Rightarrow> invalid)"

text \<open>The builder.\<close>

definition worklist_finish ::
  "yvex_expert_worklist_request \<Rightarrow> yvex_execution_batch \<Rightarrow> yvex_expert_worklist_policy \<Rightarrow> u64 \<Rightarrow>
     worklist_run \<Rightarrow> yvex_expert_worklist" where
  "worklist_finish request batch policy maximum_width run =
     (let storage = run_storage run; worklist = run_worklist run in
      worklist\<lparr>wl_schema_version := YVEX_EXPERT_WORKLIST_SCHEMA_V1, wl_provenance := eb_provenance batch,
        wl_phase := eb_phase batch, wl_actual_width := eb_row_count batch,
        wl_expert_count := rq_expert_count request, wl_pair_count := rq_pair_count request,
        wl_bucket_count := of_nat (run_bucket run), wl_admitted_tile_width := maximum_width,
        wl_narrow_pairs := rq_pair_count request - wl_matrix_tile_eligible_pairs worklist,
        wl_expert_ids := st_expert_ids storage, wl_bucket_offsets := st_bucket_offsets storage,
        wl_bucket_populations := st_bucket_populations storage, wl_source_pairs := st_source_pairs storage,
        wl_source_rows := st_source_rows storage, wl_destination_rows := st_destination_rows storage,
        wl_route_weights := st_route_weights storage,
        wl_batch_identity := the (yvex_core_text_copy (Some []) 65 (Some (eb_identity batch))),
        wl_policy_identity := the (yvex_core_text_copy (Some []) 65 (Some (wp_identity policy)))\<rparr>)"

text \<open>
  The whole call: the status with the worklist and the storage as they are afterwards.  An early return
  leaves the statistics of the buckets finished so far in a worklist without schema and pointers.
\<close>

definition worklist_admitted_width :: "yvex_execution_batch \<Rightarrow> yvex_expert_worklist_policy \<Rightarrow> u64" where
  "worklist_admitted_width batch policy =
     (let maximum_width = worklist_maximum_width (supported_width_mask policy)
      in if eb_phase batch = YVEX_EXECUTION_PHASE_PREFILL \<and> prefill_maximum_width policy > maximum_width
         then prefill_maximum_width policy else maximum_width)"

definition worklist_conclude ::
  "bool \<Rightarrow> yvex_expert_worklist_request \<Rightarrow> yvex_execution_batch \<Rightarrow> yvex_expert_worklist_policy \<Rightarrow> worklist_run \<Rightarrow>
     (unit outcome \<times> yvex_expert_worklist \<times> yvex_expert_worklist_storage) option" where
  "worklist_conclude alloc_ok request batch policy run =
     Option.bind (store (st_bucket_offsets (run_storage run)) (run_bucket run) (of_nat (run_cursor run)))
       (\<lambda>offsets.
        let storage = (run_storage run)\<lparr>st_bucket_offsets := offsets\<rparr>;
            worklist = worklist_finish request batch policy (worklist_admitted_width batch policy)
              (run\<lparr>run_storage := storage\<rparr>)
        in if of_nat (run_cursor run) \<noteq> rq_pair_count request
           then Some (Inl (worklist_refuse YVEX_ERR_STATE ''expert worklist did not emit every routed pair''),
             run_worklist run, storage)
           else Option.bind (worklist_seal request worklist) (\<lambda>sealed.
             case sealed of
               None \<Rightarrow> Some (Inl (worklist_refuse YVEX_ERR_STATE ''expert worklist identity derivation failed''),
                 worklist, storage)
             | Some w \<Rightarrow> map_option (\<lambda>checked. (checked, w, storage))
                 (yvex_expert_worklist_validate alloc_ok (Some request) (Some w))))"

definition yvex_expert_worklist_build ::
  "bool \<Rightarrow> yvex_expert_worklist_request option \<Rightarrow> yvex_expert_worklist_storage option \<Rightarrow>
     yvex_expert_worklist option \<Rightarrow>
     (unit outcome \<times> yvex_expert_worklist option \<times> yvex_expert_worklist_storage option) option" where
  "yvex_expert_worklist_build alloc_ok request storage worklist =
     (let zeroed = map_option (\<lambda>_. worklist_zero) worklist;
          invalid = Some (Inl (worklist_refuse YVEX_ERR_INVALID_ARG
            ''expert worklist request or storage is invalid''), zeroed, storage)
      in if worklist = None then invalid
      else Option.bind (worklist_request_valid request storage) (\<lambda>valid.
      if \<not> valid then invalid
      else
        Option.bind request (\<lambda>r. Option.bind storage (\<lambda>s.
        Option.bind (rq_batch r) (\<lambda>batch. Option.bind (rq_policy r) (\<lambda>policy.
        Option.bind (for_each (route_expert r policy (worklist_admitted_width batch policy))
            [0..<unat (rq_expert_count r)]
            \<lparr>run_cursor = 0, run_bucket = 0, run_storage = s, run_worklist = worklist_zero\<rparr>) (\<lambda>routed.
        case routed of
          Inl (e, run) \<Rightarrow> Some (Inl e, Some (run_worklist run), Some (run_storage run))
        | Inr run \<Rightarrow>
            map_option (\<lambda>(status, w, st). (status, Some w, Some st))
              (worklist_conclude alloc_ok r batch policy run))))))))"

section \<open>Routing identity and observations\<close>

definition yvex_expert_worklist_routing_identity ::
  "string option \<Rightarrow> string option \<Rightarrow> string option \<Rightarrow> bool \<Rightarrow> string outcome" where
  "yvex_expert_worklist_routing_identity batch_identity policy_identity routing_identity output_given =
     (if \<not> worklist_identity_valid batch_identity \<or> \<not> worklist_identity_valid policy_identity \<or>
         \<not> worklist_identity_valid routing_identity \<or> \<not> output_given
      then Inl (worklist_refuse YVEX_ERR_INVALID_ARG ''expert worklist routing identities are incomplete'')
      else case sha256_identity [Text_field ''yvex.expert-worklist-routing.v1'',
          Text_field (the batch_identity), Text_field (the policy_identity), Text_field (the routing_identity)] of
        None \<Rightarrow> Inl (worklist_refuse YVEX_ERR_STATE
          ''expert worklist routing identity derivation failed'')
      | Some output \<Rightarrow> Inr output)"

record yvex_expert_worklist_observation =
  ob_schema_version :: u32
  ob_worklist_count :: u64
  ob_pair_count :: u64
  ob_bucket_count :: u64
  ob_maximum_bucket_population :: u64
  ob_matrix_tile_eligible_pairs :: u64
  ob_matrix_tile_executed_pairs :: u64
  ob_narrow_pairs :: u64
  ob_tail_rows :: u64
  ob_width_histogram :: "u64 list"
  ob_population_histogram :: "u64 list"
  ob_provenance_counts :: "u64 list"

text \<open>
  The histograms are arrays inside the structure, lists of their fixed lengths 17, 17 and 5.  Sums and
  element-wise sums stop at the first overflow.
\<close>

fun checked_sum :: "u64 \<Rightarrow> u64 list \<Rightarrow> u64 option" where
  "checked_sum acc [] = Some acc"
| "checked_sum acc (x # xs) = Option.bind (checked_add acc x) (\<lambda>acc. checked_sum acc xs)"

fun checked_sums :: "u64 list \<Rightarrow> u64 list \<Rightarrow> u64 list option" where
  "checked_sums (x # xs) (y # ys) =
     Option.bind (checked_add x y) (\<lambda>z. map_option ((#) z) (checked_sums xs ys))"
| "checked_sums _ _ = Some []"

definition observation_incomplete :: "yvex_expert_worklist_observation \<Rightarrow> bool" where
  "observation_incomplete delta \<longleftrightarrow>
     ob_schema_version delta \<noteq> YVEX_EXPERT_WORKLIST_OBSERVATION_SCHEMA_V1 \<or>
     ob_worklist_count delta = 0 \<or> ob_pair_count delta = 0 \<or> ob_bucket_count delta = 0 \<or>
     ob_maximum_bucket_population delta = 0 \<or>
     checked_add (ob_matrix_tile_eligible_pairs delta) (ob_narrow_pairs delta) \<noteq> Some (ob_pair_count delta)"

definition observation_counters_add ::
  "yvex_expert_worklist_observation \<Rightarrow> yvex_expert_worklist_observation \<Rightarrow>
     yvex_expert_worklist_observation option" where
  "observation_counters_add candidate delta =
     Option.bind (checked_add (ob_worklist_count candidate) (ob_worklist_count delta)) (\<lambda>worklists.
     Option.bind (checked_add (ob_pair_count candidate) (ob_pair_count delta)) (\<lambda>pairs.
     Option.bind (checked_add (ob_bucket_count candidate) (ob_bucket_count delta)) (\<lambda>buckets.
     Option.bind (checked_add (ob_matrix_tile_eligible_pairs candidate)
       (ob_matrix_tile_eligible_pairs delta)) (\<lambda>eligible.
     Option.bind (checked_add (ob_matrix_tile_executed_pairs candidate)
       (ob_matrix_tile_executed_pairs delta)) (\<lambda>executed.
     Option.bind (checked_add (ob_narrow_pairs candidate) (ob_narrow_pairs delta)) (\<lambda>narrow.
     Option.bind (checked_add (ob_tail_rows candidate) (ob_tail_rows delta)) (\<lambda>tail.
     Some (candidate\<lparr>ob_worklist_count := worklists, ob_pair_count := pairs, ob_bucket_count := buckets,
       ob_matrix_tile_eligible_pairs := eligible, ob_matrix_tile_executed_pairs := executed,
       ob_narrow_pairs := narrow, ob_tail_rows := tail\<rparr>))))))))"

definition yvex_expert_worklist_observation_add ::
  "yvex_expert_worklist_observation option \<Rightarrow> yvex_expert_worklist_observation option \<Rightarrow>
     yvex_expert_worklist_observation outcome" where
  "yvex_expert_worklist_observation_add facts delta =
     (case (facts, delta) of
        (Some f, Some d) \<Rightarrow>
          (if observation_incomplete d
           then Inl (worklist_refuse YVEX_ERR_INVALID_ARG ''expert worklist observation is incomplete'')
           else case (checked_sum 0 (ob_width_histogram d), checked_sum 0 (ob_population_histogram d)) of
             (Some widths, Some populations) \<Rightarrow>
               (case checked_sum 0 (ob_provenance_counts d) of
                  None \<Rightarrow> Inl (worklist_refuse YVEX_ERR_BOUNDS ''expert worklist provenance overflowed'')
                | Some provenances \<Rightarrow>
                  if widths \<noteq> ob_worklist_count d \<or> populations \<noteq> ob_bucket_count d \<or>
                     provenances \<noteq> ob_worklist_count d
                  then Inl (worklist_refuse YVEX_ERR_FORMAT ''expert worklist observation histograms diverge'')
                  else
                    let candidate = (if ob_schema_version f = 0
                      then f\<lparr>ob_schema_version := YVEX_EXPERT_WORKLIST_OBSERVATION_SCHEMA_V1\<rparr> else f)
                    in case (if ob_schema_version candidate \<noteq> YVEX_EXPERT_WORKLIST_OBSERVATION_SCHEMA_V1
                        then None else observation_counters_add candidate d) of
                      None \<Rightarrow> Inl (worklist_refuse YVEX_ERR_BOUNDS
                        ''expert worklist observation counters overflowed'')
                    | Some candidate \<Rightarrow>
                      (case (checked_sums (ob_width_histogram candidate) (ob_width_histogram d),
                          checked_sums (ob_population_histogram candidate) (ob_population_histogram d)) of
                         (Some widths, Some populations) \<Rightarrow>
                           (case checked_sums (ob_provenance_counts candidate) (ob_provenance_counts d) of
                              None \<Rightarrow> Inl (worklist_refuse YVEX_ERR_BOUNDS
                                ''expert worklist provenance aggregation overflowed'')
                            | Some provenances \<Rightarrow>
                                Inr (candidate\<lparr>ob_maximum_bucket_population :=
                                    max (ob_maximum_bucket_population candidate) (ob_maximum_bucket_population d),
                                  ob_width_histogram := widths, ob_population_histogram := populations,
                                  ob_provenance_counts := provenances\<rparr>))
                       | _ \<Rightarrow> Inl (worklist_refuse YVEX_ERR_BOUNDS
                           ''expert worklist observation aggregation overflowed'')))
           | _ \<Rightarrow> Inl (worklist_refuse YVEX_ERR_BOUNDS
               ''expert worklist observation histogram overflowed''))
      | _ \<Rightarrow> Inl (worklist_refuse YVEX_ERR_INVALID_ARG ''expert worklist observation is incomplete''))"

lemma checked_sum_exact: "checked_sum acc xs = Some s \<Longrightarrow> unat s = unat acc + sum_list (map unat xs)"
  by (induction xs arbitrary: acc) (auto simp: bind_eq_Some_conv dest: unat_checked_add)

lemma checked_sums_exact: "checked_sums xs ys = Some zs \<Longrightarrow> map unat zs = map2 (+) (map unat xs) (map unat ys)"
  by (induction xs ys arbitrary: zs rule: checked_sums.induct) (auto simp: bind_eq_Some_conv dest: unat_checked_add)

end
