(* ===== verification/Worklist_Validation.thy ===== *)
theory Worklist_Validation
  imports Expert_Worklist
begin

text \<open>
  What the validator of expert worklists decides.  Each loop is characterised exactly: the pair loop
  accepts the positions whose entries are the routed pair they name and that name no pair twice, the
  bucket loop accepts consecutive ranges of such positions, and together they accept exactly the
  worklists that list every routed pair once, grouped by expert.
\<close>

section \<open>Pairs\<close>

definition source_at :: "yvex_expert_worklist \<Rightarrow> nat \<Rightarrow> nat" where
  "source_at w position = unat (the (load (wl_source_pairs w) position))"

definition pair_exact :: "yvex_expert_worklist_request \<Rightarrow> yvex_expert_worklist \<Rightarrow> u64 \<Rightarrow> nat \<Rightarrow> bool" where
  "pair_exact r w expert position \<longleftrightarrow>
     (\<exists>pair weight. load (wl_source_pairs w) position = Some pair \<and> pair < rq_pair_count r \<and>
        load (rq_selected_experts r) (unat pair) = Some expert \<and> rq_experts_per_row r \<noteq> 0 \<and>
        load (wl_source_rows w) position = Some (pair div rq_experts_per_row r) \<and>
        load (wl_destination_rows w) position = Some pair \<and>
        load (wl_route_weights w) position = Some weight \<and>
        load (rq_route_weights r) (unat pair) = Some weight)"

lemma pair_exact_source: "pair_exact r w expert position \<Longrightarrow> source_at w position < unat (rq_pair_count r)"
  by (auto simp: pair_exact_def source_at_def word_less_nat_alt)

lemma check_pair_Inr:
  assumes "length seen = unat (rq_pair_count r)"
  shows "check_pair r w expert position seen = Some (Inr seen') \<longleftrightarrow>
    pair_exact r w expert position \<and> \<not> seen ! source_at w position \<and>
    seen' = seen[source_at w position := True]"
proof (cases "load (wl_source_pairs w) position")
  case None
  then show ?thesis by (simp add: check_pair_def pair_exact_def Let_def)
next
  case (Some pair)
  show ?thesis
  proof (cases "pair < rq_pair_count r")
    case False
    then have "rq_pair_count r \<le> pair" by simp
    then show ?thesis using Some False by (simp add: check_pair_def pair_exact_def Let_def)
  next
    case True
    then have "load (Some seen) (unat pair) = Some (seen ! unat pair)"
      using assms by (simp add: word_less_nat_alt)
    then show ?thesis using Some True
      by (auto simp: check_pair_def pair_exact_def source_at_def Let_def quotient_def bind_eq_Some_conv
          simp del: load_Some split: if_splits)
  qed
qed

text \<open>The marks a run of the pair loop leaves.\<close>

definition marked :: "bool list \<Rightarrow> nat list \<Rightarrow> bool list" where
  "marked seen ps = foldl (\<lambda>seen p. seen[p := True]) seen ps"

lemma length_marked [simp]: "length (marked seen ps) = length seen"
  by (induction ps arbitrary: seen) (simp_all add: marked_def)

lemma marked_simps [simp]: "marked seen [] = seen" "marked seen (p # ps) = marked (seen[p := True]) ps"
  "marked seen (ps @ qs) = marked (marked seen ps) qs"
  by (simp_all add: marked_def)

lemma nth_marked: "i < length seen \<Longrightarrow> marked seen ps ! i \<longleftrightarrow> seen ! i \<or> i \<in> set ps"
proof (induction ps arbitrary: seen)
  case (Cons p ps)
  then show ?case by (cases "i = p") simp_all
qed simp

lemma check_pairs_Inr:
  assumes "length seen = unat (rq_pair_count r)"
  shows "for_each (check_pair r w expert) ps seen = Some (Inr seen') \<longleftrightarrow>
    (\<forall>p \<in> set ps. pair_exact r w expert p) \<and> distinct (map (source_at w) ps) \<and>
    (\<forall>p \<in> set ps. \<not> seen ! source_at w p) \<and> seen' = marked seen (map (source_at w) ps)"
  using assms
proof (induction ps arbitrary: seen)
  case Nil
  then show ?case by auto
next
  case (Cons p ps)
  let ?s = "seen[source_at w p := True]"
  have *: "for_each (check_pair r w expert) (p # ps) seen = Some (Inr seen') \<longleftrightarrow>
      pair_exact r w expert p \<and> \<not> seen ! source_at w p \<and>
      for_each (check_pair r w expert) ps ?s = Some (Inr seen')"
    using check_pair_Inr [OF Cons.prems] by (auto simp: for_each_Cons_Inr simp del: for_each.simps)
  show ?case
  proof (cases "pair_exact r w expert p")
    case True
    then have "source_at w p < length seen" using pair_exact_source Cons.prems by simp
    then have unseen: "(\<forall>q \<in> set ps. \<not> ?s ! source_at w q) \<longleftrightarrow>
        source_at w p \<notin> source_at w ` set ps \<and> (\<forall>q \<in> set ps. \<not> seen ! source_at w q)"
      by (auto simp: nth_list_update)
    have "length ?s = unat (rq_pair_count r)" using Cons.prems by simp
    from Cons.IH [OF this] show ?thesis unfolding * unseen using True by auto
  qed (use * in auto)
qed

section \<open>Buckets\<close>

definition offset_at :: "yvex_expert_worklist \<Rightarrow> nat \<Rightarrow> nat" where
  "offset_at w bucket = unat (the (load (wl_bucket_offsets w) bucket))"

definition bucket_exact :: "yvex_expert_worklist_request \<Rightarrow> yvex_expert_worklist \<Rightarrow> nat \<Rightarrow> bool" where
  "bucket_exact r w bucket \<longleftrightarrow>
     (\<exists>expert start stop. load (wl_expert_ids w) bucket = Some expert \<and>
        load (wl_bucket_offsets w) bucket = Some start \<and> load (wl_bucket_offsets w) (bucket + 1) = Some stop \<and>
        load (wl_bucket_populations w) bucket = Some (stop - start) \<and> start < stop \<and>
        expert < rq_expert_count r \<and>
        (bucket \<noteq> 0 \<longrightarrow> (\<exists>previous. load (wl_expert_ids w) (bucket - 1) = Some previous \<and> previous < expert)) \<and>
        (\<forall>position \<in> {unat start..<unat stop}. pair_exact r w expert position))"

lemma bucket_exact_offsets: "bucket_exact r w b \<Longrightarrow> offset_at w b < offset_at w (Suc b)"
  by (auto simp: bucket_exact_def offset_at_def word_less_nat_alt)

lemma bucket_exact_source:
  "bucket_exact r w b \<Longrightarrow> p \<in> {offset_at w b..<offset_at w (Suc b)} \<Longrightarrow> source_at w p < unat (rq_pair_count r)"
  by (auto simp: bucket_exact_def offset_at_def intro: pair_exact_source)

lemma nonempty_range_iff: "\<not> (stop :: u64) < start \<and> stop - start \<noteq> 0 \<longleftrightarrow> start < stop"
  by (auto simp: not_less)

lemma bucket_accepted_iff:
  assumes "\<not> stop < start \<and> stop - start \<noteq> 0 \<longleftrightarrow> start < (stop :: u64)"
  shows "Option.bind unordered (\<lambda>u. if expert \<ge> (experts :: u64) \<or> u \<or> stop < start \<or> stop - start \<noteq> population \<or>
        population = 0 then Some (Inl e) else map_option (map_sum id (Pair p)) loop) = Some (Inr (p', seen')) \<longleftrightarrow>
    expert < experts \<and> unordered = Some False \<and> start < stop \<and> population = stop - start \<and> p' = p \<and>
    loop = Some (Inr seen')"
proof (cases "unordered = Some False \<and> expert < experts \<and> start < stop \<and> population = stop - start")
  case True
  moreover have "\<not> stop < start" "stop - start \<noteq> 0" "\<not> expert \<ge> experts" using True assms by (blast, blast, auto)
  ultimately have "Option.bind unordered (\<lambda>u. if expert \<ge> experts \<or> u \<or> stop < start \<or>
      stop - start \<noteq> population \<or> population = 0 then Some (Inl e) else map_option (map_sum id (Pair p)) loop) =
      map_option (map_sum id (Pair p)) loop" by simp
  then show ?thesis using True by (cases loop) (auto simp: map_sum_def split: sum.splits)
next
  case False
  then show ?thesis using assms by (cases unordered) auto
qed

lemma check_bucket_Inr:
  assumes "length seen = unat (rq_pair_count r)"
  shows "check_bucket r w b (populations, seen) = Some (Inr (populations', seen')) \<longleftrightarrow>
    bucket_exact r w b \<and> distinct (map (source_at w) [offset_at w b..<offset_at w (Suc b)]) \<and>
    (\<forall>p \<in> {offset_at w b..<offset_at w (Suc b)}. \<not> seen ! source_at w p) \<and>
    populations' = populations + (of_nat (offset_at w (Suc b)) - of_nat (offset_at w b)) \<and>
    seen' = marked seen (map (source_at w) [offset_at w b..<offset_at w (Suc b)])"
proof (cases "load (wl_expert_ids w) b = None \<or> load (wl_bucket_offsets w) b = None \<or>
    load (wl_bucket_offsets w) (Suc b) = None \<or> load (wl_bucket_populations w) b = None")
  case True
  then show ?thesis by (auto simp: check_bucket_def bucket_exact_def)
next
  case False
  then obtain expert start stop population where
    l: "load (wl_expert_ids w) b = Some expert" "load (wl_bucket_offsets w) b = Some start"
      "load (wl_bucket_offsets w) (Suc b) = Some stop" "load (wl_bucket_populations w) b = Some population"
    by auto
  define unordered where "unordered = (if b \<noteq> 0 \<and> expert < rq_expert_count r
      then map_option (\<lambda>previous. expert \<le> previous) (load (wl_expert_ids w) (b - 1)) else Some False)"
  have ord: "expert < rq_expert_count r \<and> unordered = Some False \<longleftrightarrow> expert < rq_expert_count r \<and>
      (b \<noteq> 0 \<longrightarrow> (\<exists>previous. load (wl_expert_ids w) (b - 1) = Some previous \<and> previous < expert))"
    by (cases "load (wl_expert_ids w) (b - 1)") (auto simp: unordered_def)
  have exact: "bucket_exact r w b \<longleftrightarrow> expert < rq_expert_count r \<and> unordered = Some False \<and> start < stop \<and>
      population = stop - start \<and> (\<forall>p \<in> {unat start..<unat stop}. pair_exact r w expert p)"
    using ord l by (auto simp: bucket_exact_def)
  let ?loop = "for_each (check_pair r w expert) [unat start..<unat stop] seen"
  have body: "check_bucket r w b (populations, seen) = Option.bind unordered (\<lambda>u.
      if expert \<ge> rq_expert_count r \<or> u \<or> stop < start \<or> stop - start \<noteq> population \<or> population = 0
      then Some (Inl (worklist_refuse YVEX_ERR_FORMAT ''expert worklist bucket is malformed''))
      else map_option (map_sum id (Pair (populations + population))) ?loop)"
    using l by (simp add: check_bucket_def unordered_def)
  have "check_bucket r w b (populations, seen) = Some (Inr (populations', seen')) \<longleftrightarrow>
      expert < rq_expert_count r \<and> unordered = Some False \<and> start < stop \<and> population = stop - start \<and>
      populations' = populations + population \<and> ?loop = Some (Inr seen')"
    unfolding body using nonempty_range_iff [of stop start] by (rule bucket_accepted_iff)
  then show ?thesis
    using check_pairs_Inr [OF assms, of w expert "[unat start..<unat stop]" seen'] exact l
    by (auto simp: offset_at_def)
qed

lemma buckets_offsets_mono:
  "(\<forall>b < k. bucket_exact r w b) \<Longrightarrow> i \<le> j \<Longrightarrow> j \<le> k \<Longrightarrow> offset_at w i \<le> offset_at w j"
proof (induction j)
  case (Suc j)
  then show ?case using bucket_exact_offsets [of r w j] by (cases "i = Suc j") auto
qed simp

lemma buckets_source:
  "(\<forall>b < k. bucket_exact r w b) \<Longrightarrow> offset_at w 0 = 0 \<Longrightarrow> p < offset_at w k \<Longrightarrow>
     source_at w p < unat (rq_pair_count r)"
proof (induction k)
  case (Suc k)
  then show ?case using bucket_exact_source [of r w k p] by (cases "p < offset_at w k") auto
qed simp

lemma check_buckets_Inr:
  assumes "offset_at w 0 = 0"
  shows "for_each (check_bucket r w) [0..<k] (0, replicate (unat (rq_pair_count r)) False) =
      Some (Inr (populations, seen)) \<longleftrightarrow>
    (\<forall>b < k. bucket_exact r w b) \<and> distinct (map (source_at w) [0..<offset_at w k]) \<and>
    populations = of_nat (offset_at w k) \<and>
    seen = marked (replicate (unat (rq_pair_count r)) False) (map (source_at w) [0..<offset_at w k])"
proof (induction k arbitrary: populations seen)
  case 0
  then show ?case using assms by auto
next
  case (Suc k)
  let ?zero = "replicate (unat (rq_pair_count r)) False" and ?o = "offset_at w k" and ?o' = "offset_at w (Suc k)"
  let ?ps = "map (source_at w) [0..<?o]" and ?qs = "map (source_at w) [?o..<?o']"
  have len: "length (marked ?zero ?ps) = unat (rq_pair_count r)" by simp
  have "for_each (check_bucket r w) [0..<Suc k] (0, ?zero) = Some (Inr (populations, seen)) \<longleftrightarrow>
      (\<forall>b < k. bucket_exact r w b) \<and> distinct ?ps \<and>
      check_bucket r w k (of_nat ?o, marked ?zero ?ps) = Some (Inr (populations, seen))"
    using Suc.IH by (auto simp: for_each_append_Inr for_each_Cons_Inr simp del: for_each.simps(2))
  also have "\<dots> \<longleftrightarrow> (\<forall>b < Suc k. bucket_exact r w b) \<and> distinct ?ps \<and> distinct ?qs \<and>
      (\<forall>p \<in> {?o..<?o'}. \<not> marked ?zero ?ps ! source_at w p) \<and> populations = of_nat ?o' \<and>
      seen = marked ?zero (?ps @ ?qs)"
    unfolding check_bucket_Inr [OF len] by (auto simp: less_Suc_eq)
  also have "\<dots> \<longleftrightarrow> (\<forall>b < Suc k. bucket_exact r w b) \<and> distinct (?ps @ ?qs) \<and> populations = of_nat ?o' \<and>
      seen = marked ?zero (?ps @ ?qs)"
    (is "?B \<and> ?d \<and> ?e \<and> ?unseen \<and> ?rest \<longleftrightarrow> _")
  proof (cases ?B)
    case True
    then have "marked ?zero ?ps ! source_at w p \<longleftrightarrow> source_at w p \<in> set ?ps" if "p \<in> {?o..<?o'}" for p
      using bucket_exact_source [of r w k p] that by (simp add: nth_marked)
    then have "?unseen \<longleftrightarrow> (\<forall>p \<in> {?o..<?o'}. source_at w p \<notin> set ?ps)" by blast
    also have "\<dots> \<longleftrightarrow> set ?ps \<inter> source_at w ` {?o..<?o'} = {}" by blast
    finally have "?unseen \<longleftrightarrow> set ?ps \<inter> set ?qs = {}" by simp
    then show ?thesis by auto
  qed blast
  finally show ?case
  proof (rule trans)
    have "[0..<?o] @ [?o..<?o'] = [0..<?o']" if "bucket_exact r w k"
      using bucket_exact_offsets [OF that] upt_add_eq_append [of 0 ?o "?o' - ?o"] by simp
    then have "?ps @ ?qs = map (source_at w) [0..<?o']" if "bucket_exact r w k"
      using that by (simp only: map_append [symmetric])
    then show "((\<forall>b < Suc k. bucket_exact r w b) \<and> distinct (?ps @ ?qs) \<and> populations = of_nat ?o' \<and>
        seen = marked ?zero (?ps @ ?qs)) \<longleftrightarrow> (\<forall>b < Suc k. bucket_exact r w b) \<and>
        distinct (map (source_at w) [0..<?o']) \<and> populations = of_nat ?o' \<and>
        seen = marked ?zero (map (source_at w) [0..<?o'])"
      by (metis lessI)
  qed
qed

section \<open>The validator\<close>

definition worklist_bound ::
  "yvex_expert_worklist_request \<Rightarrow> yvex_expert_worklist \<Rightarrow> yvex_execution_batch \<Rightarrow> yvex_expert_worklist_policy \<Rightarrow> bool" where
  "worklist_bound r w batch policy \<longleftrightarrow>
     wl_schema_version w = YVEX_EXPERT_WORKLIST_SCHEMA_V1 \<and> worklist_identity_valid (Some (wl_identity w)) \<and>
     rq_batch r = Some batch \<and> wl_batch_identity w = eb_identity batch \<and> rq_policy r = Some policy \<and>
     \<not> worklist_structure_invalid r batch policy w \<and> load (wl_bucket_offsets w) 0 = Some 0 \<and>
     load (wl_bucket_offsets w) (unat (wl_bucket_count w)) = Some (rq_pair_count r)"

lemma worklist_validate_bound:
  "yvex_expert_worklist_validate alloc_ok (Some r) (Some w) = Some (Inr ()) \<Longrightarrow>
     \<exists>batch policy. worklist_bound r w batch policy \<and> alloc_ok"
  by (auto simp: yvex_expert_worklist_validate_def worklist_bound_def Let_def bind_eq_Some_conv split: if_splits)

lemma worklist_validate_loop:
  assumes "worklist_bound r w batch policy"
  shows "yvex_expert_worklist_validate True (Some r) (Some w) =
    map_option (\<lambda>checked. proceed checked (\<lambda>(populations, seen).
        if populations \<noteq> rq_pair_count r
        then Inl (worklist_refuse YVEX_ERR_FORMAT ''expert worklist population sum is incomplete'')
        else Inr ()))
      (for_each (check_bucket r w) [0..<unat (wl_bucket_count w)] (0, replicate (unat (rq_pair_count r)) False))"
  using assms by (simp add: yvex_expert_worklist_validate_def worklist_bound_def Let_def)

lemma worklist_validate_iff:
  assumes "worklist_bound r w batch policy"
  shows "yvex_expert_worklist_validate True (Some r) (Some w) = Some (Inr ()) \<longleftrightarrow>
    (\<forall>b < unat (wl_bucket_count w). bucket_exact r w b) \<and>
    distinct (map (source_at w) [0..<unat (rq_pair_count r)])"
proof -
  let ?loop = "for_each (check_bucket r w) [0..<unat (wl_bucket_count w)]
    (0, replicate (unat (rq_pair_count r)) False)"
  have o: "offset_at w 0 = 0" "offset_at w (unat (wl_bucket_count w)) = unat (rq_pair_count r)"
    using assms by (simp_all add: worklist_bound_def offset_at_def)
  have "yvex_expert_worklist_validate True (Some r) (Some w) = Some (Inr ()) \<longleftrightarrow>
      (\<exists>seen. ?loop = Some (Inr (rq_pair_count r, seen)))"
    unfolding worklist_validate_loop [OF assms] by (auto simp: proceed_Inr_iff split: if_splits)
  also have "\<dots> \<longleftrightarrow> (\<forall>b < unat (wl_bucket_count w). bucket_exact r w b) \<and>
      distinct (map (source_at w) [0..<unat (rq_pair_count r)])"
    unfolding check_buckets_Inr [OF o(1)] o(2) by simp
  finally show ?thesis .
qed

section \<open>Accepted worklists\<close>

lemma bucket_of_position:
  "(\<forall>b < k. bucket_exact r w b) \<Longrightarrow> offset_at w 0 = 0 \<Longrightarrow> p < offset_at w k \<Longrightarrow>
     \<exists>b < k. p \<in> {offset_at w b..<offset_at w (Suc b)}"
proof (induction k)
  case (Suc k)
  then show ?case by (cases "p < offset_at w k") (auto simp: less_Suc_eq)
qed simp

lemma buckets_pair_exact:
  assumes "\<forall>b < k. bucket_exact r w b" "offset_at w 0 = 0" "p < offset_at w k"
  shows "\<exists>expert. pair_exact r w expert p"
  using bucket_of_position [OF assms] assms(1) by (fastforce simp: bucket_exact_def offset_at_def)

lemma buckets_experts_increase:
  assumes "\<forall>b < k. bucket_exact r w b" "wl_expert_ids w = Some ids"
  shows "k \<le> length ids" "sorted_wrt (<) (take k ids)" "\<forall>b < k. ids ! b < rq_expert_count r"
proof -
  have at: "b < length ids \<and> ids ! b < rq_expert_count r \<and> (b \<noteq> 0 \<longrightarrow> ids ! (b - 1) < ids ! b)" if "b < k" for b
    using that assms by (fastforce simp: bucket_exact_def split: if_splits)
  show len: "k \<le> length ids" using at by (meson not_le_imp_less less_irrefl)
  show "\<forall>b < k. ids ! b < rq_expert_count r" using at by blast
  have "take k ids ! b < take k ids ! Suc b" if "Suc b < length (take k ids)" for b
    using at [of "Suc b"] that len by simp
  then show "sorted_wrt (<) (take k ids)" by (subst sorted_wrt_iff_nth_Suc_transp) auto
qed

lemma distinct_below_permutes:
  assumes "distinct xs" "set xs \<subseteq> {0..<n}" "length xs = n"
  shows "set xs = {0..<n}"
  using assms by (intro card_subset_eq) (simp_all add: distinct_card)

text \<open>
  (C39) An accepted expert worklist is exact, whoever built it: its source pairs are a permutation of the
  routed pairs, so every pair is executed once; each entry carries the row, destination and weight of its
  pair; the buckets have strictly increasing experts and cover the entries by consecutive non-empty
  ranges; and every entry of a bucket is a pair routed to the expert of the bucket.
\<close>

theorem worklist_validate_exact:
  assumes accepted: "yvex_expert_worklist_validate alloc_ok (Some r) (Some w) = Some (Inr ())"
    and arrays: "wl_source_pairs w = Some pairs" "wl_source_rows w = Some rows"
      "wl_destination_rows w = Some destinations" "wl_route_weights w = Some weights"
      "wl_expert_ids w = Some ids" "wl_bucket_offsets w = Some offsets"
      "rq_selected_experts r = Some selected" "rq_route_weights r = Some route_weights"
    and n: "n = unat (rq_pair_count r)" and k: "k = unat (wl_bucket_count w)"
  shows "distinct (map unat (take n pairs)) \<and> set (map unat (take n pairs)) = {0..<n} \<and>
    (\<forall>i < n. rows ! i = pairs ! i div rq_experts_per_row r \<and> destinations ! i = pairs ! i \<and>
       weights ! i = route_weights ! unat (pairs ! i)) \<and>
    sorted_wrt (<) (take k ids) \<and> (\<forall>b < k. ids ! b < rq_expert_count r) \<and>
    offsets ! 0 = 0 \<and> offsets ! k = rq_pair_count r \<and>
    (\<forall>b < k. offsets ! b < offsets ! Suc b \<and>
       (\<forall>i \<in> {unat (offsets ! b)..<unat (offsets ! Suc b)}. selected ! unat (pairs ! i) = ids ! b))"
proof -
  obtain batch policy where bound: "worklist_bound r w batch policy" and alloc_ok
    using worklist_validate_bound [OF accepted] by blast
  then have exact: "\<forall>b < k. bucket_exact r w b" and dist: "distinct (map (source_at w) [0..<n])"
    using accepted worklist_validate_iff [OF bound] n k by simp_all
  have ends: "load (wl_bucket_offsets w) 0 = Some 0" "load (wl_bucket_offsets w) k = Some (rq_pair_count r)"
    using bound k by (simp_all add: worklist_bound_def)
  then have o: "offset_at w 0 = 0" "offset_at w k = n" "offsets ! 0 = 0" "offsets ! k = rq_pair_count r"
    using n arrays(6) by (auto simp: offset_at_def split: if_splits)
  have pair: "i < length pairs \<and> rows ! i = pairs ! i div rq_experts_per_row r \<and> destinations ! i = pairs ! i \<and>
      weights ! i = route_weights ! unat (pairs ! i) \<and> source_at w i = unat (pairs ! i) \<and> unat (pairs ! i) < n"
    if i: "i < n" for i
    using buckets_pair_exact [OF exact o(1), of i] i o(2) arrays n
    by (auto simp: pair_exact_def source_at_def word_less_nat_alt split: if_splits)
  have "n \<le> length pairs" using pair by (meson not_le_imp_less less_irrefl)
  then have sources: "map unat (take n pairs) = map (source_at w) [0..<n]"
    using pair by (intro nth_equalityI) simp_all
  have "set (map (source_at w) [0..<n]) = {0..<n}"
    using dist pair by (intro distinct_below_permutes) auto
  moreover have "offsets ! b < offsets ! Suc b \<and>
      (\<forall>i \<in> {unat (offsets ! b)..<unat (offsets ! Suc b)}. selected ! unat (pairs ! i) = ids ! b)" if "b < k" for b
  proof -
    have "bucket_exact r w b" using exact that by blast
    then show ?thesis using arrays by (auto simp: bucket_exact_def pair_exact_def split: if_splits)
  qed
  ultimately show ?thesis
    using dist sources pair o(3,4) buckets_experts_increase [OF exact arrays(5)] by auto
qed

text \<open>Two rows routed to two of three experts each.\<close>

definition sample_batch :: yvex_execution_batch where
  "sample_batch = \<lparr>eb_schema_version = 3, eb_provenance = 4, eb_phase = 1, eb_row_count = 2,
     eb_source_count = 1, eb_engine_generation = 7, eb_sources = None, eb_rows = None,
     eb_execution_profile_identity = replicate 64 CHR ''a'', eb_operation_identity = replicate 64 CHR ''b'',
     eb_identity = replicate 64 CHR ''c''\<rparr>"

definition sample_policy :: yvex_expert_worklist_policy where
  "sample_policy = \<lparr>wp_schema_version = 3, supported_width_mask = 6, prefill_maximum_width = 0,
     matrix_tile_minimum = 2, row_implementation = 9, matrix_implementation = 3,
     wp_identity = replicate 64 CHR ''d''\<rparr>"

definition sample_request :: yvex_expert_worklist_request where
  "sample_request = \<lparr>rq_schema_version = 1, rq_batch = Some sample_batch, rq_policy = Some sample_policy,
     rq_expert_count = 3, rq_experts_per_row = 2, rq_pair_count = 4, rq_selected_experts = Some [2, 0, 0, 2],
     rq_route_weights = Some [0x3f000000, 0x3e800000, 0x3f400000, 0x3f800000]\<rparr>"

definition sample_worklist :: yvex_expert_worklist where
  "sample_worklist = worklist_zero\<lparr>wl_schema_version := 1, wl_actual_width := 2, wl_pair_count := 4,
     wl_bucket_count := 2, wl_expert_ids := Some [0, 2], wl_bucket_offsets := Some [0, 2, 4],
     wl_bucket_populations := Some [2, 2], wl_source_pairs := Some [1, 2, 0, 3],
     wl_source_rows := Some [0, 1, 0, 1], wl_destination_rows := Some [1, 2, 0, 3],
     wl_route_weights := Some [0x3e800000, 0x3f400000, 0x3f000000, 0x3f800000],
     wl_batch_identity := replicate 64 CHR ''c'', wl_policy_identity := replicate 64 CHR ''d'',
     wl_identity := replicate 64 CHR ''e''\<rparr>"

lemma sample_worklist_accepted:
  "yvex_expert_worklist_validate True (Some sample_request) (Some sample_worklist) = Some (Inr ())"
  by code_simp

theorem worklist_validate_exact_witness:
  "yvex_expert_worklist_validate True (Some sample_request) (Some sample_worklist) = Some (Inr ()) \<and>
   set (map unat (take 4 [1, 2, 0, 3 :: u64])) = {0..<4 :: nat} \<and> sorted_wrt (<) (take 2 [0, 2 :: u64])"
proof -
  have "wl_source_pairs sample_worklist = Some [1, 2, 0, 3]" "wl_source_rows sample_worklist = Some [0, 1, 0, 1]"
    "wl_destination_rows sample_worklist = Some [1, 2, 0, 3]"
    "wl_route_weights sample_worklist = Some [0x3e800000, 0x3f400000, 0x3f000000, 0x3f800000]"
    "wl_expert_ids sample_worklist = Some [0, 2]" "wl_bucket_offsets sample_worklist = Some [0, 2, 4]"
    "rq_selected_experts sample_request = Some [2, 0, 0, 2]"
    "rq_route_weights sample_request = Some [0x3f000000, 0x3e800000, 0x3f400000, 0x3f800000]"
    "4 = unat (rq_pair_count sample_request)" "2 = unat (wl_bucket_count sample_worklist)"
    by (simp_all add: sample_request_def sample_worklist_def)
  from worklist_validate_exact [OF sample_worklist_accepted this] show ?thesis
    using sample_worklist_accepted by (elim conjE) (intro conjI)
qed

end
