(* ===== verification/Worklist_Partition.thy ===== *)
theory Worklist_Partition
  imports Worklist_Validation
begin

text \<open>
  What the builder of expert worklists produces.  The reference is functional: the pairs routed to an
  expert in their original order, concatenated over the experts.  The builder's passes write exactly this
  list into the caller's arrays, without leaving them, and its own validation accepts the result.
\<close>

section \<open>The reference partition\<close>

definition routed_to :: "u64 list \<Rightarrow> nat \<Rightarrow> nat list" where
  "routed_to chosen expert = filter (\<lambda>pair. chosen ! pair = of_nat expert) [0..<length chosen]"

definition expert_major :: "u64 list \<Rightarrow> nat \<Rightarrow> nat list" where
  "expert_major chosen experts = concat (map (routed_to chosen) [0..<experts])"

definition busy_experts :: "u64 list \<Rightarrow> nat \<Rightarrow> nat list" where
  "busy_experts chosen experts = filter (\<lambda>expert. routed_to chosen expert \<noteq> []) [0..<experts]"

lemma expert_major_simps [simp]: "expert_major chosen 0 = []"
  "expert_major chosen (Suc m) = expert_major chosen m @ routed_to chosen m"
  by (simp_all add: expert_major_def)

lemma busy_experts_simps [simp]: "busy_experts chosen 0 = []"
  "busy_experts chosen (Suc m) = busy_experts chosen m @ (if routed_to chosen m = [] then [] else [m])"
  by (simp_all add: busy_experts_def)

lemma set_routed_to: "set (routed_to chosen e) = {p. p < length chosen \<and> chosen ! p = of_nat e}"
  by (auto simp: routed_to_def)

lemma set_expert_major:
  "m \<le> 2 ^ 64 \<Longrightarrow> set (expert_major chosen m) = {p. p < length chosen \<and> unat (chosen ! p) < m}"
proof (induction m)
  case (Suc m)
  have "c = of_nat m \<longleftrightarrow> unat c = m" for c :: u64 using Suc.prems by (auto simp: word_unat_eq_iff unat_of_nat)
  then show ?case using Suc by (auto simp: set_routed_to less_Suc_eq)
qed simp

lemma distinct_expert_major: "m \<le> 2 ^ 64 \<Longrightarrow> distinct (expert_major chosen m)"
proof (induction m)
  case (Suc m)
  then have "set (expert_major chosen m) \<inter> set (routed_to chosen m) = {}"
    by (auto simp: set_expert_major set_routed_to unat_of_nat)
  then show ?case using Suc by (simp add: routed_to_def)
qed simp

lemma length_expert_major_le: "m \<le> 2 ^ 64 \<Longrightarrow> length (expert_major chosen m) \<le> length chosen"
proof -
  assume m: "m \<le> 2 ^ 64"
  have "length (expert_major chosen m) = card (set (expert_major chosen m))"
    using distinct_card [OF distinct_expert_major [OF m]] by simp
  also have "\<dots> \<le> card {0..<length chosen}" by (rule card_mono) (auto simp: set_expert_major [OF m])
  finally show ?thesis by simp
qed

lemma length_expert_major_all:
  assumes "m \<le> 2 ^ 64" "\<forall>c \<in> set chosen. unat c < m"
  shows "set (expert_major chosen m) = {0..<length chosen}" "length (expert_major chosen m) = length chosen"
proof -
  show s: "set (expert_major chosen m) = {0..<length chosen}"
    using assms by (auto simp: set_expert_major)
  then show "length (expert_major chosen m) = length chosen"
    using distinct_card [OF distinct_expert_major [OF assms(1), of chosen]] by simp
qed

lemma length_expert_major_mono: "m \<le> m' \<Longrightarrow> length (expert_major chosen m) \<le> length (expert_major chosen m')"
  by (induction m') (auto simp: le_Suc_eq)

lemma length_busy_experts: "length (busy_experts chosen m) \<le> m"
  by (induction m) simp_all

section \<open>The pass for one expert\<close>

text \<open>A request the builder can serve: its arrays hold the announced pairs, routed to existing experts.\<close>

definition routable :: "yvex_expert_worklist_request \<Rightarrow> u64 list \<Rightarrow> u32 list \<Rightarrow> bool" where
  "routable r chosen weights \<longleftrightarrow>
     rq_selected_experts r = Some chosen \<and> rq_route_weights r = Some weights \<and>
     length chosen = unat (rq_pair_count r) \<and> length weights = unat (rq_pair_count r) \<and>
     (\<forall>c \<in> set chosen. c < rq_expert_count r) \<and> (\<forall>w \<in> set weights. isfinite w)"

definition pairs_filled ::
  "yvex_expert_worklist_request \<Rightarrow> u32 list \<Rightarrow> yvex_expert_worklist_storage \<Rightarrow> nat list \<Rightarrow> bool" where
  "pairs_filled r weights st out \<longleftrightarrow>
     filled (unat (rq_pair_count r)) (st_source_pairs st) of_nat out \<and>
     filled (unat (rq_pair_count r)) (st_source_rows st) (\<lambda>p. of_nat p div rq_experts_per_row r) out \<and>
     filled (unat (rq_pair_count r)) (st_destination_rows st) of_nat out \<and>
     filled (unat (rq_pair_count r)) (st_route_weights st) (\<lambda>p. weights ! p) out"

definition same_buckets :: "yvex_expert_worklist_storage \<Rightarrow> yvex_expert_worklist_storage \<Rightarrow> bool" where
  "same_buckets st st' \<longleftrightarrow> st_expert_ids st' = st_expert_ids st \<and> st_bucket_offsets st' = st_bucket_offsets st \<and>
     st_bucket_populations st' = st_bucket_populations st"

lemma emit_pair_filled:
  assumes "pairs_filled r weights st out" "length out < unat (rq_pair_count r)" "rq_experts_per_row r \<noteq> 0"
  shows "\<exists>st'. emit_pair r p (weights ! p) (length out) st = Some st' \<and> pairs_filled r weights st' (out @ [p]) \<and>
    same_buckets st st'"
proof -
  have f: "filled (unat (rq_pair_count r)) (st_source_pairs st) of_nat out"
    "filled (unat (rq_pair_count r)) (st_source_rows st) (\<lambda>p. of_nat p div rq_experts_per_row r) out"
    "filled (unat (rq_pair_count r)) (st_destination_rows st) of_nat out"
    "filled (unat (rq_pair_count r)) (st_route_weights st) (\<lambda>p. weights ! p) out"
    using assms(1) by (simp_all add: pairs_filled_def)
  obtain a b c d where "store (st_source_pairs st) (length out) (of_nat p) = Some a"
      "filled (unat (rq_pair_count r)) a of_nat (out @ [p])"
    and "store (st_source_rows st) (length out) (of_nat p div rq_experts_per_row r) = Some b"
      "filled (unat (rq_pair_count r)) b (\<lambda>p. of_nat p div rq_experts_per_row r) (out @ [p])"
    and "store (st_destination_rows st) (length out) (of_nat p) = Some c"
      "filled (unat (rq_pair_count r)) c of_nat (out @ [p])"
    and "store (st_route_weights st) (length out) (weights ! p) = Some d"
      "filled (unat (rq_pair_count r)) d (\<lambda>p. weights ! p) (out @ [p])"
    using filled_store [OF f(1) assms(2), of p] filled_store [OF f(2) assms(2), of p]
      filled_store [OF f(3) assms(2), of p] filled_store [OF f(4) assms(2), of p] by blast
  then show ?thesis
    using assms(3) by (simp add: emit_pair_def quotient_def pairs_filled_def same_buckets_def)
qed

lemma route_pairs_filled:
  assumes "routable r chosen weights" "rq_experts_per_row r \<noteq> 0"
  shows "pairs_filled r weights st out \<Longrightarrow> set ps \<subseteq> {0..<unat (rq_pair_count r)} \<Longrightarrow>
    length out + length (filter (\<lambda>p. chosen ! p = of_nat e) ps) \<le> unat (rq_pair_count r) \<Longrightarrow>
    \<exists>st'. for_each (route_pair r e) ps (length out, k, st) =
        Some (Inr (length out + length (filter (\<lambda>p. chosen ! p = of_nat e) ps),
          k + length (filter (\<lambda>p. chosen ! p = of_nat e) ps), st')) \<and>
      pairs_filled r weights st' (out @ filter (\<lambda>p. chosen ! p = of_nat e) ps) \<and> same_buckets st st'"
proof (induction ps arbitrary: out k st)
  case Nil
  then show ?case by (simp add: same_buckets_def)
next
  case (Cons p ps)
  have p: "p < length chosen" "p < length weights" using assms(1) Cons.prems(2) by (auto simp: routable_def)
  then have ok: "\<not> chosen ! p \<ge> rq_expert_count r" "isfinite (weights ! p)"
    "load (rq_route_weights r) p = Some (weights ! p)" "load (rq_selected_experts r) p = Some (chosen ! p)"
    using assms(1) by (auto simp: routable_def not_le)
  show ?case
  proof (cases "chosen ! p = of_nat e")
    case False
    then have "route_pair r e p (length out, k, st) = Some (Inr (length out, k, st))"
      using ok by (simp add: route_pair_def)
    then show ?thesis using Cons.IH [OF Cons.prems(1), of k] Cons.prems(2,3) False by simp
  next
    case True
    then obtain st1 where st1: "emit_pair r p (weights ! p) (length out) st = Some st1"
      "pairs_filled r weights st1 (out @ [p])" "same_buckets st st1"
      using emit_pair_filled [OF Cons.prems(1) _ assms(2), of p] Cons.prems(3) by auto
    have "route_pair r e p (length out, k, st) = Some (Inr (length (out @ [p]), k + 1, st1))"
      using ok st1(1) by (simp add: route_pair_def True)
    then show ?thesis
      using Cons.IH [OF st1(2), of "k + 1"] Cons.prems(2,3) True st1(3) by (auto simp: same_buckets_def)
  qed
qed

section \<open>The statistics\<close>

definition populations_upto :: "u64 list \<Rightarrow> nat \<Rightarrow> nat list" where
  "populations_upto chosen experts = map (length \<circ> routed_to chosen) (busy_experts chosen experts)"

lemma populations_upto_simps [simp]: "populations_upto chosen 0 = []"
  "populations_upto chosen (Suc m) =
     populations_upto chosen m @ (if routed_to chosen m = [] then [] else [length (routed_to chosen m)])"
  by (simp_all add: populations_upto_def)

lemma length_populations_upto: "length (populations_upto chosen m) \<le> m"
  using length_busy_experts [of chosen m] by (simp add: populations_upto_def)

lemma sum_populations_upto: "sum_list (populations_upto chosen m) = length (expert_major chosen m)"
  by (induction m) simp_all

definition eligible :: "yvex_expert_worklist_policy \<Rightarrow> nat \<Rightarrow> bool" where
  "eligible policy population \<longleftrightarrow> matrix_tile_minimum policy \<noteq> 0 \<and> unat (matrix_tile_minimum policy) \<le> population"

definition counts_exact :: "yvex_expert_worklist_policy \<Rightarrow> nat list \<Rightarrow> yvex_expert_worklist \<Rightarrow> bool" where
  "counts_exact policy populations w \<longleftrightarrow>
     unat (wl_maximum_bucket_population w) = fold max populations 0 \<and>
     unat (wl_matrix_tile_eligible_pairs w) = sum_list (filter (eligible policy) populations) \<and>
     length (wl_population_histogram w) = 17 \<and>
     (\<forall>slot < 17. unat (wl_population_histogram w ! slot) = length (filter (\<lambda>x. min x 16 = slot) populations))"

lemma sum_list_filter_le: "sum_list (filter p xs) \<le> sum_list (xs :: nat list)"
  by (induction xs) auto

lemma counts_exact_zero: "counts_exact policy [] worklist_zero"
  by (simp add: counts_exact_def worklist_zero_def)

lemma histogram_count:
  fixes h :: "u64 list"
  assumes "length h = 17" "\<forall>slot < 17. unat (h ! slot) = length (filter (\<lambda>x. min x 16 = slot) ps)"
    "length ps + 1 < 2 ^ 64" "s = min x 16" "slot < 17"
  shows "unat ((h[s := h ! s + 1]) ! slot) = length (filter (\<lambda>x. min x 16 = slot) (ps @ [x]))"
proof (cases "slot = s")
  case True
  have "unat (h ! s) = length (filter (\<lambda>x. min x 16 = s) ps)" using assms(2,5) True by simp
  also have "\<dots> \<le> length ps" by (rule length_filter_le)
  finally have "unat (h ! s) + unat (1 :: u64) < 2 ^ 64" using assms(3) by simp
  then have "unat (h ! s + 1) = unat (h ! s) + 1" using unat_add_no_wrap [of "h ! s" 1] by simp
  then show ?thesis using assms True by simp
next
  case False
  then show ?thesis using assms by auto
qed

lemma account_bucket_exact:
  assumes "counts_exact policy ps w" "maximum_width \<noteq> 0" "sum_list ps + x < 2 ^ 64" "length ps + 1 < 2 ^ 64"
  shows "\<exists>w'. account_bucket policy maximum_width (of_nat x) w = Some w' \<and> counts_exact policy (ps @ [x]) w'"
proof -
  let ?x = "of_nat x :: u64" and ?s = "min x 16" and ?h = "wl_population_histogram w"
  have x: "unat ?x = x" using assms(3) by (simp add: unat_of_nat)
  have "sum_list (filter (eligible policy) ps) \<le> sum_list ps" by (rule sum_list_filter_le)
  then have sum: "unat (wl_matrix_tile_eligible_pairs w + ?x) = unat (wl_matrix_tile_eligible_pairs w) + x"
    using assms(1,3) unat_add_no_wrap [of "wl_matrix_tile_eligible_pairs w" ?x] x by (simp add: counts_exact_def)
  have slot: "(if ?x < of_nat 17 then unat ?x else 17 - 1) = ?s"
    using x by (simp add: word_less_nat_alt)
  have el: "(matrix_tile_minimum policy \<noteq> 0 \<and> matrix_tile_minimum policy \<le> ?x) \<longleftrightarrow> eligible policy x"
    using x by (simp add: eligible_def word_le_nat_alt)
  have hist: "\<forall>slot < 17. unat ((?h[?s := ?h ! ?s + 1]) ! slot) =
      length (filter (\<lambda>x. min x 16 = slot) (ps @ [x]))"
    using assms(1,4) by (intro allI impI histogram_count) (simp_all add: counts_exact_def)
  have mx: "unat (if wl_maximum_bucket_population w < ?x then ?x else wl_maximum_bucket_population w) =
      fold max (ps @ [x]) 0"
    using assms(1) x by (auto simp: counts_exact_def word_less_nat_alt)
  show ?thesis
    unfolding account_bucket_def Let_def slot el remainder_def
    using assms(1,2) sum hist mx by (auto simp: counts_exact_def split: if_splits)
qed

section \<open>The loop over the experts\<close>

definition buckets_filled ::
  "yvex_expert_worklist_request \<Rightarrow> u64 list \<Rightarrow> yvex_expert_worklist_storage \<Rightarrow> nat list \<Rightarrow> bool" where
  "buckets_filled r chosen st experts \<longleftrightarrow>
     filled (unat (rq_expert_count r)) (st_expert_ids st) of_nat experts \<and>
     filled (unat (rq_expert_count r)) (st_bucket_populations st) (\<lambda>e. of_nat (length (routed_to chosen e))) experts \<and>
     filled (Suc (unat (rq_expert_count r))) (st_bucket_offsets st)
       (\<lambda>e. of_nat (length (expert_major chosen e))) experts"

definition run_exact ::
  "yvex_expert_worklist_request \<Rightarrow> u64 list \<Rightarrow> u32 list \<Rightarrow> yvex_expert_worklist_policy \<Rightarrow> nat \<Rightarrow> worklist_run \<Rightarrow> bool" where
  "run_exact r chosen weights policy m run \<longleftrightarrow>
     run_cursor run = length (expert_major chosen m) \<and> run_bucket run = length (busy_experts chosen m) \<and>
     pairs_filled r weights (run_storage run) (expert_major chosen m) \<and>
     buckets_filled r chosen (run_storage run) (busy_experts chosen m) \<and>
     counts_exact policy (populations_upto chosen m) (run_worklist run)"

lemma buckets_filled_store:
  assumes "buckets_filled r chosen st bs" "length bs < unat (rq_expert_count r)"
  shows "\<exists>ids offsets populations. store (st_expert_ids st) (length bs) (of_nat m) = Some ids \<and>
    store (st_bucket_offsets st) (length bs) (of_nat (length (expert_major chosen m))) = Some offsets \<and>
    store (st_bucket_populations st) (length bs) (of_nat (length (routed_to chosen m))) = Some populations \<and>
    buckets_filled r chosen (st\<lparr>st_expert_ids := ids, st_bucket_offsets := offsets,
      st_bucket_populations := populations\<rparr>) (bs @ [m])"
proof -
  have "length bs < Suc (unat (rq_expert_count r))" using assms(2) by simp
  then show ?thesis
    using filled_store [OF _ assms(2), of "st_expert_ids st" of_nat m]
      filled_store [OF _ assms(2), of "st_bucket_populations st" "\<lambda>e. of_nat (length (routed_to chosen e))" m]
      filled_store [of "Suc (unat (rq_expert_count r))" "st_bucket_offsets st"
        "\<lambda>e. of_nat (length (expert_major chosen e))" bs m] assms(1)
    unfolding buckets_filled_def by fastforce
qed

lemma route_expert_exact:
  assumes ok: "routable r chosen weights" "rq_experts_per_row r \<noteq> 0" "maximum_width \<noteq> 0"
    and m: "m < unat (rq_expert_count r)" and run: "run_exact r chosen weights policy m run"
  shows "\<exists>run'. route_expert r policy maximum_width m run = Some (Inr run') \<and>
    run_exact r chosen weights policy (Suc m) run'"
proof -
  let ?n = "unat (rq_pair_count r)" and ?out = "expert_major chosen m" and ?group = "routed_to chosen m"
  have n: "length chosen = ?n" using ok(1) by (simp add: routable_def)
  have m64: "Suc m \<le> 2 ^ 64" using m unat_u64_less [of "rq_expert_count r"] by simp
  have group: "filter (\<lambda>p. chosen ! p = of_nat m) [0..<?n] = ?group" by (simp add: routed_to_def n)
  have le: "length ?out + length ?group \<le> ?n" using length_expert_major_le [OF m64, of chosen] n by simp
  obtain st where st: "for_each (route_pair r m) [0..<?n] (length ?out, 0, run_storage run) =
      Some (Inr (length ?out + length ?group, length ?group, st))"
    "pairs_filled r weights st (?out @ ?group)" "same_buckets (run_storage run) st"
    using route_pairs_filled [OF ok(1,2), of "run_storage run" ?out "[0..<?n]" m 0] run le
    by (auto simp: group run_exact_def)
  have bf: "buckets_filled r chosen st (busy_experts chosen m)"
    using run st(3) by (simp add: run_exact_def buckets_filled_def same_buckets_def)
  have step: "for_each (route_pair r m) [0..<?n] (run_cursor run, 0, run_storage run) =
      Some (Inr (length ?out + length ?group, length ?group, st))" using st(1) run by (simp add: run_exact_def)
  show ?thesis
  proof (cases "?group = []")
    case True
    then show ?thesis using step st(2) bf run by (simp add: route_expert_def run_exact_def)
  next
    case False
    have room: "length (busy_experts chosen m) < unat (rq_expert_count r)"
      using length_busy_experts [of chosen m] m by simp
    obtain ids offsets populations where s: "store (st_expert_ids st) (run_bucket run) (of_nat m) = Some ids"
      "store (st_bucket_offsets st) (run_bucket run) (of_nat (run_cursor run)) = Some offsets"
      "store (st_bucket_populations st) (run_bucket run) (of_nat (length ?group)) = Some populations"
      "buckets_filled r chosen (st\<lparr>st_expert_ids := ids, st_bucket_offsets := offsets,
        st_bucket_populations := populations\<rparr>) (busy_experts chosen m @ [m])"
      using buckets_filled_store [OF bf room, of m] run by (auto simp: run_exact_def)
    have few: "length (populations_upto chosen m) + 1 < 2 ^ 64"
      and fits: "sum_list (populations_upto chosen m) + length ?group < 2 ^ 64"
      using length_populations_upto [of chosen m] m unat_u64_less [of "rq_expert_count r"]
        le unat_u64_less [of "rq_pair_count r"] by (simp_all add: sum_populations_upto)
    have "counts_exact policy (populations_upto chosen m) (run_worklist run)" using run by (simp add: run_exact_def)
    from account_bucket_exact [OF this ok(3) fits few] obtain w where "account_bucket policy maximum_width (of_nat (length ?group)) (run_worklist run) = Some w"
      "counts_exact policy (populations_upto chosen m @ [length ?group]) w"
      by blast
    then show ?thesis using step s st(2) False run
      by (simp add: route_expert_def run_exact_def pairs_filled_def)
  qed
qed

lemma route_experts_exact:
  assumes "routable r chosen weights" "rq_experts_per_row r \<noteq> 0" "maximum_width \<noteq> 0"
    and "run_exact r chosen weights policy 0 run"
  shows "m \<le> unat (rq_expert_count r) \<Longrightarrow> \<exists>run'. for_each (route_expert r policy maximum_width) [0..<m] run =
    Some (Inr run') \<and> run_exact r chosen weights policy m run'"
proof (induction m)
  case 0
  then show ?case using assms(4) by simp
next
  case (Suc m)
  then obtain run1 where 1: "for_each (route_expert r policy maximum_width) [0..<m] run = Some (Inr run1)"
    "run_exact r chosen weights policy m run1" by auto
  obtain run2 where "route_expert r policy maximum_width m run1 = Some (Inr run2)"
    "run_exact r chosen weights policy (Suc m) run2"
    using route_expert_exact [OF assms(1-3) _ 1(2)] Suc.prems by auto
  with 1(1) show ?case by (simp add: for_each_append)
qed

section \<open>The admitted width\<close>

lemma maximum_width_loop_ge: "unat bits < 2 ^ j \<Longrightarrow> unat width + j < 2 ^ 64 \<Longrightarrow>
    unat width \<le> unat (maximum_width_loop bits width)"
proof (induction j arbitrary: bits width)
  case 0
  then show ?case by (simp add: maximum_width_loop.simps unat_eq_zero)
next
  case (Suc j)
  show ?case
  proof (cases "bits div 2 = 0")
    case True
    then show ?thesis by (simp add: maximum_width_loop.simps drop_bit_Suc)
  next
    case False
    have inc: "unat (width + 1) = unat width + 1"
      using Suc.prems(2) unat_add_no_wrap [of width 1] by simp
    have "unat (bits div 2) < 2 ^ j" using Suc.prems(1) by (simp add: unat_div less_mult_imp_div_less)
    then have "unat (width + 1) \<le> unat (maximum_width_loop (bits div 2) (width + 1))"
      using Suc.prems(2) inc by (intro Suc.IH) simp_all
    then show ?thesis using False inc by (subst maximum_width_loop.simps) (simp add: drop_bit_Suc)
  qed
qed

lemma worklist_maximum_width_nonzero:
  assumes "drop_bit 1 width_mask \<noteq> 0"
  shows "worklist_maximum_width width_mask \<noteq> 0"
proof -
  have "unat (1 :: u64) \<le> unat (maximum_width_loop (drop_bit 1 width_mask) 1)"
    using unat_u64_less [of "drop_bit 1 width_mask"] by (intro maximum_width_loop_ge [of _ 64]) simp_all
  moreover have "worklist_maximum_width width_mask = maximum_width_loop (drop_bit 1 width_mask) 1"
    using assms by (simp add: worklist_maximum_width_def maximum_width_loop.simps [of width_mask])
  ultimately show ?thesis by auto
qed

lemma admitted_mask:
  assumes "yvex_expert_worklist_width_admitted (Some policy) phase width"
  shows "drop_bit 1 (supported_width_mask policy) \<noteq> 0"
proof (cases "width < 63")
  case True
  then have "and (supported_width_mask policy) (push_bit (unat width) 1) \<noteq> 0" and "width \<noteq> 0"
    using assms by (auto simp: yvex_expert_worklist_width_admitted_def split: if_splits)
  then obtain i where "bit (supported_width_mask policy) i" "bit (push_bit (unat width) (1 :: u64)) i"
    by (auto simp: bit_eq_iff bit_and_iff)
  then have "bit (supported_width_mask policy) (unat width)" by (auto simp: bit_simps)
  moreover have "unat width = Suc (unat width - 1)" using \<open>width \<noteq> 0\<close> by (simp add: unat_gt_0)
  ultimately have "bit (drop_bit 1 (supported_width_mask policy)) (unat width - 1)"
    by (simp add: bit_drop_bit_eq)
  then show ?thesis by auto
next
  case False
  then have "supported_width_mask policy = 0x7ffffffffffffffe"
    using assms by (auto simp: yvex_expert_worklist_width_admitted_def split: if_splits)
  then show ?thesis by simp
qed

lemma admitted_width_nonzero:
  assumes "yvex_expert_worklist_width_admitted (Some policy) phase width"
  shows "worklist_admitted_width batch policy \<noteq> 0"
  using worklist_maximum_width_nonzero [OF admitted_mask [OF assms]]
  by (auto simp: worklist_admitted_width_def Let_def)

section \<open>The reference partition satisfies the validator\<close>

lemma expert_major_split: "e < m \<Longrightarrow> \<exists>rest. expert_major chosen m = expert_major chosen e @ routed_to chosen e @ rest"
proof (induction m)
  case (Suc m)
  then show ?case by (cases "e = m") auto
qed simp

lemma busy_next:
  "b < length (busy_experts chosen m) \<Longrightarrow>
     length (expert_major chosen ((busy_experts chosen m @ [m]) ! Suc b)) =
     length (expert_major chosen (busy_experts chosen m ! b)) + length (routed_to chosen (busy_experts chosen m ! b))"
proof (induction m)
  case (Suc m)
  show ?case
  proof (cases "b < length (busy_experts chosen m)")
    case True
    then show ?thesis using Suc.IH by (cases "Suc b < length (busy_experts chosen m)") (auto simp: nth_append split: if_splits)
  next
    case False
    then show ?thesis using Suc.prems by (auto simp: nth_append less_Suc_eq split: if_splits)
  qed
qed simp

lemma busy_experts_nth:
  assumes "b < length (busy_experts chosen m)"
  shows "busy_experts chosen m ! b < m" "routed_to chosen (busy_experts chosen m ! b) \<noteq> []"
  using nth_mem [OF assms] by (auto simp: busy_experts_def)

lemma sorted_busy_experts: "sorted_wrt (<) (busy_experts chosen m)"
  by (simp add: busy_experts_def sorted_wrt_filter)

definition worklist_holds ::
  "yvex_expert_worklist_request \<Rightarrow> u64 list \<Rightarrow> u32 list \<Rightarrow> yvex_expert_worklist \<Rightarrow> bool" where
  "worklist_holds r chosen weights w \<longleftrightarrow>
     (let n = unat (rq_pair_count r); experts = unat (rq_expert_count r);
          pairs = expert_major chosen experts; busy = busy_experts chosen experts
      in filled n (wl_source_pairs w) of_nat pairs \<and>
         filled n (wl_source_rows w) (\<lambda>p. of_nat p div rq_experts_per_row r) pairs \<and>
         filled n (wl_destination_rows w) of_nat pairs \<and>
         filled n (wl_route_weights w) (\<lambda>p. weights ! p) pairs \<and>
         filled experts (wl_expert_ids w) of_nat busy \<and>
         filled experts (wl_bucket_populations w) (\<lambda>e. of_nat (length (routed_to chosen e))) busy \<and>
         filled (Suc experts) (wl_bucket_offsets w) (\<lambda>e. of_nat (length (expert_major chosen e))) (busy @ [experts]))"

lemma routable_partition:
  assumes "routable r chosen weights"
  shows "set (expert_major chosen (unat (rq_expert_count r))) = {0..<unat (rq_pair_count r)}"
    "length (expert_major chosen (unat (rq_expert_count r))) = unat (rq_pair_count r)"
    "distinct (expert_major chosen (unat (rq_expert_count r)))"
proof -
  have "unat (rq_expert_count r) \<le> 2 ^ 64" using unat_u64_less [of "rq_expert_count r"] by simp
  moreover have "\<forall>c \<in> set chosen. unat c < unat (rq_expert_count r)" "length chosen = unat (rq_pair_count r)"
    using assms by (simp_all add: routable_def word_less_nat_alt)
  ultimately show "set (expert_major chosen (unat (rq_expert_count r))) = {0..<unat (rq_pair_count r)}"
    "length (expert_major chosen (unat (rq_expert_count r))) = unat (rq_pair_count r)"
    "distinct (expert_major chosen (unat (rq_expert_count r)))"
    using length_expert_major_all distinct_expert_major by simp_all
qed

lemma holds_pair_exact:
  assumes ok: "routable r chosen weights" "rq_experts_per_row r \<noteq> 0" and holds: "worklist_holds r chosen weights w"
    and i: "i < unat (rq_pair_count r)"
  shows "source_at w i = expert_major chosen (unat (rq_expert_count r)) ! i"
    "pair_exact r w (chosen ! (expert_major chosen (unat (rq_expert_count r)) ! i)) i"
proof -
  let ?n = "unat (rq_pair_count r)" and ?em = "expert_major chosen (unat (rq_expert_count r))"
  have i': "i < length ?em" using i routable_partition(2) [OF ok(1)] by simp
  have f: "filled ?n (wl_source_pairs w) of_nat ?em" "filled ?n (wl_destination_rows w) of_nat ?em"
    "filled ?n (wl_source_rows w) (\<lambda>p. of_nat p div rq_experts_per_row r) ?em"
    "filled ?n (wl_route_weights w) (\<lambda>p. weights ! p) ?em"
    using holds by (simp_all add: worklist_holds_def Let_def)
  have p: "?em ! i < ?n" using nth_mem [OF i'] routable_partition(1) [OF ok(1)] by auto
  then have u: "unat (of_nat (?em ! i) :: u64) = ?em ! i"
    using unat_u64_less [of "rq_pair_count r"] by (intro unat_eq_of_nat_u64) simp
  then show "source_at w i = ?em ! i" by (simp add: source_at_def filled_load [OF f(1) i'])
  have "load (rq_selected_experts r) (?em ! i) = Some (chosen ! (?em ! i))"
    "load (rq_route_weights r) (?em ! i) = Some (weights ! (?em ! i))"
    using ok(1) p by (simp_all add: routable_def)
  then show "pair_exact r w (chosen ! (?em ! i)) i"
    using f [THEN filled_load, OF i'] ok(2) u p by (simp add: pair_exact_def word_less_nat_alt)
qed

lemma holds_bucket_exact:
  assumes ok: "routable r chosen weights" "rq_experts_per_row r \<noteq> 0" and holds: "worklist_holds r chosen weights w"
    and b: "b < length (busy_experts chosen (unat (rq_expert_count r)))"
  shows "bucket_exact r w b"
proof -
  let ?k = "unat (rq_expert_count r)" and ?n = "unat (rq_pair_count r)"
  let ?bs = "busy_experts chosen ?k" and ?em = "expert_major chosen"
  define e where "e = ?bs ! b"
  define start where "start = length (?em e)"
  define stop where "stop = start + length (routed_to chosen e)"
  have e: "e < ?k" "routed_to chosen e \<noteq> []" using busy_experts_nth [OF b] by (simp_all add: e_def)
  obtain rest where split: "?em ?k = ?em e @ routed_to chosen e @ rest" using expert_major_split [OF e(1)] by blast
  then have n: "stop \<le> ?n" "start < stop"
    using routable_partition(2) [OF ok(1)] e(2) by (simp_all add: stop_def start_def)
  have small: "x \<le> ?n \<Longrightarrow> unat (of_nat x :: u64) = x" "x < ?k \<Longrightarrow> unat (of_nat x :: u64) = x" for x
    using unat_u64_less [of "rq_pair_count r"] unat_u64_less [of "rq_expert_count r"] by (simp_all add: unat_of_nat)
  have f: "filled ?k (wl_expert_ids w) of_nat ?bs"
    "filled ?k (wl_bucket_populations w) (\<lambda>e. of_nat (length (routed_to chosen e))) ?bs"
    "filled (Suc ?k) (wl_bucket_offsets w) (\<lambda>e. of_nat (length (?em e))) (?bs @ [?k])"
    using holds by (simp_all add: worklist_holds_def Let_def)
  have "load (wl_expert_ids w) b = Some (of_nat e)"
    "load (wl_bucket_populations w) b = Some (of_nat stop - of_nat start)"
    using filled_load [OF f(1) b] filled_load [OF f(2) b] by (simp_all add: e_def stop_def)
  moreover have "load (wl_bucket_offsets w) b = Some (of_nat start)"
    using filled_load [OF f(3), of b] b by (simp add: nth_append e_def start_def)
  moreover have "load (wl_bucket_offsets w) (b + 1) = Some (of_nat stop)"
    using filled_load [OF f(3), of "Suc b"] b busy_next [OF b] by (simp add: e_def start_def stop_def)
  moreover have "load (wl_expert_ids w) (b - 1) = Some (of_nat (?bs ! (b - 1)))" "?bs ! (b - 1) < e" if "b \<noteq> 0"
    using filled_load [OF f(1), of "b - 1"] that b sorted_wrt_nth_less [OF sorted_busy_experts [of chosen ?k], of "b - 1" b]
    by (simp_all add: e_def)
  moreover have "pair_exact r w (of_nat e) i" if i: "i \<in> {start..<stop}" for i
  proof -
    have "?em ?k ! i \<in> set (routed_to chosen e)"
      using i split by (auto simp: nth_append start_def stop_def)
    then have "chosen ! (?em ?k ! i) = of_nat e" by (simp add: set_routed_to)
    then show ?thesis using holds_pair_exact(2) [OF ok holds, of i] i n by simp
  qed
  ultimately show ?thesis
    using n e(1) small(1) [of start] small(1) [of stop] small(2) [of e] small(2) [of "?bs ! (b - 1)"]
    unfolding bucket_exact_def
    by (intro exI [of _ "of_nat e"] exI [of _ "of_nat start"] exI [of _ "of_nat stop"])
      (auto simp: word_less_nat_alt)
qed

lemma holds_accepted:
  assumes ok: "routable r chosen weights" "rq_experts_per_row r \<noteq> 0" and holds: "worklist_holds r chosen weights w"
    and bound: "worklist_bound r w batch policy"
    and buckets: "unat (wl_bucket_count w) = length (busy_experts chosen (unat (rq_expert_count r)))"
  shows "yvex_expert_worklist_validate True (Some r) (Some w) = Some (Inr ())"
proof -
  let ?n = "unat (rq_pair_count r)" and ?em = "expert_major chosen (unat (rq_expert_count r))"
  have "map (source_at w) [0..<?n] = ?em"
    using holds_pair_exact(1) [OF ok holds] routable_partition(2) [OF ok(1)] by (intro nth_equalityI) simp_all
  then show ?thesis
    unfolding worklist_validate_iff [OF bound] buckets
    using holds_bucket_exact [OF ok holds] routable_partition(3) [OF ok(1)] by simp
qed

end
