(* ===== verification/Worklist_Build.thy ===== *)
theory Worklist_Build
  imports Worklist_Partition
begin

text \<open>
  The builder of expert worklists as a whole: sealing succeeds on what the passes wrote, the request checks
  give the bounds the passes need, and the result is the reference partition.
\<close>

section \<open>Sealing\<close>

lemma encode_fields_append [simp]: "encode_fields (fs @ gs) = encode_fields fs @ encode_fields gs"
  "encode_fields [] = []" "encode_fields (f # fs) = encode_field f @ encode_fields fs"
  by (simp_all add: encode_fields_def)

lemma load_fields_defined:
  assumes "\<forall>i \<in> set is. \<exists>fs. f i = Some fs \<and> length (encode_fields fs) \<le> c"
  shows "\<exists>fs. load_fields f is = Some fs \<and> length (encode_fields fs) \<le> c * length is"
  using assms
proof (induction "is")
  case (Cons i "is")
  then obtain fs gs where "f i = Some fs" "length (encode_fields fs) \<le> c"
    "load_fields f is = Some gs" "length (encode_fields gs) \<le> c * length is" by auto
  then show ?case by simp
qed simp

lemma holds_seal:
  assumes ok: "routable r chosen weights" and holds: "worklist_holds r chosen weights w"
    and buckets: "unat (wl_bucket_count w) = length (busy_experts chosen (unat (rq_expert_count r)))"
    and bounds: "unat (rq_expert_count r) \<le> 256" "unat (rq_pair_count r) \<le> 2048 * 256"
    and texts: "length (wl_batch_identity w) = 64" "length (wl_policy_identity w) = 64"
  shows "\<exists>identity. worklist_seal r w = Some (Some (w\<lparr>wl_identity := identity\<rparr>)) \<and>
    worklist_identity_valid (Some identity)"
proof -
  let ?n = "unat (rq_pair_count r)" and ?k = "unat (rq_expert_count r)" and ?b = "unat (wl_bucket_count w)"
  let ?em = "expert_major chosen ?k" and ?bs = "busy_experts chosen ?k"
  have f: "filled ?n (wl_source_pairs w) of_nat ?em" "filled ?n (wl_destination_rows w) of_nat ?em"
    "filled ?n (wl_source_rows w) (\<lambda>p. of_nat p div rq_experts_per_row r) ?em"
    "filled ?n (wl_route_weights w) (\<lambda>p. weights ! p) ?em"
    "filled ?k (wl_expert_ids w) of_nat ?bs"
    "filled ?k (wl_bucket_populations w) (\<lambda>e. of_nat (length (routed_to chosen e))) ?bs"
    "filled (Suc ?k) (wl_bucket_offsets w) (\<lambda>e. of_nat (length (expert_major chosen e))) (?bs @ [?k])"
    using holds by (simp_all add: worklist_holds_def Let_def)
  have "\<exists>fs. worklist_bucket_fields w i = Some fs \<and> length (encode_fields fs) \<le> 24" if "i < ?b" for i
    using that f(5,6,7) [THEN filled_load, of i] by (simp add: worklist_bucket_fields_def buckets nth_append)
  then obtain bf where bf: "load_fields (worklist_bucket_fields w) [0..<?b] = Some bf" "length (encode_fields bf) \<le> 24 * ?b"
    using load_fields_defined [of "[0..<?b]" "worklist_bucket_fields w" 24] by auto
  have "\<exists>fs. worklist_pair_fields w i = Some fs \<and> length (encode_fields fs) \<le> 32" if "i < ?n" for i
    using that f(1-4) [THEN filled_load, of i] routable_partition(2) [OF ok] by (simp add: worklist_pair_fields_def)
  then obtain pf where pf: "load_fields (worklist_pair_fields w) [0..<?n] = Some pf" "length (encode_fields pf) \<le> 32 * ?n"
    using load_fields_defined [of "[0..<?n]" "worklist_pair_fields w" 32] by auto
  obtain last_offset where lo: "load (wl_bucket_offsets w) ?b = Some last_offset"
    using filled_load [OF f(7), of ?b] buckets by simp
  let ?fields = "[Text_field ''yvex.expert-worklist.v1'', Text_field (wl_batch_identity w),
         Text_field (wl_policy_identity w), U64_field (wl_actual_width w),
         U64_field (wl_expert_count w), U64_field (wl_pair_count w),
         U64_field (wl_bucket_count w), U64_field (wl_maximum_bucket_population w)] @ bf @ [U64_field last_offset] @ pf"
  have "?b \<le> 256" using buckets length_busy_experts [of chosen ?k] bounds(1) by simp
  then have "length (encode_fields ?fields) \<le> sha256_limit" using bf(2) pf(2) bounds(2) texts by simp
  then obtain identity where "sha256_identity ?fields = Some identity" "worklist_identity_valid (Some identity)"
    using sha256_identity_eq hex_digest_valid by (fastforce simp only: worklist_identity_valid_def)
  moreover have "worklist_seal r w =
      Some (map_option (\<lambda>identity. w\<lparr>wl_identity := identity\<rparr>) (sha256_identity ?fields))"
    by (simp add: worklist_seal_def bf(1) pf(1) lo)
  ultimately show ?thesis by auto
qed

section \<open>The request checks\<close>

text \<open>
  The contract of the storage: each array has the announced capacity, and the offsets one cell more for
  the end of the last bucket.
\<close>

definition backed :: "'a pointer \<Rightarrow> nat \<Rightarrow> bool" where
  "backed p n \<longleftrightarrow> (case p of None \<Rightarrow> True | Some xs \<Rightarrow> n \<le> length xs)"

definition storage_backed :: "yvex_expert_worklist_storage \<Rightarrow> bool" where
  "storage_backed st \<longleftrightarrow>
     backed (st_expert_ids st) (unat (st_bucket_capacity st)) \<and>
     backed (st_bucket_populations st) (unat (st_bucket_capacity st)) \<and>
     backed (st_bucket_offsets st) (Suc (unat (st_bucket_capacity st))) \<and>
     backed (st_source_pairs st) (unat (st_pair_capacity st)) \<and>
     backed (st_source_rows st) (unat (st_pair_capacity st)) \<and>
     backed (st_destination_rows st) (unat (st_pair_capacity st)) \<and>
     backed (st_route_weights st) (unat (st_pair_capacity st))"

lemma request_valid_parts:
  assumes "worklist_request_valid (Some r) (Some st) = Some True"
  shows "\<exists>batch policy. rq_batch r = Some batch \<and> rq_policy r = Some policy \<and>
    yvex_execution_batch_validate False (Some batch) = Some (Inr ()) \<and>
    yvex_expert_worklist_policy_validate False (Some policy) = Inr () \<and> worklist_geometry_valid r batch st"
proof -
  obtain batch policy checked where b: "rq_batch r = Some batch" "rq_policy r = Some policy"
    "yvex_execution_batch_validate False (Some batch) = Some checked" "outcome_status checked = YVEX_OK"
    "outcome_status (yvex_expert_worklist_policy_validate False (Some policy)) = YVEX_OK"
    "worklist_geometry_valid r batch st"
    using assms by (auto simp: worklist_request_valid_def split: if_splits option.splits)
  show ?thesis using b batch.accepted_status policy.accepted_status by blast
qed

lemma geometry_bounds:
  assumes "worklist_geometry_valid r batch st" "rq_policy r = Some policy"
  shows "unat (rq_expert_count r) \<le> 256" "rq_experts_per_row r \<noteq> 0" "0 < unat (rq_pair_count r)"
    "unat (rq_pair_count r) \<le> 2048 * 256" "worklist_admitted_width batch policy \<noteq> 0"
    "unat (rq_expert_count r) \<le> unat (st_bucket_capacity st)" "unat (rq_pair_count r) \<le> unat (st_pair_capacity st)"
proof -
  have g: "yvex_expert_worklist_width_admitted (Some policy) (eb_phase batch) (eb_row_count batch)"
    "checked_mul (eb_row_count batch) (rq_experts_per_row r) = Some (rq_pair_count r)"
    using assms by (simp_all add: worklist_geometry_valid_def)
  show e: "unat (rq_expert_count r) \<le> 256" and x: "rq_experts_per_row r \<noteq> 0"
    and "unat (rq_expert_count r) \<le> unat (st_bucket_capacity st)" "unat (rq_pair_count r) \<le> unat (st_pair_capacity st)"
    using assms(1) by (simp_all add: worklist_geometry_valid_def word_le_nat_alt)
  show "worklist_admitted_width batch policy \<noteq> 0" by (rule admitted_width_nonzero [OF g(1)])
  have n: "unat (rq_pair_count r) = unat (eb_row_count batch) * unat (rq_experts_per_row r)"
    by (rule unat_checked_mul [OF g(2)])
  show "0 < unat (rq_pair_count r)" using n x width_admitted_bounds(1) [OF g(1)] by (simp add: unat_gt_0)
  have "unat (rq_experts_per_row r) \<le> 256"
    using assms(1) e by (simp add: worklist_geometry_valid_def word_le_nat_alt)
  then show "unat (rq_pair_count r) \<le> 2048 * 256"
    unfolding n by (rule mult_le_mono [OF width_admitted_bounds(2) [OF g(1)]])
qed

lemma initial_run_exact:
  assumes "worklist_geometry_valid r batch st" "rq_policy r = Some policy" "storage_backed st"
  shows "run_exact r chosen weights policy' 0
    \<lparr>run_cursor = 0, run_bucket = 0, run_storage = st, run_worklist = worklist_zero\<rparr>"
proof -
  have "st_expert_ids st \<noteq> None" "st_bucket_offsets st \<noteq> None" "st_bucket_populations st \<noteq> None"
    "st_source_pairs st \<noteq> None" "st_source_rows st \<noteq> None" "st_destination_rows st \<noteq> None"
    "st_route_weights st \<noteq> None" using assms(1) by (simp_all add: worklist_geometry_valid_def)
  then show ?thesis
    using geometry_bounds(6,7) [OF assms(1,2)] assms(3)
    by (auto simp: run_exact_def pairs_filled_def buckets_filled_def filled_def storage_backed_def backed_def
        counts_exact_zero)
qed

section \<open>The whole builder\<close>

lemma finish_holds:
  assumes run: "run_exact r chosen weights policy (unat (rq_expert_count r)) run"
    and "store (st_bucket_offsets (run_storage run)) (run_bucket run) (of_nat (run_cursor run)) = Some offsets"
    and w: "w = worklist_finish r batch policy' width
      (run\<lparr>run_storage := (run_storage run)\<lparr>st_bucket_offsets := offsets\<rparr>\<rparr>)"
  shows "worklist_holds r chosen weights w"
proof -
  let ?k = "unat (rq_expert_count r)"
  let ?f = "\<lambda>e. of_nat (length (expert_major chosen e))" and ?bs = "busy_experts chosen (unat (rq_expert_count r))"
  have "filled (Suc ?k) (st_bucket_offsets (run_storage run)) ?f ?bs"
    using run by (simp add: run_exact_def buckets_filled_def)
  moreover have "length ?bs < Suc ?k" using length_busy_experts [of chosen ?k] by simp
  ultimately have "filled (Suc ?k) offsets ?f (?bs @ [?k])"
    using filled_store [of "Suc ?k" "st_bucket_offsets (run_storage run)" ?f ?bs ?k] assms(2) run
    by (auto simp: run_exact_def)
  then show ?thesis
    using run by (simp add: worklist_holds_def Let_def w worklist_finish_def run_exact_def pairs_filled_def buckets_filled_def)
qed

lemma busy_first: "expert_major chosen ((busy_experts chosen m @ [m]) ! 0) = []"
proof (induction m)
  case (Suc m)
  then show ?case by (cases "busy_experts chosen m") (auto simp: nth_append)
qed simp

lemma busy_nonempty: "expert_major chosen m \<noteq> [] \<Longrightarrow> busy_experts chosen m \<noteq> []"
  by (induction m) (auto split: if_splits)

lemma holds_bound:
  assumes ok: "routable r chosen weights" "0 < unat (rq_pair_count r)" and holds: "worklist_holds r chosen weights w"
    and count: "unat (wl_bucket_count w) = length (busy_experts chosen (unat (rq_expert_count r)))"
    and fields: "wl_schema_version w = YVEX_EXPERT_WORKLIST_SCHEMA_V1" "worklist_identity_valid (Some (wl_identity w))"
      "rq_batch r = Some batch" "rq_policy r = Some policy" "wl_batch_identity w = eb_identity batch"
      "wl_policy_identity w = wp_identity policy" "wl_actual_width w = eb_row_count batch"
      "wl_pair_count w = rq_pair_count r"
  shows "worklist_bound r w batch policy"
proof -
  let ?k = "unat (rq_expert_count r)" and ?bs = "busy_experts chosen (unat (rq_expert_count r))"
  have em: "length (expert_major chosen ?k) = unat (rq_pair_count r)" by (rule routable_partition(2) [OF ok(1)])
  have off: "filled (Suc ?k) (wl_bucket_offsets w) (\<lambda>e. of_nat (length (expert_major chosen e))) (?bs @ [?k])"
    using holds by (simp add: worklist_holds_def Let_def)
  have "load (wl_bucket_offsets w) 0 = Some 0" using filled_load [OF off, of 0] busy_first [of chosen ?k] by simp
  moreover have "load (wl_bucket_offsets w) (length ?bs) = Some (rq_pair_count r)"
    using filled_load [OF off, of "length ?bs"] em by simp
  moreover have "expert_major chosen ?k \<noteq> []" using em ok(2) by (metis list.size(3) less_irrefl)
  then have "?bs \<noteq> []" by (rule busy_nonempty)
  then have "wl_bucket_count w \<noteq> 0" using count by auto
  moreover have "\<not> wl_bucket_count w > rq_expert_count r"
    using length_busy_experts [of chosen ?k] count by (simp add: word_less_nat_alt)
  ultimately show ?thesis
    using holds fields count
    by (auto simp: worklist_bound_def worklist_structure_invalid_def worklist_holds_def Let_def filled_def)
qed

lemma conclude_exact:
  assumes ok: "routable r chosen weights" and geo: "worklist_geometry_valid r batch st" "rq_policy r = Some policy"
    and run: "run_exact r chosen weights policy (unat (rq_expert_count r)) run"
    and ids: "rq_batch r = Some batch" "worklist_identity_valid (Some (eb_identity batch))"
      "worklist_identity_valid (Some (wp_identity policy))"
  shows "\<exists>w st'. worklist_conclude True r batch policy run = Some (Inr (), w, st') \<and>
    worklist_holds r chosen weights w \<and> counts_exact policy (populations_upto chosen (unat (rq_expert_count r))) w \<and>
    wl_bucket_count w = of_nat (length (busy_experts chosen (unat (rq_expert_count r)))) \<and>
    wl_narrow_pairs w = rq_pair_count r - wl_matrix_tile_eligible_pairs w"
proof -
  note b = geometry_bounds [OF geo]
  let ?k = "unat (rq_expert_count r)" and ?bs = "busy_experts chosen (unat (rq_expert_count r))"
  have cursor: "of_nat (run_cursor run) = rq_pair_count r"
    using run routable_partition(2) [OF ok] by (simp add: run_exact_def)
  obtain offsets where off: "store (st_bucket_offsets (run_storage run)) (run_bucket run) (of_nat (run_cursor run)) = Some offsets"
    using run length_busy_experts [of chosen ?k]
    by (auto simp: run_exact_def buckets_filled_def filled_def store_def)
  define w where "w = worklist_finish r batch policy (worklist_admitted_width batch policy)
      (run\<lparr>run_storage := (run_storage run)\<lparr>st_bucket_offsets := offsets\<rparr>\<rparr>)"
  have holds: "worklist_holds r chosen weights w" by (rule finish_holds [OF run off w_def])
  have few: "length ?bs \<le> 256" using length_busy_experts [of chosen ?k] b(1) by simp
  have count: "unat (wl_bucket_count w) = length ?bs" "wl_bucket_count w = of_nat (length ?bs)"
    using run few by (simp_all add: w_def worklist_finish_def Let_def run_exact_def unat_of_nat)
  have texts: "wl_batch_identity w = eb_identity batch" "wl_policy_identity w = wp_identity policy"
    using ids(2,3) by (simp_all add: w_def worklist_finish_def Let_def yvex_core_text_copy_def worklist_identity_valid_iff)
  obtain identity where seal: "worklist_seal r w = Some (Some (w\<lparr>wl_identity := identity\<rparr>))"
    "worklist_identity_valid (Some identity)"
    using holds_seal [OF ok holds count(1) b(1,4)] texts ids(2,3) by (auto simp: worklist_identity_valid_iff)
  let ?w = "w\<lparr>wl_identity := identity\<rparr>"
  have holds': "worklist_holds r chosen weights ?w" using holds by (simp add: worklist_holds_def)
  have bound: "worklist_bound r ?w batch policy"
    using count(1) seal(2) ids(1) geo(2) texts
    by (intro holds_bound [OF ok b(3) holds']) (simp_all add: w_def worklist_finish_def Let_def)
  then have "yvex_expert_worklist_validate True (Some r) (Some ?w) = Some (Inr ())"
    using holds_accepted [OF ok b(2) holds'] count(1) by simp
  then have "worklist_conclude True r batch policy run = Some (Inr (), ?w,
      (run_storage run)\<lparr>st_bucket_offsets := offsets\<rparr>)"
    using off cursor seal(1) by (simp add: worklist_conclude_def Let_def w_def)
  moreover have "counts_exact policy (populations_upto chosen ?k) ?w"
    using run by (simp add: run_exact_def counts_exact_def w_def worklist_finish_def Let_def)
  ultimately show ?thesis using holds' count(2) by (auto simp: w_def worklist_finish_def Let_def)
qed

lemma build_exact:
  assumes valid: "worklist_request_valid (Some r) (Some st) = Some True"
    and ok: "routable r chosen weights" "storage_backed st" "rq_policy r = Some policy"
  shows "\<exists>w st'. yvex_expert_worklist_build True (Some r) (Some st) (Some w0) = Some (Inr (), Some w, Some st') \<and>
    worklist_holds r chosen weights w \<and> counts_exact policy (populations_upto chosen (unat (rq_expert_count r))) w \<and>
    wl_bucket_count w = of_nat (length (busy_experts chosen (unat (rq_expert_count r)))) \<and>
    wl_narrow_pairs w = rq_pair_count r - wl_matrix_tile_eligible_pairs w"
proof -
  obtain batch where b: "rq_batch r = Some batch" "yvex_execution_batch_validate False (Some batch) = Some (Inr ())"
    "yvex_expert_worklist_policy_validate False (Some policy) = Inr ()" "worklist_geometry_valid r batch st"
    using request_valid_parts [OF valid] ok(3) by auto
  note bounds = geometry_bounds [OF b(4) ok(3)]
  have policy_ok: "worklist_identity_valid (Some (wp_identity policy))"
    using policy.accepted_admissible [of False policy] b(3) by simp
  obtain run where run: "for_each (route_expert r policy (worklist_admitted_width batch policy))
      [0..<unat (rq_expert_count r)] \<lparr>run_cursor = 0, run_bucket = 0, run_storage = st, run_worklist = worklist_zero\<rparr> =
      Some (Inr run)" "run_exact r chosen weights policy (unat (rq_expert_count r)) run"
    using route_experts_exact [OF ok(1) bounds(2,5) initial_run_exact [OF b(4) ok(3,2)]] by blast
  obtain w st' where "worklist_conclude True r batch policy run = Some (Inr (), w, st')"
    "worklist_holds r chosen weights w" "counts_exact policy (populations_upto chosen (unat (rq_expert_count r))) w"
    "wl_bucket_count w = of_nat (length (busy_experts chosen (unat (rq_expert_count r))))"
    "wl_narrow_pairs w = rq_pair_count r - wl_matrix_tile_eligible_pairs w"
    using conclude_exact [OF ok(1) b(4) ok(3) run(2) b(1) batch.accepted_admissible [OF b(2)]
        policy_ok] by blast
  then show ?thesis using valid b(1) ok(3) run(1) by (simp add: yvex_expert_worklist_build_def Let_def)
qed



section \<open>A request that was never sealed\<close>

definition sample_storage :: yvex_expert_worklist_storage where
  "sample_storage = \<lparr>st_expert_ids = Some (replicate 3 0), st_bucket_offsets = Some (replicate 4 0),
     st_bucket_populations = Some (replicate 3 0), st_source_pairs = Some (replicate 4 0),
     st_source_rows = Some (replicate 4 0), st_destination_rows = Some (replicate 4 0),
     st_route_weights = Some (replicate 4 0), st_bucket_capacity = 3, st_pair_capacity = 4\<rparr>"

lemma sample_seals_refused:
  "yvex_execution_batch_seal (Some sample_batch) = Some (Inl batch_refused)"
  "yvex_expert_worklist_policy_seal (Some sample_policy) =
     Inl (worklist_refuse YVEX_ERR_INVALID_ARG ''expert worklist width policy is incomplete'')"
  by (simp_all add: yvex_execution_batch_seal_def sample_batch_def batch_incomplete_def
      execution_batch_sources_valid_def yvex_expert_worklist_policy_seal_def sample_policy_def
      policy_widths_incomplete_def)

lemma sample_identities_valid:
  "worklist_identity_valid (Some (eb_identity sample_batch))" "worklist_identity_valid (Some (wp_identity sample_policy))"
  by code_simp+

lemma sample_validated:
  "yvex_execution_batch_validate err (Some sample_batch) = Some (refused_through err batch_refused)"
  "yvex_expert_worklist_policy_validate err (Some sample_policy) = refused_through err
     (worklist_refuse YVEX_ERR_INVALID_ARG ''expert worklist width policy is incomplete'')"
  using batch.unsealed [OF sample_seals_refused(1) sample_identities_valid(1)]
    policy.unsealed [of sample_policy] sample_seals_refused(2) sample_identities_valid(2)
  by (simp_all add: sample_policy_def)

lemma sample_geometry: "worklist_geometry_valid sample_request sample_batch sample_storage"
  by code_simp

lemma sample_request_valid: "worklist_request_valid (Some sample_request) (Some sample_storage) = Some True"
  using sample_geometry
  by (simp add: worklist_request_valid_def sample_request_def sample_validated refused_through_simps)

lemma sample_routable: "routable sample_request [2, 0, 0, 2] [0x3f000000, 0x3e800000, 0x3f400000, 0x3f800000]"
  by code_simp

lemma sample_backed: "storage_backed sample_storage"
  by (simp add: storage_backed_def backed_def sample_storage_def)


text \<open>
  (C40) The builder accepts a batch and a policy that the sealing functions refuse: its checks call the two
  validators without an error record, and after a refused seal these return the code of the error record,
  which is success when there is none.  With an error record the same batch and policy are refused.
\<close>

theorem worklist_build_accepts_refused_request:
  "\<exists>r st batch policy e e' w st'.
     rq_batch r = Some batch \<and> rq_policy r = Some policy \<and>
     yvex_execution_batch_seal (Some batch) = Some (Inl e) \<and>
     yvex_expert_worklist_policy_seal (Some policy) = Inl e' \<and>
     yvex_execution_batch_validate True (Some batch) = Some (Inl e) \<and>
     yvex_expert_worklist_policy_validate True (Some policy) = Inl e' \<and>
     yvex_execution_batch_validate False (Some batch) = Some (Inr ()) \<and>
     yvex_expert_worklist_policy_validate False (Some policy) = Inr () \<and>
     yvex_expert_worklist_build True (Some r) (Some st) (Some worklist_zero) = Some (Inr (), Some w, Some st')"
proof -
  have r: "rq_batch sample_request = Some sample_batch" "rq_policy sample_request = Some sample_policy"
    by (simp_all add: sample_request_def)
  obtain w st' where "yvex_expert_worklist_build True (Some sample_request) (Some sample_storage) (Some worklist_zero) =
      Some (Inr (), Some w, Some st')"
    using build_exact [OF sample_request_valid sample_routable sample_backed r(2)] by blast
  moreover have "refused_through True batch_refused = Inl batch_refused" "refused_through False e = Inr ()"
    "refused_through True (worklist_refuse YVEX_ERR_INVALID_ARG m) = Inl (worklist_refuse YVEX_ERR_INVALID_ARG m)" for e m
    by (simp_all add: refused_through_simps batch_refused_def worklist_refuse_def)
  note sample_validated [of True, unfolded this] sample_validated [of False, unfolded this]
  ultimately show ?thesis using r sample_seals_refused by blast
qed

end
