(* ===== verification/Spec2Isabelle.thy ===== *)
theory Spec2Isabelle
  imports Core_Sha256_Vector Core_Shard_Index Request_Queue Execution_Transaction Resource_Lifecycle Gguf_Tiling
    Worklist_Build
begin

text \<open>
  A verification development for YVEX, a C system that admits model files, compiles them and serves
  them.  It models the parts whose correctness everything else rests on and that are exact: the leaf
  services, the identities, the admission of GGUF model files, the grouping of routed work by expert, and
  the concurrent and transactional machinery of the runtime and the server.  File names below are under \<^verbatim>\<open>src/src\<close>.

  \<^bold>\<open>The parts and how they interact.\<close>
  Every component reports through the status codes and error records of \<^verbatim>\<open>core/status.c\<close>.  Immutable facts
  are sealed by \<^verbatim>\<open>core/sha256.c\<close>: a sequence of numbers and texts is fed to SHA-256 and the digest becomes
  an identity.  \<^verbatim>\<open>core/shard_index.c\<close> finds the shard of a model source.  \<^verbatim>\<open>artifact/core.c\<close> opens a file,
  remembers its identity and reads ranges of it.  \<^verbatim>\<open>gguf/core.c\<close> reads the header, metadata and tensor
  directory of a GGUF file through those reads, using \<^verbatim>\<open>gguf/qtype.c\<close> for the size of a tensor;
  \<^verbatim>\<open>gguf/layout_integrity.c\<close> then decides whether the bytes of the file are laid out canonically.  In a
  running engine, \<^verbatim>\<open>graph/worklist.c\<close> seals execution batches and groups their routed pairs by expert,
  \<^verbatim>\<open>runtime/transaction.c\<close> executes work in quanta that are published or discarded as a whole,
  \<^verbatim>\<open>runtime/resource.c\<close> holds the live resources behind generation-checked handles, and
  \<^verbatim>\<open>server/request_queue.c\<close> serializes the requests of a session over worker threads.

  \<^bold>\<open>The theories.\<close>
  \<^item> \<open>Yvex_Prelude\<close>: machine words read as numbers, the array loops of C (the scan that stops at the
    first hit, the shift that closes a gap), decimal rendering, sequencing of fallible steps, and the
    locale \<open>invariant_system\<close> of transition systems with an invariant.
  \<^item> \<open>Core_Status\<close> (\<^verbatim>\<open>core/status.c\<close>): status codes, bounded error records, overflow-checked arithmetic
    (locale \<open>checked_arith\<close>, interpreted for addition and multiplication), allocation epochs and execution
    observations.  The difference of two snapshots is exactly what was recorded between them.
  \<^item> \<open>Core_Sha256\<close>, \<open>Core_Sha256_Vector\<close> (\<^verbatim>\<open>core/sha256.c\<close>): the compression function, the incremental
    context, the identity encoding and the hexadecimal form.  The context computes the digest of the
    padded message however the input is split (locale \<open>incremental_hash\<close>), the encoding of fields is
    unambiguous, the hexadecimal form is injective, and a published vector evaluates.
  \<^item> \<open>Core_Shard_Index\<close> (\<^verbatim>\<open>core/shard_index.c\<close>): admission accepts exactly the canonical arrays, and the
    binary search is exact and logarithmic.
  \<^item> \<open>Request_Queue\<close> (\<^verbatim>\<open>server/request_queue.c\<close>): the operations on the arrays of the queue, and the
    worker threads as the step relation \<open>queue_step\<close>, whose steps are the critical sections of the code,
    interleaved in any order, with spurious wakeups.  Mutual exclusion per key, order and conservation,
    absence of lost wakeups, and draining hold in every reachable state; the array routine of selection
    refines the abstract choice (locale \<open>keyed_queue\<close>).
  \<^item> \<open>Execution_Transaction\<close> (\<^verbatim>\<open>runtime/transaction.c\<close>): every operation of the transaction over a record of
    its state, callbacks as functions with a log of the calls.  In every reachable state a transaction is
    published or discarded but not both, quanta commit in order, and leases are balanced; elapsed times
    saturate instead of wrapping.
  \<^item> \<open>Resource_Catalog\<close>, \<open>Resource_Lifecycle\<close> (\<^verbatim>\<open>runtime/resource.c\<close>): the catalog with its slots,
    generations, dependencies and byte totals; release in its two critical sections with the callback
    between them; clients as the step relation \<open>resource_step\<close>.  Totals equal the live entries, nothing in
    use is released, a released handle stays stale, and closing terminates and releases everything.
  \<^item> \<open>Artifact_File\<close>, \<open>Artifact_Snapshot\<close> (\<^verbatim>\<open>artifact/core.c\<close>): positioned reads, opening, closing and the
    identity checks.  Descriptors and mappings are accounted for on every path.
  \<^item> \<open>Gguf_Qtype\<close> (\<^verbatim>\<open>gguf/qtype.c\<close>): the registry of element types and the exact storage of a tensor.
  \<^item> \<open>Gguf_Text\<close>, \<open>Gguf_Index\<close>, \<open>Gguf_Reader\<close>, \<open>Gguf_Directory\<close> (\<^verbatim>\<open>gguf/core.c\<close>): UTF-8 and the key
    grammar, each equal to its specification; the open-addressed index of names (locale \<open>name_directory\<close>);
    the cursor with its budgets, the parsers of values, metadata and tensors, alignment, ranges, opening
    and the accessors, written in a small reader monad that carries the cursor.
  \<^item> \<open>Gguf_Contract\<close>, \<open>Gguf_Values\<close>, \<open>Gguf_View\<close>, \<open>Gguf_Open\<close>: what the bytes of a GGUF file mean, and
    that the reader agrees.  A reading step is \<open>sound\<close> when it consumes bytes that stand in the stated
    relation to its result; the rules compose along the code.  An accepted file starts with the encoding
    of the view, the view is well formed, its ranges and lookups are exact, budgets hold, and refusals
    report themselves.  One file shows that the cleanup of a refused array follows a null pointer.
  \<^item> \<open>Gguf_Layout\<close>, \<open>Gguf_Tiling\<close> (\<^verbatim>\<open>gguf/layout_integrity.c\<close>): the validation of the layout, and that it
    accepts exactly the files tiled by their directory, their tensors and zero padding.
  \<^item> \<open>Checked_Arrays\<close>: arrays behind pointers whose accesses may fail, and loops over them.
  \<^item> \<open>Execution_Batch\<close>, \<open>Expert_Worklist\<close> (\<^verbatim>\<open>graph/worklist.c\<close>): the seals and validators of batches and
    policies, which share a contract (locale \<open>sealed_record\<close>), the expert-major builder, the validator of
    worklists, and the addition of observations.
  \<^item> \<open>Worklist_Validation\<close>, \<open>Worklist_Partition\<close>, \<open>Worklist_Build\<close>: the validator accepts exactly the
    worklists that list every pair once, grouped by expert; the builder stays within the caller's arrays
    and produces the stable partition, which its own validation accepts.  One request shows that the
    builder's checks let refused batches and policies pass.

  \<^bold>\<open>Conventions.\<close>
  Numbers that take part in arithmetic are words of their width, so they wrap as in C; positions in
  arrays that exist in memory are naturals.  A struct is a record, an enumeration a datatype, a nullable
  pointer an option, a C string the list of its characters or bytes.  Fallible functions return an error
  value or a result, with the error record the code would leave; where memory accesses are modelled, the
  result \<open>None\<close> above it is undefined behaviour.  What the environment answers is an
  argument: allocation, locks, thread creation, clocks, \<open>pread\<close>, \<open>fstat\<close>, callbacks, and the widening of
  a 32-bit float (only its bits are stored).  The named contracts on these arguments are \<open>reads_file\<close> (the
  bytes returned are those of the file) and \<open>serves_file\<close> (reads within the file make progress); both hold
  of the artifact over a byte list, which the witnesses use.  The caller's side of the worklist builder is
  \<open>routable\<close> (the request's arrays hold valid pairs) and \<open>storage_backed\<close> (the output arrays have their
  announced capacities).

  \<^bold>\<open>Bounds and fuel.\<close>
  Loops are recursion with a termination proof.  Three functions carry a counter instead: the probe of the
  name index visits at most as many slots as the table has, which is enough because the table always has
  a free slot; the parser of values counts the depth of nested arrays, which the code itself bounds by its
  limit; and the closing loop of the resource catalog has fuel for one round per resource and one more,
  and is proved to return within it.

  \<^bold>\<open>Not modelled.\<close>
  Floating-point kernels, quantization codecs and the device backends, whose content is rounding; the
  other graph, model, runtime and tokenizer layers that orchestrate them; transports, protocols and persistent
  state of the server; sources, downloads and file-system publication; the JSON scanner; the ARM64 path of
  SHA-256; the cleanup leases at the end of \<^verbatim>\<open>runtime/resource.c\<close>; and the command line, which is Rust.
  Data races are outside the models: a critical section is one step.
\<close>

end
